(* ===== verification/Dbus_Prelude.thy ===== *)
theory Dbus_Prelude
  imports Main "HOL-Library.Word"
begin

unbundle bit_operations_syntax

text \<open>
  Shared vocabulary of the development: bytes and byte strings, character
  constants, byte ranges of a string, alignment, the outcome of memory
  allocation, and the list lemmas that several components use.

  A \<open>DBusString\<close> (src/dbus/dbus-string.h) is modelled by the list of its bytes.
  A range \<open>(str, start, len)\<close>, which the C code passes around as a pointer and
  two ints, is the list \<open>str_range str start len\<close>; a loop that moves a pointer
  \<open>s\<close> up to \<open>end\<close> is a recursion over the list of the bytes in between.
\<close>

named_theorems dbus_defs \<open>definitions of the model that are unfolded when a term is evaluated\<close>
named_theorems char_defs \<open>character classes\<close>

type_synonym byte = "8 word"
type_synonym dbus_string = "byte list"

text \<open>The C character constant: \<open>ch CHR ''a''\<close> is the byte 97.\<close>

abbreviation ch :: "char \<Rightarrow> byte" where
  "ch c \<equiv> of_char c"

definition str :: "string \<Rightarrow> dbus_string" where
  "str s = map of_char s"

lemma str_Nil [simp]: "str [] = []"
  by (simp add: str_def)

lemma str_Cons [simp]: "str (c # cs) = ch c # str cs"
  by (simp add: str_def)

lemma length_str [simp]: "length (str s) = length s"
  by (simp add: str_def)

definition str_range :: "'a list \<Rightarrow> nat \<Rightarrow> nat \<Rightarrow> 'a list" where
  "str_range s start len = take len (drop start s)"

lemma length_str_range [simp]: "length (str_range s start len) = min len (length s - start)"
  by (simp add: str_range_def min.commute)

lemma str_range_full [simp]: "str_range s 0 (length s) = s"
  by (simp add: str_range_def)

lemma str_range_middle: "str_range (xs @ ys @ zs) (length xs) (length ys) = ys"
  by (simp add: str_range_def)

subsection \<open>Components separated by a byte\<close>

text \<open>
  \<open>join sep cs\<close> writes the components \<open>cs\<close> with \<open>sep\<close> between them; it is the
  reference notation for dotted names.
\<close>

fun join :: "'a \<Rightarrow> 'a list list \<Rightarrow> 'a list" where
  "join sep [] = []"
| "join sep [c] = c"
| "join sep (c # cs) = c @ sep # join sep cs"

lemma join_Cons: "cs \<noteq> [] \<Longrightarrow> join sep (c # cs) = c @ sep # join sep cs"
  by (cases cs) auto

lemma join_Cons_Cons: "join sep ((x # c) # cs) = x # join sep (c # cs)"
  by (cases cs) auto

lemma list_all_takeWhile [simp]: "list_all P (takeWhile P xs)"
  by (induction xs) auto

lemma list_all_imp: "list_all P xs \<Longrightarrow> (\<And>x. P x \<Longrightarrow> Q x) \<Longrightarrow> list_all Q xs"
  by (auto simp: list_all_iff)

lemma map_option_plus [simp]:
  "map_option ((+) a) (map_option ((+) b) o') = map_option ((+) (a + b)) o'"
  "map_option Suc (map_option ((+) b) o') = map_option ((+) (Suc b)) o'"
  "map_option ((+) b) (map_option Suc o') = map_option ((+) (Suc b)) o'"
  "map_option ((+) 0) o' = o'"
  for a b :: nat
  by (cases o'; simp)+

subsection \<open>C ints\<close>

text \<open>A C \<open>int\<close> is a 32 bit word read with \<open>sint\<close>.\<close>

lemma sint_unat_cases: "sint (w :: 32 word) = (if unat w < 2 ^ 31 then int (unat w) else int (unat w) - 2 ^ 32)"
proof -
  obtain k where k: "unat w = k" "uint w = int k" "k < 4294967296"
    using unsigned_less [of w, where ?'a = nat] by (simp add: uint_nat)
  have "sint w = (int k + 2147483648) mod 4294967296 - 2147483648"
    by (simp add: sint_uint signed_take_bit_eq_take_bit_shift take_bit_eq_mod k)
  moreover have "(int k + 2147483648) mod 4294967296 = (if k < 2147483648 then int k + 2147483648 else int k - 2147483648)"
    using k(3) mod_pos_pos_trivial [of "int k + 2147483648 - 4294967296" 4294967296]
      minus_mod_self2 [of "int k + 2147483648" 4294967296] by auto
  ultimately show ?thesis
    using k by auto
qed

end
