(* ===== verification/Dbus_Names.thy ===== *)
theory Dbus_Names
  imports Dbus_Prelude
begin

text \<open>
  Names and object paths: the character classes and the validators
  \<open>_dbus_validate_path\<close>, \<open>_dbus_validate_interface\<close>, \<open>_dbus_validate_member\<close>,
  \<open>_dbus_validate_error_name\<close> and \<open>_dbus_validate_bus_name\<close> of
  src/dbus/dbus-marshal-validate.c, and their equivalence with a grammar of
  components.
\<close>

section \<open>Character classes\<close>

definition DBUS_MAXIMUM_NAME_LENGTH :: nat where
  [dbus_defs]: "DBUS_MAXIMUM_NAME_LENGTH = 255"

definition VALID_INITIAL_NAME_CHARACTER :: "byte \<Rightarrow> bool" where
  [char_defs]: "VALID_INITIAL_NAME_CHARACTER c \<longleftrightarrow>
     ch CHR ''A'' \<le> c \<and> c \<le> ch CHR ''Z'' \<or>
     ch CHR ''a'' \<le> c \<and> c \<le> ch CHR ''z'' \<or>
     c = ch CHR ''_''"

definition VALID_NAME_CHARACTER :: "byte \<Rightarrow> bool" where
  [char_defs]: "VALID_NAME_CHARACTER c \<longleftrightarrow>
     ch CHR ''0'' \<le> c \<and> c \<le> ch CHR ''9'' \<or>
     ch CHR ''A'' \<le> c \<and> c \<le> ch CHR ''Z'' \<or>
     ch CHR ''a'' \<le> c \<and> c \<le> ch CHR ''z'' \<or>
     c = ch CHR ''_''"

definition VALID_INITIAL_BUS_NAME_CHARACTER :: "byte \<Rightarrow> bool" where
  [char_defs]: "VALID_INITIAL_BUS_NAME_CHARACTER c \<longleftrightarrow>
     ch CHR ''A'' \<le> c \<and> c \<le> ch CHR ''Z'' \<or>
     ch CHR ''a'' \<le> c \<and> c \<le> ch CHR ''z'' \<or>
     c = ch CHR ''_'' \<or> c = ch CHR ''-''"

definition VALID_BUS_NAME_CHARACTER :: "byte \<Rightarrow> bool" where
  [char_defs]: "VALID_BUS_NAME_CHARACTER c \<longleftrightarrow>
     ch CHR ''0'' \<le> c \<and> c \<le> ch CHR ''9'' \<or>
     ch CHR ''A'' \<le> c \<and> c \<le> ch CHR ''Z'' \<or>
     ch CHR ''a'' \<le> c \<and> c \<le> ch CHR ''z'' \<or>
     c = ch CHR ''_'' \<or> c = ch CHR ''-''"

section \<open>The validators\<close>

text \<open>
  The loop of \<open>_dbus_validate_path\<close>: the list holds the bytes from \<open>s\<close> to \<open>end\<close>,
  \<open>d\<close> is the distance \<open>s - last_slash\<close>. \<open>None\<close> is a \<open>return FALSE\<close> inside the
  loop; \<open>Some d\<close> is the loop's exit with \<open>d = end - last_slash\<close>.
\<close>

fun validate_path_loop :: "byte list \<Rightarrow> nat \<Rightarrow> nat option" where
  "validate_path_loop [] d = Some d"
| "validate_path_loop (c # cs) d =
     (if c = ch CHR ''/'' then
        (if d < 2 then None else validate_path_loop cs 1)
      else if \<not> VALID_NAME_CHARACTER c then None
      else validate_path_loop cs (d + 1))"

definition dbus_validate_path :: "dbus_string \<Rightarrow> nat \<Rightarrow> nat \<Rightarrow> bool" where
  [dbus_defs]: "dbus_validate_path s start len =
     (if len > length s - start then False
      else if len = 0 then False
      else (case str_range s start len of
              [] \<Rightarrow> False
            | c # cs \<Rightarrow>
                if c \<noteq> ch CHR ''/'' then False
                else (case validate_path_loop cs 1 of
                        None \<Rightarrow> False
                      | Some d \<Rightarrow> \<not> (d < 2 \<and> len > 1))))"

text \<open>
  The loop shared by the interface and bus name validators: after a dot the next
  byte must exist and be a valid initial character, and both are skipped; any other
  byte must be a valid name character. The boolean is \<open>last_dot != NULL\<close>.
\<close>

fun dotted_loop :: "(byte \<Rightarrow> bool) \<Rightarrow> (byte \<Rightarrow> bool) \<Rightarrow> byte list \<Rightarrow> bool \<Rightarrow> bool option" where
  "dotted_loop initial rest [] last_dot = Some last_dot"
| "dotted_loop initial rest (c # cs) last_dot =
     (if c = ch CHR ''.'' then
        (case cs of
           [] \<Rightarrow> None
         | d # ds \<Rightarrow> if \<not> initial d then None else dotted_loop initial rest ds True)
      else if \<not> rest c then None
      else dotted_loop initial rest cs last_dot)"

definition dbus_validate_interface :: "dbus_string \<Rightarrow> nat \<Rightarrow> nat \<Rightarrow> bool" where
  [dbus_defs]: "dbus_validate_interface s start len =
     (if len > length s - start then False
      else if len > DBUS_MAXIMUM_NAME_LENGTH then False
      else if len = 0 then False
      else (case str_range s start len of
              [] \<Rightarrow> False
            | c # cs \<Rightarrow>
                if c = ch CHR ''.'' then False
                else if \<not> VALID_INITIAL_NAME_CHARACTER c then False
                else dotted_loop VALID_INITIAL_NAME_CHARACTER VALID_NAME_CHARACTER cs False
                       = Some True))"

fun validate_member_loop :: "byte list \<Rightarrow> bool" where
  "validate_member_loop [] = True"
| "validate_member_loop (c # cs) =
     (if \<not> VALID_NAME_CHARACTER c then False else validate_member_loop cs)"

definition dbus_validate_member :: "dbus_string \<Rightarrow> nat \<Rightarrow> nat \<Rightarrow> bool" where
  [dbus_defs]: "dbus_validate_member s start len =
     (if len > length s - start then False
      else if len > DBUS_MAXIMUM_NAME_LENGTH then False
      else if len = 0 then False
      else (case str_range s start len of
              [] \<Rightarrow> False
            | c # cs \<Rightarrow>
                if \<not> VALID_INITIAL_NAME_CHARACTER c then False
                else validate_member_loop cs))"

definition dbus_validate_error_name :: "dbus_string \<Rightarrow> nat \<Rightarrow> nat \<Rightarrow> bool" where
  [dbus_defs]: "dbus_validate_error_name s start len = dbus_validate_interface s start len"

text \<open>
  The loop over a unique name (after the colon) returns \<open>TRUE\<close> whenever it reaches
  the end, so its dot flag is not looked at.
\<close>

definition dbus_validate_bus_name :: "dbus_string \<Rightarrow> nat \<Rightarrow> nat \<Rightarrow> bool" where
  [dbus_defs]: "dbus_validate_bus_name s start len =
     (if len > length s - start then False
      else if len > DBUS_MAXIMUM_NAME_LENGTH then False
      else if len = 0 then False
      else (case str_range s start len of
              [] \<Rightarrow> False
            | c # cs \<Rightarrow>
                if c = ch CHR '':'' then
                  dotted_loop VALID_BUS_NAME_CHARACTER VALID_BUS_NAME_CHARACTER cs False \<noteq> None
                else if c = ch CHR ''.'' then False
                else if \<not> VALID_INITIAL_BUS_NAME_CHARACTER c then False
                else dotted_loop VALID_INITIAL_BUS_NAME_CHARACTER VALID_BUS_NAME_CHARACTER cs False
                       = Some True))"

section \<open>Reference grammar\<close>

text \<open>A name element: an initial character followed by name characters.\<close>

definition name_element :: "(byte \<Rightarrow> bool) \<Rightarrow> (byte \<Rightarrow> bool) \<Rightarrow> byte list \<Rightarrow> bool" where
  "name_element initial rest e \<longleftrightarrow> e \<noteq> [] \<and> initial (hd e) \<and> list_all rest e"

definition path_element :: "byte list \<Rightarrow> bool" where
  "path_element e \<longleftrightarrow> e \<noteq> [] \<and> list_all VALID_NAME_CHARACTER e"

definition is_object_path :: "byte list \<Rightarrow> bool" where
  "is_object_path p \<longleftrightarrow> p = [ch CHR ''/''] \<or>
     (\<exists>es. es \<noteq> [] \<and> list_all path_element es \<and> p = concat (map ((#) (ch CHR ''/'')) es))"

section \<open>Dotted names\<close>

text \<open>
  What the loop relies on: an initial character is a name character and the dot is
  none. Under this contract the loop accepts exactly the rest of a dotted name.
\<close>

locale dotted_name =
  fixes initial :: "byte \<Rightarrow> bool" and rest :: "byte \<Rightarrow> bool"
  assumes initial_rest: "initial c \<Longrightarrow> rest c"
    and dot_not_rest: "\<not> rest (ch CHR ''.'')"
begin

lemma dotted_loop_sound:
  "dotted_loop initial rest cs b = Some b' \<Longrightarrow>
   \<exists>e es. list_all rest e \<and> list_all (name_element initial rest) es \<and>
     cs = join (ch CHR ''.'') (e # es) \<and> b' = (b \<or> es \<noteq> [])"
proof (induction "length cs" arbitrary: cs b rule: less_induct)
  case less
  show ?case
  proof (cases cs)
    case Nil
    with less.prems show ?thesis by (intro exI [of _ "[]"]) auto
  next
    case (Cons c cs')
    show ?thesis
    proof (cases "c = ch CHR ''.''")
      case True
      with less.prems Cons obtain d ds where cs: "cs' = d # ds" and d: "initial d"
        and rec: "dotted_loop initial rest ds True = Some b'"
        by (auto split: list.splits if_splits)
      from less.hyps [OF _ rec] cs Cons obtain e es where
        e: "list_all rest e" "list_all (name_element initial rest) es"
          "ds = join (ch CHR ''.'') (e # es)" "b'"
        by auto
      have "cs' = join (ch CHR ''.'') ((d # e) # es)"
        using cs e(3) by (simp only: join_Cons_Cons)
      moreover have "name_element initial rest (d # e)"
        using d e(1) initial_rest by (simp add: name_element_def)
      ultimately show ?thesis using True e Cons
        by (intro exI [of _ "[]"] exI [of _ "(d # e) # es"]) auto
    next
      case False
      with less.prems Cons have r: "rest c" and rec: "dotted_loop initial rest cs' b = Some b'"
        by (auto split: if_splits)
      from less.hyps [OF _ rec] Cons obtain e es where
        e: "list_all rest e" "list_all (name_element initial rest) es"
          "cs' = join (ch CHR ''.'') (e # es)" "b' = (b \<or> es \<noteq> [])"
        by auto
      then show ?thesis using r Cons
        by (intro exI [of _ "c # e"] exI [of _ es]) (simp add: join_Cons_Cons)
    qed
  qed
qed

lemma dotted_loop_element:
  "list_all rest e \<Longrightarrow> dotted_loop initial rest (e @ cs) b = dotted_loop initial rest cs b"
  using dot_not_rest by (induction e) auto

lemma dotted_loop_complete:
  "list_all rest e \<Longrightarrow> list_all (name_element initial rest) es \<Longrightarrow>
   dotted_loop initial rest (join (ch CHR ''.'') (e # es)) b = Some (b \<or> es \<noteq> [])"
proof (induction es arbitrary: e b)
  case Nil
  then show ?case using dotted_loop_element [of e "[]"] by simp
next
  case (Cons f fs)
  from Cons.prems(2) obtain d f' where f: "f = d # f'" and d: "initial d" "list_all rest f'"
    by (cases f) (auto simp: name_element_def)
  have "dotted_loop initial rest (join (ch CHR ''.'') (e # f # fs)) b =
        dotted_loop initial rest (ch CHR ''.'' # d # join (ch CHR ''.'') (f' # fs)) b"
    using Cons.prems(1) f by (simp add: dotted_loop_element join_Cons_Cons)
  also have "\<dots> = dotted_loop initial rest (join (ch CHR ''.'') (f' # fs)) True"
    using d by simp
  also have "\<dots> = Some True"
    using Cons.IH [OF d(2)] Cons.prems(2) by simp
  finally show ?case by simp
qed

lemma hd_of_dotted:
  "c # cs = join sep es \<Longrightarrow> es \<noteq> [] \<Longrightarrow> list_all (name_element initial rest) es \<Longrightarrow> initial c"
  by (cases es; cases "hd es"; cases "tl es") (auto simp: name_element_def)

text \<open>The form in which the validators use the loop: the first byte was checked before.\<close>

lemma dotted_loop_iff:
  assumes c: "initial c"
  shows "dotted_loop initial rest cs False = Some True \<longleftrightarrow>
    (\<exists>es. 2 \<le> length es \<and> list_all (name_element initial rest) es \<and>
       c # cs = join (ch CHR ''.'') es)"
proof
  assume "dotted_loop initial rest cs False = Some True"
  from dotted_loop_sound [OF this] obtain e es where
    e: "list_all rest e" "list_all (name_element initial rest) es"
      "cs = join (ch CHR ''.'') (e # es)" "es \<noteq> []"
    by auto
  have "name_element initial rest (c # e)"
    using c e(1) initial_rest by (simp add: name_element_def)
  moreover have "2 \<le> length ((c # e) # es)"
    using e(4) by (cases es) auto
  ultimately show "\<exists>es. 2 \<le> length es \<and> list_all (name_element initial rest) es \<and>
       c # cs = join (ch CHR ''.'') es"
    using e by (intro exI [of _ "(c # e) # es"]) (simp add: join_Cons_Cons)
next
  assume "\<exists>es. 2 \<le> length es \<and> list_all (name_element initial rest) es \<and>
       c # cs = join (ch CHR ''.'') es"
  then obtain es' where es': "2 \<le> length es'" "list_all (name_element initial rest) es'"
      "c # cs = join (ch CHR ''.'') es'"
    by blast
  then obtain e es where "es' = e # es" "es \<noteq> []"
    by (cases es'; cases "tl es'") auto
  with es' have e: "name_element initial rest e" "es \<noteq> []"
      "list_all (name_element initial rest) es" "c # cs = join (ch CHR ''.'') (e # es)"
    by (auto simp del: join.simps)
  from e(1) obtain d e' where d: "e = d # e'" "list_all rest e'"
    by (cases e) (auto simp: name_element_def)
  with e(4) have "cs = join (ch CHR ''.'') (e' # es)"
    by (simp add: join_Cons_Cons)
  then show "dotted_loop initial rest cs False = Some True"
    using dotted_loop_complete [OF d(2) e(3)] e(2) by simp
qed

lemma dotted_validator_iff:
  "c \<noteq> ch CHR ''.'' \<and> initial c \<and> dotted_loop initial rest cs False = Some True \<longleftrightarrow>
   (\<exists>es. 2 \<le> length es \<and> list_all (name_element initial rest) es \<and>
      c # cs = join (ch CHR ''.'') es)"
proof (cases "initial c")
  case True
  with dot_not_rest initial_rest have "c \<noteq> ch CHR ''.''" by metis
  with True dotted_loop_iff [OF True] show ?thesis by simp
next
  case False
  then show ?thesis using hd_of_dotted by force
qed

lemma dotted_tail_iff:
  "dotted_loop initial rest cs b \<noteq> None \<longleftrightarrow>
   (\<exists>e es. list_all rest e \<and> list_all (name_element initial rest) es \<and>
      cs = join (ch CHR ''.'') (e # es))"
proof
  assume "dotted_loop initial rest cs b \<noteq> None"
  then obtain b' where "dotted_loop initial rest cs b = Some b'" by blast
  from dotted_loop_sound [OF this] show "\<exists>e es. list_all rest e \<and>
      list_all (name_element initial rest) es \<and> cs = join (ch CHR ''.'') (e # es)"
    by blast
next
  assume "\<exists>e es. list_all rest e \<and> list_all (name_element initial rest) es \<and>
      cs = join (ch CHR ''.'') (e # es)"
  then show "dotted_loop initial rest cs b \<noteq> None"
    using dotted_loop_complete by fastforce
qed

end

interpretation iface: dotted_name VALID_INITIAL_NAME_CHARACTER VALID_NAME_CHARACTER
  by unfold_locales (auto simp: char_defs)

interpretation busname: dotted_name VALID_INITIAL_BUS_NAME_CHARACTER VALID_BUS_NAME_CHARACTER
  by unfold_locales (auto simp: char_defs)

interpretation uniquename: dotted_name VALID_BUS_NAME_CHARACTER VALID_BUS_NAME_CHARACTER
  by unfold_locales (auto simp: char_defs)

section \<open>The validators accept exactly the grammar\<close>

lemma validate_path_loop_sound:
  "validate_path_loop cs d = Some d' \<Longrightarrow> 2 \<le> d' \<Longrightarrow>
   \<exists>e es. list_all VALID_NAME_CHARACTER e \<and> list_all path_element es \<and>
     cs = e @ concat (map ((#) (ch CHR ''/'')) es) \<and> 2 \<le> d + length e"
proof (induction cs d rule: validate_path_loop.induct)
  case (1 d)
  then show ?case by (intro exI [of _ "[]"]) auto
next
  case (2 c cs d)
  show ?case
  proof (cases "c = ch CHR ''/''")
    case True
    with 2 obtain e es where e: "list_all VALID_NAME_CHARACTER e" "list_all path_element es"
      "cs = e @ concat (map ((#) (ch CHR ''/'')) es)" "1 \<le> length e" "2 \<le> d"
      by (auto split: if_splits)
    then have "path_element e" by (auto simp: path_element_def)
    with True e show ?thesis
      by (intro exI [of _ "[]"] exI [of _ "e # es"]) auto
  next
    case False
    with 2 obtain e es where "VALID_NAME_CHARACTER c" "list_all VALID_NAME_CHARACTER e"
      "list_all path_element es" "cs = e @ concat (map ((#) (ch CHR ''/'')) es)"
      "2 \<le> d + 1 + length e"
      by (auto split: if_splits)
    then show ?thesis
      by (intro exI [of _ "c # e"] exI [of _ es]) auto
  qed
qed

lemma slash_not_name_character: "\<not> VALID_NAME_CHARACTER (ch CHR ''/'')"
  by (simp add: char_defs)

lemma validate_path_loop_element:
  "list_all VALID_NAME_CHARACTER e \<Longrightarrow>
   validate_path_loop (e @ cs) d = validate_path_loop cs (d + length e)"
  using slash_not_name_character by (induction e arbitrary: d) auto

lemma validate_path_loop_complete:
  "list_all path_element es \<Longrightarrow> 2 \<le> d \<Longrightarrow>
   \<exists>d' \<ge> 2. validate_path_loop (concat (map ((#) (ch CHR ''/'')) es)) d = Some d'"
proof (induction es arbitrary: d)
  case Nil
  then show ?case by simp
next
  case (Cons e es)
  then have "2 \<le> 1 + length e"
    by (cases e) (auto simp: path_element_def)
  with Cons show ?case
    by (auto simp: path_element_def validate_path_loop_element)
qed

lemma validate_path_loop_iff:
  "(\<exists>d \<ge> 2. validate_path_loop cs 1 = Some d) \<longleftrightarrow>
   (\<exists>es. es \<noteq> [] \<and> list_all path_element es \<and>
     ch CHR ''/'' # cs = concat (map ((#) (ch CHR ''/'')) es))"
proof
  assume "\<exists>d \<ge> 2. validate_path_loop cs 1 = Some d"
  then obtain e es where "list_all VALID_NAME_CHARACTER e" "list_all path_element es"
      "cs = e @ concat (map ((#) (ch CHR ''/'')) es)" "1 \<le> length e"
    using validate_path_loop_sound [of cs 1] by auto
  then show "\<exists>es. es \<noteq> [] \<and> list_all path_element es \<and>
     ch CHR ''/'' # cs = concat (map ((#) (ch CHR ''/'')) es)"
    by (intro exI [of _ "e # es"]) (auto simp: path_element_def)
next
  assume "\<exists>es. es \<noteq> [] \<and> list_all path_element es \<and>
     ch CHR ''/'' # cs = concat (map ((#) (ch CHR ''/'')) es)"
  then obtain e es where "path_element e" "list_all path_element es"
      "cs = e @ concat (map ((#) (ch CHR ''/'')) es)"
    by (auto simp: neq_Nil_conv)
  moreover from \<open>path_element e\<close> have "2 \<le> 1 + length e"
    by (cases e) (auto simp: path_element_def)
  ultimately show "\<exists>d \<ge> 2. validate_path_loop cs 1 = Some d"
    using validate_path_loop_complete [of es "1 + length e"]
    by (auto simp: path_element_def validate_path_loop_element)
qed

lemma str_range_cases:
  assumes "0 < len" and "len \<le> length s - start"
  obtains c cs where "str_range s start len = c # cs" and "length cs = len - 1"
proof -
  have "length (str_range s start len) = len"
    using assms by simp
  with assms that show thesis by (cases "str_range s start len") auto
qed

lemma is_object_path_Cons:
  "is_object_path (c # cs) \<longleftrightarrow>
     c = ch CHR ''/'' \<and> (cs = [] \<or> (\<exists>d \<ge> 2. validate_path_loop cs 1 = Some d))"
proof -
  have "es \<noteq> [] \<Longrightarrow> c # cs = concat (map ((#) (ch CHR ''/'')) es) \<Longrightarrow> c = ch CHR ''/''" for es
    by (cases es) auto
  then show ?thesis
    unfolding validate_path_loop_iff is_object_path_def by blast
qed

text \<open>C15: an object path is accepted exactly when the range lies inside the string and is
  either a single slash or a sequence of non-empty elements of name characters, each
  preceded by a slash: no empty element, no trailing slash, no other character.\<close>

theorem dbus_validate_path_iff:
  "dbus_validate_path s start len \<longleftrightarrow>
     0 < len \<and> start + len \<le> length s \<and> is_object_path (str_range s start len)"
proof (cases "0 < len \<and> len \<le> length s - start")
  case True
  then obtain c cs where r: "str_range s start len = c # cs" and l: "length cs = len - 1"
    by (auto elim: str_range_cases)
  show ?thesis
    using True l by (auto simp: dbus_validate_path_def r is_object_path_Cons split: option.splits)
next
  case False
  then show ?thesis by (auto simp: dbus_validate_path_def)
qed

text \<open>C16: an interface name is accepted exactly when the range lies inside the string, is at
  most 255 bytes long and consists of two or more elements separated by dots, each of them
  non-empty, made of letters, digits and underscores and not starting with a digit.\<close>

theorem dbus_validate_interface_iff:
  "dbus_validate_interface s start len \<longleftrightarrow>
     0 < len \<and> len \<le> DBUS_MAXIMUM_NAME_LENGTH \<and> start + len \<le> length s \<and>
     (\<exists>es. 2 \<le> length es \<and>
        list_all (name_element VALID_INITIAL_NAME_CHARACTER VALID_NAME_CHARACTER) es \<and>
        str_range s start len = join (ch CHR ''.'') es)"
proof (cases "0 < len \<and> len \<le> length s - start")
  case True
  then obtain c cs where r: "str_range s start len = c # cs"
    by (auto elim: str_range_cases)
  then have "dbus_validate_interface s start len \<longleftrightarrow> len \<le> DBUS_MAXIMUM_NAME_LENGTH \<and>
      c \<noteq> ch CHR ''.'' \<and> VALID_INITIAL_NAME_CHARACTER c \<and>
      dotted_loop VALID_INITIAL_NAME_CHARACTER VALID_NAME_CHARACTER cs False = Some True"
    using True by (auto simp: dbus_validate_interface_def)
  then show ?thesis
    unfolding iface.dotted_validator_iff r using True by auto
next
  case False
  then show ?thesis by (auto simp: dbus_validate_interface_def)
qed

text \<open>C17: a bus name is accepted exactly when the range lies inside the string, is at most 255
  bytes long and is either a well-known name (two or more dotted elements that do not start
  with a digit) or a colon followed by dotted bus name characters, where the first element
  may be empty and no dot is required.\<close>

theorem dbus_validate_bus_name_iff:
  "dbus_validate_bus_name s start len \<longleftrightarrow>
     0 < len \<and> len \<le> DBUS_MAXIMUM_NAME_LENGTH \<and> start + len \<le> length s \<and>
     ((\<exists>es. 2 \<le> length es \<and>
         list_all (name_element VALID_INITIAL_BUS_NAME_CHARACTER VALID_BUS_NAME_CHARACTER) es \<and>
         str_range s start len = join (ch CHR ''.'') es) \<or>
      (\<exists>e es. list_all VALID_BUS_NAME_CHARACTER e \<and>
         list_all (name_element VALID_BUS_NAME_CHARACTER VALID_BUS_NAME_CHARACTER) es \<and>
         str_range s start len = ch CHR '':'' # join (ch CHR ''.'') (e # es)))"
proof (cases "0 < len \<and> len \<le> length s - start")
  case True
  then obtain c cs where r: "str_range s start len = c # cs"
    by (auto elim: str_range_cases)
  have colon: "\<not> VALID_INITIAL_BUS_NAME_CHARACTER (ch CHR '':'')"
    by (simp add: char_defs)
  have "dbus_validate_bus_name s start len \<longleftrightarrow> len \<le> DBUS_MAXIMUM_NAME_LENGTH \<and>
      (c = ch CHR '':'' \<and>
         dotted_loop VALID_BUS_NAME_CHARACTER VALID_BUS_NAME_CHARACTER cs False \<noteq> None \<or>
       c \<noteq> ch CHR ''.'' \<and> VALID_INITIAL_BUS_NAME_CHARACTER c \<and>
       dotted_loop VALID_INITIAL_BUS_NAME_CHARACTER VALID_BUS_NAME_CHARACTER cs False = Some True)"
    using True colon by (auto simp: dbus_validate_bus_name_def r)
  then show ?thesis
    unfolding busname.dotted_validator_iff uniquename.dotted_tail_iff r
    using True by (auto simp del: join.simps)
next
  case False
  then show ?thesis by (auto simp: dbus_validate_bus_name_def)
qed

lemma validate_member_loop_iff: "validate_member_loop cs = list_all VALID_NAME_CHARACTER cs"
  by (induction cs) auto

text \<open>C18: a member name is accepted exactly when the range lies inside the string, is at most
  255 bytes long and is one name element (so it contains no dot).\<close>

theorem dbus_validate_member_iff:
  "dbus_validate_member s start len \<longleftrightarrow>
     len \<le> DBUS_MAXIMUM_NAME_LENGTH \<and> start + len \<le> length s \<and>
     name_element VALID_INITIAL_NAME_CHARACTER VALID_NAME_CHARACTER (str_range s start len)"
proof (cases "0 < len \<and> len \<le> length s - start")
  case True
  then obtain c cs where r: "str_range s start len = c # cs"
    by (auto elim: str_range_cases)
  with True show ?thesis
    by (auto simp: dbus_validate_member_def name_element_def validate_member_loop_iff
        dest: iface.initial_rest)
next
  case False
  then show ?thesis by (auto simp: dbus_validate_member_def name_element_def str_range_def)
qed

end
