(* ===== verification/Dbus_Types.thy ===== *)
theory Dbus_Types
  imports Dbus_Prelude
begin

text \<open>
  Type codes (src/dbus/dbus-protocol.h), their classification
  (src/dbus/dbus-signature.c), alignment and validity of a type code
  (src/dbus/dbus-marshal-basic.c), the scan over one complete type
  \<open>_dbus_type_signature_next\<close> (src/dbus/dbus-marshal-recursive.c) and the
  signature iterator (src/dbus/dbus-signature.c), with the tree of types that a
  signature denotes.
\<close>

section \<open>Type codes\<close>

abbreviation "DBUS_TYPE_INVALID \<equiv> (0 :: byte)"
abbreviation "DBUS_TYPE_BYTE \<equiv> (121 :: byte)"  \<comment> \<open>'y'\<close>
abbreviation "DBUS_TYPE_BOOLEAN \<equiv> (98 :: byte)"  \<comment> \<open>'b'\<close>
abbreviation "DBUS_TYPE_INT16 \<equiv> (110 :: byte)"  \<comment> \<open>'n'\<close>
abbreviation "DBUS_TYPE_UINT16 \<equiv> (113 :: byte)"  \<comment> \<open>'q'\<close>
abbreviation "DBUS_TYPE_INT32 \<equiv> (105 :: byte)"  \<comment> \<open>'i'\<close>
abbreviation "DBUS_TYPE_UINT32 \<equiv> (117 :: byte)"  \<comment> \<open>'u'\<close>
abbreviation "DBUS_TYPE_INT64 \<equiv> (120 :: byte)"  \<comment> \<open>'x'\<close>
abbreviation "DBUS_TYPE_UINT64 \<equiv> (116 :: byte)"  \<comment> \<open>'t'\<close>
abbreviation "DBUS_TYPE_DOUBLE \<equiv> (100 :: byte)"  \<comment> \<open>'d'\<close>
abbreviation "DBUS_TYPE_STRING \<equiv> (115 :: byte)"  \<comment> \<open>'s'\<close>
abbreviation "DBUS_TYPE_OBJECT_PATH \<equiv> (111 :: byte)"  \<comment> \<open>'o'\<close>
abbreviation "DBUS_TYPE_SIGNATURE \<equiv> (103 :: byte)"  \<comment> \<open>'g'\<close>
abbreviation "DBUS_TYPE_ARRAY \<equiv> (97 :: byte)"  \<comment> \<open>'a'\<close>
abbreviation "DBUS_TYPE_VARIANT \<equiv> (118 :: byte)"  \<comment> \<open>'v'\<close>
abbreviation "DBUS_TYPE_STRUCT \<equiv> (114 :: byte)"  \<comment> \<open>'r'\<close>
abbreviation "DBUS_TYPE_DICT_ENTRY \<equiv> (101 :: byte)"  \<comment> \<open>'e'\<close>
abbreviation "DBUS_STRUCT_BEGIN_CHAR \<equiv> (40 :: byte)"  \<comment> \<open>'('\<close>
abbreviation "DBUS_STRUCT_END_CHAR \<equiv> (41 :: byte)"  \<comment> \<open>')'\<close>
abbreviation "DBUS_DICT_ENTRY_BEGIN_CHAR \<equiv> (123 :: byte)"  \<comment> \<open>'{'\<close>
abbreviation "DBUS_DICT_ENTRY_END_CHAR \<equiv> (125 :: byte)"  \<comment> \<open>'}'\<close>

definition TYPE_IS_CONTAINER :: "byte \<Rightarrow> bool" where
  [char_defs]: "TYPE_IS_CONTAINER typecode \<longleftrightarrow>
     typecode = DBUS_TYPE_STRUCT \<or> typecode = DBUS_TYPE_DICT_ENTRY \<or>
     typecode = DBUS_TYPE_VARIANT \<or> typecode = DBUS_TYPE_ARRAY"

definition dbus_type_is_valid :: "byte \<Rightarrow> bool" where
  [char_defs]: "dbus_type_is_valid typecode \<longleftrightarrow> typecode \<in> set
     [DBUS_TYPE_BYTE, DBUS_TYPE_BOOLEAN, DBUS_TYPE_INT16, DBUS_TYPE_UINT16, DBUS_TYPE_INT32,
      DBUS_TYPE_UINT32, DBUS_TYPE_INT64, DBUS_TYPE_UINT64, DBUS_TYPE_DOUBLE, DBUS_TYPE_STRING,
      DBUS_TYPE_OBJECT_PATH, DBUS_TYPE_SIGNATURE, DBUS_TYPE_ARRAY, DBUS_TYPE_STRUCT,
      DBUS_TYPE_DICT_ENTRY, DBUS_TYPE_VARIANT]"

text \<open>The three public predicates return \<open>FALSE\<close> (after a warning) for a line-noise type code.\<close>

definition dbus_type_is_container :: "byte \<Rightarrow> bool" where
  [char_defs]: "dbus_type_is_container typecode =
     (if \<not> (dbus_type_is_valid typecode \<or> typecode = DBUS_TYPE_INVALID) then False
      else TYPE_IS_CONTAINER typecode)"

definition dbus_type_is_basic :: "byte \<Rightarrow> bool" where
  [char_defs]: "dbus_type_is_basic typecode =
     (if \<not> (dbus_type_is_valid typecode \<or> typecode = DBUS_TYPE_INVALID) then False
      else \<not> (typecode = DBUS_TYPE_INVALID \<or> TYPE_IS_CONTAINER typecode))"

definition dbus_type_is_fixed :: "byte \<Rightarrow> bool" where
  [char_defs]: "dbus_type_is_fixed typecode =
     (if \<not> (dbus_type_is_valid typecode \<or> typecode = DBUS_TYPE_INVALID) then False
      else typecode \<in> set
        [DBUS_TYPE_BYTE, DBUS_TYPE_BOOLEAN, DBUS_TYPE_INT16, DBUS_TYPE_UINT16, DBUS_TYPE_INT32,
         DBUS_TYPE_UINT32, DBUS_TYPE_INT64, DBUS_TYPE_UINT64, DBUS_TYPE_DOUBLE])"

text \<open>The default branch of the C switch asserts; with assertions compiled out it returns 0.\<close>

definition dbus_type_get_alignment :: "byte \<Rightarrow> nat" where
  [char_defs]: "dbus_type_get_alignment typecode =
     (if typecode \<in> set [DBUS_TYPE_BYTE, DBUS_TYPE_VARIANT, DBUS_TYPE_SIGNATURE] then 1
      else if typecode \<in> set [DBUS_TYPE_INT16, DBUS_TYPE_UINT16] then 2
      else if typecode \<in> set [DBUS_TYPE_BOOLEAN, DBUS_TYPE_INT32, DBUS_TYPE_UINT32,
        DBUS_TYPE_STRING, DBUS_TYPE_OBJECT_PATH, DBUS_TYPE_ARRAY] then 4
      else if typecode \<in> set [DBUS_TYPE_INT64, DBUS_TYPE_UINT64, DBUS_TYPE_DOUBLE,
        DBUS_TYPE_STRUCT, DBUS_TYPE_DICT_ENTRY] then 8
      else 0)"

definition map_type_char_to_type :: "byte \<Rightarrow> byte" where
  [char_defs]: "map_type_char_to_type t =
     (if t = DBUS_STRUCT_BEGIN_CHAR then DBUS_TYPE_STRUCT
      else if t = DBUS_DICT_ENTRY_BEGIN_CHAR then DBUS_TYPE_DICT_ENTRY
      else t)"

text \<open>
  A \<open>DBusString\<close> is followed by a nul byte, so reading the byte just behind its
  end gives \<open>'\0'\<close>; signatures rely on it as their terminator.
\<close>

definition dbus_string_get_byte :: "dbus_string \<Rightarrow> nat \<Rightarrow> byte" where
  [dbus_defs]: "dbus_string_get_byte s pos = (if pos < length s then s ! pos else 0)"

definition dbus_first_type_in_signature :: "dbus_string \<Rightarrow> nat \<Rightarrow> byte" where
  [dbus_defs]: "dbus_first_type_in_signature s pos = map_type_char_to_type (dbus_string_get_byte s pos)"

section \<open>Scanning one complete type\<close>

text \<open>
  The two inner loops of \<open>_dbus_type_signature_next\<close>: they walk over the bytes
  behind the open bracket, counting brackets of the same kind only, and stop one
  behind the bracket that brings \<open>depth\<close> to 0. The result is the number of bytes
  walked over; running off the end of the signature is an assertion failure in the
  C code, here \<open>None\<close>.
\<close>

fun skip_brackets :: "byte \<Rightarrow> byte \<Rightarrow> byte list \<Rightarrow> nat \<Rightarrow> nat option" where
  "skip_brackets ob cb [] depth = None"
| "skip_brackets ob cb (c # cs) depth =
     (if c = DBUS_TYPE_INVALID then None
      else if c = ob then map_option Suc (skip_brackets ob cb cs (depth + 1))
      else if c = cb then
        (if depth - 1 = 0 then Some 1
         else map_option Suc (skip_brackets ob cb cs (depth - 1)))
      else map_option Suc (skip_brackets ob cb cs depth))"

text \<open>The scan as a whole, on the signature from \<open>type_pos\<close> on; \<open>None\<close> is a failed assertion.\<close>

fun signature_next_len :: "byte list \<Rightarrow> nat option" where
  "signature_next_len [] = Some 1"
| "signature_next_len (c # cs) =
     (if c = DBUS_TYPE_ARRAY then map_option Suc (signature_next_len cs)
      else if c = DBUS_STRUCT_END_CHAR \<or> c = DBUS_DICT_ENTRY_END_CHAR then None
      else if c = DBUS_STRUCT_BEGIN_CHAR then
        map_option Suc (skip_brackets DBUS_STRUCT_BEGIN_CHAR DBUS_STRUCT_END_CHAR cs 1)
      else if c = DBUS_DICT_ENTRY_BEGIN_CHAR then
        map_option Suc (skip_brackets DBUS_DICT_ENTRY_BEGIN_CHAR DBUS_DICT_ENTRY_END_CHAR cs 1)
      else Some 1)"

definition dbus_type_signature_next :: "dbus_string \<Rightarrow> nat \<Rightarrow> nat option" where
  [dbus_defs]: "dbus_type_signature_next type_str type_pos =
     map_option (\<lambda>n. type_pos + n) (signature_next_len (drop type_pos type_str))"

section \<open>The tree of types a signature denotes\<close>

datatype ty =
    Basic byte
  | Variant
  | Array ty
  | Struct "ty list"
  | DictEntry ty ty

fun sig_of :: "ty \<Rightarrow> byte list" where
  "sig_of (Basic c) = [c]"
| "sig_of Variant = [DBUS_TYPE_VARIANT]"
| "sig_of (Array t) = DBUS_TYPE_ARRAY # sig_of t"
| "sig_of (Struct ts) = DBUS_STRUCT_BEGIN_CHAR # concat (map sig_of ts) @ [DBUS_STRUCT_END_CHAR]"
| "sig_of (DictEntry k v) =
     DBUS_DICT_ENTRY_BEGIN_CHAR # sig_of k @ sig_of v @ [DBUS_DICT_ENTRY_END_CHAR]"

abbreviation sigs_of :: "ty list \<Rightarrow> byte list" where
  "sigs_of ts \<equiv> concat (map sig_of ts)"

fun typecode :: "ty \<Rightarrow> byte" where
  "typecode (Basic c) = c"
| "typecode Variant = DBUS_TYPE_VARIANT"
| "typecode (Array t) = DBUS_TYPE_ARRAY"
| "typecode (Struct ts) = DBUS_TYPE_STRUCT"
| "typecode (DictEntry k v) = DBUS_TYPE_DICT_ENTRY"

text \<open>
  Well-formed types: a structure has a field, a dict entry stands directly inside an
  array only (\<open>wf_ty\<close> is the property of a complete type, \<open>wf_elem\<close> that of an array
  element) and its key passes the test \<open>key\<close>, which the D-Bus specification sets to
  "a basic type".
\<close>

fun wf_ty :: "(ty \<Rightarrow> bool) \<Rightarrow> ty \<Rightarrow> bool" and wf_elem :: "(ty \<Rightarrow> bool) \<Rightarrow> ty \<Rightarrow> bool" where
  "wf_ty key (Basic c) = dbus_type_is_basic c"
| "wf_ty key Variant = True"
| "wf_ty key (Array t) = wf_elem key t"
| "wf_ty key (Struct ts) = (ts \<noteq> [] \<and> (\<forall>t \<in> set ts. wf_ty key t))"
| "wf_ty key (DictEntry k v) = False"
| "wf_elem key (Basic c) = dbus_type_is_basic c"
| "wf_elem key Variant = True"
| "wf_elem key (Array t) = wf_elem key t"
| "wf_elem key (Struct ts) = (ts \<noteq> [] \<and> (\<forall>t \<in> set ts. wf_ty key t))"
| "wf_elem key (DictEntry k v) = (key k \<and> wf_ty key k \<and> wf_ty key v)"

fun is_basic_ty :: "ty \<Rightarrow> bool" where
  "is_basic_ty (Basic c) = True"
| "is_basic_ty _ = False"

text \<open>Every well-formed type is well-formed as an array element.\<close>

lemma wf_ty_imp_wf_elem: "wf_ty key t \<Longrightarrow> wf_elem key t"
  by (cases t) auto

lemma sig_of_not_Nil [simp]: "sig_of t \<noteq> []"
  by (cases t) auto

lemma basic_not_special:
  assumes "dbus_type_is_basic c"
  shows "c \<noteq> 0 \<and> c \<noteq> DBUS_TYPE_ARRAY \<and> c \<noteq> DBUS_TYPE_VARIANT \<and> c \<noteq> DBUS_STRUCT_BEGIN_CHAR \<and>
    c \<noteq> DBUS_STRUCT_END_CHAR \<and> c \<noteq> DBUS_DICT_ENTRY_BEGIN_CHAR \<and> c \<noteq> DBUS_DICT_ENTRY_END_CHAR"
  using assms by (auto simp: char_defs)

text \<open>
  The two kinds of brackets share the scan; what it needs of a kind is that no other
  byte of a signature is mistaken for one of its brackets.
\<close>

locale bracket_kind =
  fixes ob cb :: byte
  assumes kind: "(ob, cb) \<in>
    {(DBUS_STRUCT_BEGIN_CHAR, DBUS_STRUCT_END_CHAR),
     (DBUS_DICT_ENTRY_BEGIN_CHAR, DBUS_DICT_ENTRY_END_CHAR)}"
begin

lemma skip_one:
  assumes "\<And>rest d. skip_brackets ob cb (xs @ rest) (Suc d) =
      map_option ((+) (length xs)) (skip_brackets ob cb rest (Suc d))"
    and "(b, b') \<in> {(DBUS_STRUCT_BEGIN_CHAR, DBUS_STRUCT_END_CHAR),
      (DBUS_DICT_ENTRY_BEGIN_CHAR, DBUS_DICT_ENTRY_END_CHAR)}"
  shows "skip_brackets ob cb (b # xs @ b' # rest) (Suc d) =
      map_option ((+) (length xs + 2)) (skip_brackets ob cb rest (Suc d))"
  using kind assms by auto

lemma skip_concat:
  assumes "\<And>x rest d. x \<in> set xs \<Longrightarrow> skip_brackets ob cb (x @ rest) (Suc d) =
      map_option ((+) (length x)) (skip_brackets ob cb rest (Suc d))"
  shows "skip_brackets ob cb (concat xs @ rest) (Suc d) =
      map_option ((+) (length (concat xs))) (skip_brackets ob cb rest (Suc d))"
  using assms by (induction xs) auto

lemma skip_sig_of:
  "wf_elem key t \<Longrightarrow> skip_brackets ob cb (sig_of t @ rest) (Suc d) =
     map_option ((+) (length (sig_of t))) (skip_brackets ob cb rest (Suc d))"
proof (induction t arbitrary: rest d)
  case (Basic c)
  then have "dbus_type_is_basic c" by simp
  with kind show ?case by (auto dest: basic_not_special)
next
  case Variant
  with kind show ?case by auto
next
  case (Array t)
  with kind show ?case by (cases "skip_brackets ob cb rest (Suc d)") auto
next
  case (Struct ts)
  have "skip_brackets ob cb (sigs_of ts @ rest) (Suc d) =
      map_option ((+) (length (sigs_of ts))) (skip_brackets ob cb rest (Suc d))" for rest d
  proof (rule skip_concat)
    fix x rest d
    assume "x \<in> set (map sig_of ts)"
    with Struct show "skip_brackets ob cb (x @ rest) (Suc d) =
      map_option ((+) (length x)) (skip_brackets ob cb rest (Suc d))"
      by (auto simp: wf_ty_imp_wf_elem)
  qed
  from skip_one [OF this, of DBUS_STRUCT_BEGIN_CHAR DBUS_STRUCT_END_CHAR rest d]
  show ?case by (cases "skip_brackets ob cb rest (Suc d)") auto
next
  case (DictEntry k v)
  have "skip_brackets ob cb (sigs_of [k, v] @ rest) (Suc d) =
      map_option ((+) (length (sigs_of [k, v]))) (skip_brackets ob cb rest (Suc d))" for rest d
    by (rule skip_concat) (use DictEntry in \<open>auto dest: wf_ty_imp_wf_elem\<close>)
  from skip_one [OF this, of DBUS_DICT_ENTRY_BEGIN_CHAR DBUS_DICT_ENTRY_END_CHAR rest d]
  show ?case by (cases "skip_brackets ob cb rest (Suc d)") auto
qed

lemma skip_sigs_of:
  "\<forall>t \<in> set ts. wf_elem key t \<Longrightarrow> skip_brackets ob cb (sigs_of ts @ cb # rest) 1 =
     Some (length (sigs_of ts) + 1)"
proof -
  assume "\<forall>t \<in> set ts. wf_elem key t"
  then have "skip_brackets ob cb (sigs_of ts @ cb # rest) (Suc 0) =
      map_option ((+) (length (sigs_of ts)))
        (skip_brackets ob cb (cb # rest) (Suc 0))"
    by (intro skip_concat) (auto simp: skip_sig_of)
  with kind show ?thesis by auto
qed

end

interpretation struct_br: bracket_kind DBUS_STRUCT_BEGIN_CHAR DBUS_STRUCT_END_CHAR
  by unfold_locales simp

interpretation dict_br: bracket_kind DBUS_DICT_ENTRY_BEGIN_CHAR DBUS_DICT_ENTRY_END_CHAR
  by unfold_locales simp

lemma signature_next_len_sig_of:
  "wf_elem key t \<Longrightarrow> signature_next_len (sig_of t @ rest) = Some (length (sig_of t))"
proof (induction t arbitrary: rest)
  case (Basic c)
  then show ?case by (auto dest: basic_not_special)
next
  case (Struct ts)
  then have "\<forall>t \<in> set ts. wf_elem key t" by (auto dest: wf_ty_imp_wf_elem)
  from struct_br.skip_sigs_of [OF this, of rest] show ?case by simp
next
  case (DictEntry k v)
  then have "\<forall>t \<in> set [k, v]. wf_elem key t" by (auto dest: wf_ty_imp_wf_elem)
  from dict_br.skip_sigs_of [OF this, of rest] show ?case by simp
qed auto

end
