(* ===== verification/Dbus_Signature.thy ===== *)
theory Dbus_Signature
  imports Dbus_Types Dbus_Validity
begin

text \<open>
  The signature validator \<open>_dbus_validate_signature_with_reason\<close> of
  src/dbus/dbus-marshal-validate.c as a machine that reads one byte at a time, and
  the comparison of the strings it accepts with the grammar of types of
  \<open>Dbus_Types\<close>. Allocation of the element count stack is taken to succeed.
\<close>

section \<open>The validator\<close>

definition DBUS_MAXIMUM_SIGNATURE_LENGTH :: nat where
  [dbus_defs]: "DBUS_MAXIMUM_SIGNATURE_LENGTH = 255"

definition DBUS_MAXIMUM_TYPE_RECURSION_DEPTH :: nat where
  [dbus_defs]: "DBUS_MAXIMUM_TYPE_RECURSION_DEPTH = 32"

text \<open>
  The local variables of the loop. \<open>element_count_stack\<close> is the C list with its last
  element first; \<open>pop_last\<close> of the empty C list gives \<open>NULL\<close>, that is 0.
\<close>

record sig_state =
  sg_last :: byte
  struct_depth :: nat
  array_depth :: nat
  dict_entry_depth :: nat
  element_count_stack :: "nat list"

fun pop_last :: "nat list \<Rightarrow> nat \<times> nat list" where
  "pop_last [] = (0, [])"
| "pop_last (n # ns) = (n, ns)"

definition sig_init :: sig_state where
  "sig_init = \<lparr>sg_last = DBUS_TYPE_INVALID, struct_depth = 0, array_depth = 0,
     dict_entry_depth = 0, element_count_stack = [0]\<rparr>"

definition is_single_typecode :: "byte \<Rightarrow> bool" where
  [char_defs]: "is_single_typecode c \<longleftrightarrow> c \<in> set
     [DBUS_TYPE_BYTE, DBUS_TYPE_BOOLEAN, DBUS_TYPE_INT16, DBUS_TYPE_UINT16, DBUS_TYPE_INT32,
      DBUS_TYPE_UINT32, DBUS_TYPE_INT64, DBUS_TYPE_UINT64, DBUS_TYPE_DOUBLE, DBUS_TYPE_STRING,
      DBUS_TYPE_OBJECT_PATH, DBUS_TYPE_SIGNATURE, DBUS_TYPE_VARIANT]"

text \<open>The \<open>switch (*p)\<close> of the loop.\<close>

definition sig_switch :: "byte \<Rightarrow> sig_state \<Rightarrow> DBusValidity + sig_state" where
  "sig_switch c st =
     (if is_single_typecode c then Inr st
      else if c = DBUS_TYPE_ARRAY then
        (let st1 = st\<lparr>array_depth := array_depth st + 1\<rparr>
         in if array_depth st1 > DBUS_MAXIMUM_TYPE_RECURSION_DEPTH
            then Inl DBUS_INVALID_EXCEEDED_MAXIMUM_ARRAY_RECURSION else Inr st1)
      else if c = DBUS_STRUCT_BEGIN_CHAR then
        (let st1 = st\<lparr>struct_depth := struct_depth st + 1\<rparr>
         in if struct_depth st1 > DBUS_MAXIMUM_TYPE_RECURSION_DEPTH
            then Inl DBUS_INVALID_EXCEEDED_MAXIMUM_STRUCT_RECURSION
            else Inr (st1\<lparr>element_count_stack := 0 # element_count_stack st1\<rparr>))
      else if c = DBUS_STRUCT_END_CHAR then
        (if struct_depth st = 0 then Inl DBUS_INVALID_STRUCT_ENDED_BUT_NOT_STARTED
         else if sg_last st = DBUS_STRUCT_BEGIN_CHAR then Inl DBUS_INVALID_STRUCT_HAS_NO_FIELDS
         else Inr (st\<lparr>element_count_stack := snd (pop_last (element_count_stack st)),
                     struct_depth := struct_depth st - 1\<rparr>))
      else if c = DBUS_DICT_ENTRY_BEGIN_CHAR then
        (if sg_last st \<noteq> DBUS_TYPE_ARRAY then Inl DBUS_INVALID_DICT_ENTRY_NOT_INSIDE_ARRAY
         else let st1 = st\<lparr>dict_entry_depth := dict_entry_depth st + 1\<rparr>
         in if dict_entry_depth st1 > DBUS_MAXIMUM_TYPE_RECURSION_DEPTH
            then Inl DBUS_INVALID_EXCEEDED_MAXIMUM_DICT_ENTRY_RECURSION
            else Inr (st1\<lparr>element_count_stack := 0 # element_count_stack st1\<rparr>))
      else if c = DBUS_DICT_ENTRY_END_CHAR then
        (if dict_entry_depth st = 0 then Inl DBUS_INVALID_DICT_ENTRY_ENDED_BUT_NOT_STARTED
         else let (element_count, stack) = pop_last (element_count_stack st)
         in if element_count \<noteq> 2 then
              Inl (if element_count = 0 then DBUS_INVALID_DICT_ENTRY_HAS_NO_FIELDS
                   else if element_count = 1 then DBUS_INVALID_DICT_ENTRY_HAS_ONLY_ONE_FIELD
                   else DBUS_INVALID_DICT_ENTRY_HAS_TOO_MANY_FIELDS)
            else Inr (st\<lparr>dict_entry_depth := dict_entry_depth st - 1,
                        element_count_stack := stack\<rparr>))
      else Inl DBUS_INVALID_UNKNOWN_TYPECODE)"

text \<open>The increment of the element count behind the switch.\<close>

definition count_element :: "byte \<Rightarrow> sig_state \<Rightarrow> sig_state" where
  "count_element c st =
     (if c \<noteq> DBUS_TYPE_ARRAY \<and> c \<noteq> DBUS_DICT_ENTRY_BEGIN_CHAR \<and> c \<noteq> DBUS_STRUCT_BEGIN_CHAR then
        (let (element_count, stack) = pop_last (element_count_stack st)
         in st\<lparr>element_count_stack := (element_count + 1) # stack\<rparr>)
      else st)"

text \<open>
  One turn of the \<open>while\<close> loop at the byte \<open>c\<close>; \<open>p1\<close> is the byte behind it (at the
  end of the range, the byte that follows the range).
\<close>

definition sig_step :: "byte \<Rightarrow> byte \<Rightarrow> sig_state \<Rightarrow> DBusValidity + sig_state" where
  "sig_step c p1 st =
     (case sig_switch c st of
        Inl e \<Rightarrow> Inl e
      | Inr st1 \<Rightarrow>
          (let st2 = count_element c st1
           in if array_depth st2 > 0 \<and> c = DBUS_TYPE_ARRAY \<and>
                 (p1 = DBUS_STRUCT_END_CHAR \<or> p1 = DBUS_DICT_ENTRY_END_CHAR)
              then Inl DBUS_INVALID_MISSING_ARRAY_ELEMENT_TYPE
              else
                (let st3 = (if array_depth st2 > 0 \<and> c \<noteq> DBUS_TYPE_ARRAY
                            then st2\<lparr>array_depth := 0\<rparr> else st2)
                 in if sg_last st3 = DBUS_DICT_ENTRY_BEGIN_CHAR \<and>
                       dbus_type_is_valid c \<and> \<not> dbus_type_is_basic c
                    then Inl DBUS_INVALID_DICT_KEY_MUST_BE_BASIC_TYPE
                    else Inr (st3\<lparr>sg_last := c\<rparr>))))"

fun sig_loop :: "byte \<Rightarrow> byte list \<Rightarrow> sig_state \<Rightarrow> DBusValidity + sig_state" where
  "sig_loop following [] st = Inr st"
| "sig_loop following (c # cs) st =
     (case sig_step c (case cs of [] \<Rightarrow> following | d # _ \<Rightarrow> d) st of
        Inl e \<Rightarrow> Inl e
      | Inr st' \<Rightarrow> sig_loop following cs st')"

definition sig_finish :: "sig_state \<Rightarrow> DBusValidity" where
  "sig_finish st =
     (if array_depth st > 0 then DBUS_INVALID_MISSING_ARRAY_ELEMENT_TYPE
      else if struct_depth st > 0 then DBUS_INVALID_STRUCT_STARTED_BUT_NOT_ENDED
      else if dict_entry_depth st > 0 then DBUS_INVALID_DICT_ENTRY_STARTED_BUT_NOT_ENDED
      else DBUS_VALID)"

definition dbus_validate_signature_with_reason :: "dbus_string \<Rightarrow> nat \<Rightarrow> nat \<Rightarrow> DBusValidity" where
  "dbus_validate_signature_with_reason type_str type_pos len =
     (if len > DBUS_MAXIMUM_SIGNATURE_LENGTH then DBUS_INVALID_SIGNATURE_TOO_LONG
      else (case sig_loop (dbus_string_get_byte type_str (type_pos + len))
                    (str_range type_str type_pos len) sig_init of
              Inl e \<Rightarrow> e
            | Inr st \<Rightarrow> sig_finish st))"

definition dbus_validate_signature :: "dbus_string \<Rightarrow> nat \<Rightarrow> nat \<Rightarrow> bool" where
  "dbus_validate_signature s start len =
     (if len > length s - start then False
      else dbus_validate_signature_with_reason s start len = DBUS_VALID)"

section \<open>Nesting limits\<close>

text \<open>
  \<open>within s d a t\<close>: scanning the type \<open>t\<close> inside \<open>s\<close> structures and \<open>d\<close> dict entries and
  directly behind \<open>a\<close> array codes never exceeds the recursion limit.
\<close>

fun within :: "nat \<Rightarrow> nat \<Rightarrow> nat \<Rightarrow> ty \<Rightarrow> bool" where
  "within s d a (Basic c) = True"
| "within s d a Variant = True"
| "within s d a (Array t) = (a + 1 \<le> DBUS_MAXIMUM_TYPE_RECURSION_DEPTH \<and> within s d (a + 1) t)"
| "within s d a (Struct ts) =
     (s + 1 \<le> DBUS_MAXIMUM_TYPE_RECURSION_DEPTH \<and> (\<forall>t \<in> set ts. within (s + 1) d 0 t))"
| "within s d a (DictEntry k v) =
     (d + 1 \<le> DBUS_MAXIMUM_TYPE_RECURSION_DEPTH \<and> within s (d + 1) 0 k \<and> within s (d + 1) 0 v)"

text \<open>The keys that the code lets pass: basic types, but also structures.\<close>

fun basic_or_struct :: "ty \<Rightarrow> bool" where
  "basic_or_struct (Basic c) = True"
| "basic_or_struct (Struct ts) = True"
| "basic_or_struct _ = False"

lemma basic_is_basic_or_struct: "is_basic_ty k \<Longrightarrow> basic_or_struct k"
  by (cases k) auto

fun is_dict_entry :: "ty \<Rightarrow> bool" where
  "is_dict_entry (DictEntry k v) = True"
| "is_dict_entry _ = False"

lemma wf_ty_not_dict: "wf_ty key t \<Longrightarrow> \<not> is_dict_entry t"
  by (cases t) auto

section \<open>Every well-formed signature is accepted\<close>

lemma hd_sig_of:
  "wf_elem key t \<Longrightarrow> hd (sig_of t) \<noteq> DBUS_STRUCT_END_CHAR \<and> hd (sig_of t) \<noteq> DBUS_DICT_ENTRY_END_CHAR"
  by (cases t) (auto dest: basic_not_special)

lemma last_sig_of:
  "wf_elem key t \<Longrightarrow> last (sig_of t) \<noteq> DBUS_TYPE_ARRAY \<and>
     last (sig_of t) \<noteq> DBUS_STRUCT_BEGIN_CHAR \<and> last (sig_of t) \<noteq> DBUS_DICT_ENTRY_BEGIN_CHAR"
  by (induction t) (auto dest: basic_not_special)

lemma single_typecode_iff: "is_single_typecode c \<longleftrightarrow> dbus_type_is_basic c \<or> c = DBUS_TYPE_VARIANT"
  by (auto simp: char_defs)

lemma valid_typecode_iff:
  "dbus_type_is_valid c \<longleftrightarrow> dbus_type_is_basic c \<or> c = DBUS_TYPE_VARIANT \<or> c = DBUS_TYPE_ARRAY \<or>
     c = DBUS_TYPE_STRUCT \<or> c = DBUS_TYPE_DICT_ENTRY"
  by (auto simp: char_defs)

lemma containers_not_basic [simp]:
  "\<not> dbus_type_is_basic DBUS_TYPE_VARIANT" "\<not> dbus_type_is_basic DBUS_TYPE_ARRAY"
  "\<not> dbus_type_is_basic DBUS_STRUCT_BEGIN_CHAR" "\<not> dbus_type_is_basic DBUS_STRUCT_END_CHAR"
  "\<not> dbus_type_is_basic DBUS_DICT_ENTRY_BEGIN_CHAR" "\<not> dbus_type_is_basic DBUS_DICT_ENTRY_END_CHAR"
  by (simp_all add: char_defs)

text \<open>What one turn of the loop does, byte by byte.\<close>

lemma sig_step_single:
  assumes "dbus_type_is_basic c \<or> c = DBUS_TYPE_VARIANT"
  shows "sig_step c p1 \<lparr>sg_last = l, struct_depth = s, array_depth = a, dict_entry_depth = d,
      element_count_stack = n # stk\<rparr> =
    (if l = DBUS_DICT_ENTRY_BEGIN_CHAR \<and> \<not> dbus_type_is_basic c
     then Inl DBUS_INVALID_DICT_KEY_MUST_BE_BASIC_TYPE
     else Inr \<lparr>sg_last = c, struct_depth = s, array_depth = 0, dict_entry_depth = d,
       element_count_stack = (n + 1) # stk\<rparr>)"
  using assms
  by (auto simp: sig_step_def sig_switch_def count_element_def single_typecode_iff
      valid_typecode_iff Let_def dest: basic_not_special)

lemma sig_step_array:
  "sig_step DBUS_TYPE_ARRAY p1 \<lparr>sg_last = l, struct_depth = s, array_depth = a, dict_entry_depth = d,
      element_count_stack = stk\<rparr> =
    (if a + 1 > DBUS_MAXIMUM_TYPE_RECURSION_DEPTH
     then Inl DBUS_INVALID_EXCEEDED_MAXIMUM_ARRAY_RECURSION
     else if p1 = DBUS_STRUCT_END_CHAR \<or> p1 = DBUS_DICT_ENTRY_END_CHAR
     then Inl DBUS_INVALID_MISSING_ARRAY_ELEMENT_TYPE
     else if l = DBUS_DICT_ENTRY_BEGIN_CHAR then Inl DBUS_INVALID_DICT_KEY_MUST_BE_BASIC_TYPE
     else Inr \<lparr>sg_last = DBUS_TYPE_ARRAY, struct_depth = s, array_depth = a + 1,
       dict_entry_depth = d, element_count_stack = stk\<rparr>)"
  by (simp add: sig_step_def sig_switch_def count_element_def Let_def char_defs)

lemma sig_step_struct_begin:
  "sig_step DBUS_STRUCT_BEGIN_CHAR p1 \<lparr>sg_last = l, struct_depth = s, array_depth = a,
      dict_entry_depth = d, element_count_stack = stk\<rparr> =
    (if s + 1 > DBUS_MAXIMUM_TYPE_RECURSION_DEPTH
     then Inl DBUS_INVALID_EXCEEDED_MAXIMUM_STRUCT_RECURSION
     else Inr \<lparr>sg_last = DBUS_STRUCT_BEGIN_CHAR, struct_depth = s + 1, array_depth = 0,
       dict_entry_depth = d, element_count_stack = 0 # stk\<rparr>)"
  by (simp add: sig_step_def sig_switch_def count_element_def Let_def char_defs)

lemma sig_step_struct_end:
  "sig_step DBUS_STRUCT_END_CHAR p1 \<lparr>sg_last = l, struct_depth = s, array_depth = a,
      dict_entry_depth = d, element_count_stack = m # n # stk\<rparr> =
    (if s = 0 then Inl DBUS_INVALID_STRUCT_ENDED_BUT_NOT_STARTED
     else if l = DBUS_STRUCT_BEGIN_CHAR then Inl DBUS_INVALID_STRUCT_HAS_NO_FIELDS
     else Inr \<lparr>sg_last = DBUS_STRUCT_END_CHAR, struct_depth = s - 1, array_depth = 0,
       dict_entry_depth = d, element_count_stack = (n + 1) # stk\<rparr>)"
  by (simp add: sig_step_def sig_switch_def count_element_def Let_def char_defs)

lemma sig_step_dict_begin:
  "sig_step DBUS_DICT_ENTRY_BEGIN_CHAR p1 \<lparr>sg_last = l, struct_depth = s, array_depth = a,
      dict_entry_depth = d, element_count_stack = stk\<rparr> =
    (if l \<noteq> DBUS_TYPE_ARRAY then Inl DBUS_INVALID_DICT_ENTRY_NOT_INSIDE_ARRAY
     else if d + 1 > DBUS_MAXIMUM_TYPE_RECURSION_DEPTH
     then Inl DBUS_INVALID_EXCEEDED_MAXIMUM_DICT_ENTRY_RECURSION
     else Inr \<lparr>sg_last = DBUS_DICT_ENTRY_BEGIN_CHAR, struct_depth = s, array_depth = 0,
       dict_entry_depth = d + 1, element_count_stack = 0 # stk\<rparr>)"
  by (simp add: sig_step_def sig_switch_def count_element_def Let_def char_defs)

lemma sig_step_dict_end:
  "sig_step DBUS_DICT_ENTRY_END_CHAR p1 \<lparr>sg_last = l, struct_depth = s, array_depth = a,
      dict_entry_depth = d, element_count_stack = m # n # stk\<rparr> =
    (if d = 0 then Inl DBUS_INVALID_DICT_ENTRY_ENDED_BUT_NOT_STARTED
     else if m = 0 then Inl DBUS_INVALID_DICT_ENTRY_HAS_NO_FIELDS
     else if m = 1 then Inl DBUS_INVALID_DICT_ENTRY_HAS_ONLY_ONE_FIELD
     else if m > 2 then Inl DBUS_INVALID_DICT_ENTRY_HAS_TOO_MANY_FIELDS
     else Inr \<lparr>sg_last = DBUS_DICT_ENTRY_END_CHAR, struct_depth = s, array_depth = 0,
       dict_entry_depth = d - 1, element_count_stack = (n + 1) # stk\<rparr>)"
  by (simp add: sig_step_def sig_switch_def count_element_def Let_def char_defs)

lemma sig_step_other:
  "\<not> (dbus_type_is_basic c \<or> c = DBUS_TYPE_VARIANT) \<Longrightarrow> c \<noteq> DBUS_TYPE_ARRAY \<Longrightarrow>
   c \<noteq> DBUS_STRUCT_BEGIN_CHAR \<Longrightarrow> c \<noteq> DBUS_STRUCT_END_CHAR \<Longrightarrow>
   c \<noteq> DBUS_DICT_ENTRY_BEGIN_CHAR \<Longrightarrow> c \<noteq> DBUS_DICT_ENTRY_END_CHAR \<Longrightarrow>
   sig_step c p1 st = Inl DBUS_INVALID_UNKNOWN_TYPECODE"
  by (simp add: sig_step_def sig_switch_def single_typecode_iff)

lemmas sig_steps = sig_step_single sig_step_array sig_step_struct_begin sig_step_struct_end
  sig_step_dict_begin sig_step_dict_end

text \<open>The loop over the signature of one type, from any state in which the type may start.\<close>

definition may_start :: "byte \<Rightarrow> ty \<Rightarrow> bool" where
  "may_start l t \<longleftrightarrow>
     (l = DBUS_DICT_ENTRY_BEGIN_CHAR \<longrightarrow> basic_or_struct t) \<and> (is_dict_entry t \<longrightarrow> l = DBUS_TYPE_ARRAY)"

lemma sig_loop_types:
  assumes "\<And>t l n rest. t \<in> set ts \<Longrightarrow> may_start l t \<Longrightarrow>
      sig_loop f (sig_of t @ rest) \<lparr>sg_last = l, struct_depth = s, array_depth = 0,
        dict_entry_depth = d, element_count_stack = n # stk\<rparr> =
      sig_loop f rest \<lparr>sg_last = last (sig_of t), struct_depth = s, array_depth = 0,
        dict_entry_depth = d, element_count_stack = (n + 1) # stk\<rparr>"
    and "\<forall>t \<in> set ts. wf_ty key t" and "ts \<noteq> []" and "may_start l (hd ts)"
  shows "sig_loop f (sigs_of ts @ rest) \<lparr>sg_last = l, struct_depth = s, array_depth = 0,
        dict_entry_depth = d, element_count_stack = n # stk\<rparr> =
      sig_loop f rest \<lparr>sg_last = last (sig_of (last ts)), struct_depth = s, array_depth = 0,
        dict_entry_depth = d, element_count_stack = (n + length ts) # stk\<rparr>"
  using assms
proof (induction ts arbitrary: l n)
  case Nil
  then show ?case by simp
next
  case (Cons t ts)
  have 1: "sig_loop f (sig_of t @ sigs_of ts @ rest) \<lparr>sg_last = l, struct_depth = s,
        array_depth = 0, dict_entry_depth = d, element_count_stack = n # stk\<rparr> =
      sig_loop f (sigs_of ts @ rest) \<lparr>sg_last = last (sig_of t), struct_depth = s, array_depth = 0,
        dict_entry_depth = d, element_count_stack = (n + 1) # stk\<rparr>"
    using Cons.prems by simp
  show ?case
  proof (cases ts)
    case Nil
    with 1 show ?thesis by simp
  next
    case (Cons u us)
    have "wf_elem key t" and "\<not> is_dict_entry u"
      using Cons.prems(2) Cons by (auto dest: wf_ty_imp_wf_elem wf_ty_not_dict)
    then have "may_start (last (sig_of t)) (hd ts)"
      using Cons by (auto simp: may_start_def dest: last_sig_of)
    then have "sig_loop f (sigs_of ts @ rest) \<lparr>sg_last = last (sig_of t), struct_depth = s,
        array_depth = 0, dict_entry_depth = d, element_count_stack = (n + 1) # stk\<rparr> =
      sig_loop f rest \<lparr>sg_last = last (sig_of (last ts)), struct_depth = s, array_depth = 0,
        dict_entry_depth = d, element_count_stack = (n + 1 + length ts) # stk\<rparr>"
      using Cons.prems Cons by (intro Cons.IH) auto
    with 1 Cons show ?thesis by simp
  qed
qed

lemma sig_loop_sig_of:
  assumes key: "\<And>k. key k \<Longrightarrow> basic_or_struct k"
  shows "wf_elem key t \<Longrightarrow> within s d a t \<Longrightarrow> may_start l t \<Longrightarrow>
    sig_loop f (sig_of t @ rest) \<lparr>sg_last = l, struct_depth = s, array_depth = a,
        dict_entry_depth = d, element_count_stack = n # stk\<rparr> =
    sig_loop f rest \<lparr>sg_last = last (sig_of t), struct_depth = s, array_depth = 0,
        dict_entry_depth = d, element_count_stack = (n + 1) # stk\<rparr>"
proof (induction t arbitrary: s d a l n stk rest)
  case (Basic c)
  then show ?case by (simp add: sig_step_single)
next
  case Variant
  then show ?case by (simp add: sig_step_single may_start_def)
next
  case (Array t)
  obtain x xs where x: "sig_of t = x # xs" by (cases "sig_of t") auto
  have "x \<noteq> DBUS_STRUCT_END_CHAR" "x \<noteq> DBUS_DICT_ENTRY_END_CHAR"
    using hd_sig_of [of key t] Array.prems(1) x by auto
  moreover have "may_start DBUS_TYPE_ARRAY t" by (simp add: may_start_def)
  ultimately show ?case
    using Array.IH [of s d "a + 1" DBUS_TYPE_ARRAY rest n stk] Array.prems x
    by (simp add: sig_step_array may_start_def)
next
  case (Struct ts)
  have wf: "\<forall>t \<in> set ts. wf_ty key t" and ne: "ts \<noteq> []" using Struct.prems by auto
  have "may_start DBUS_STRUCT_BEGIN_CHAR (hd ts)"
    using wf ne wf_ty_not_dict [of key "hd ts"] by (simp add: may_start_def)
  then have "sig_loop f (sigs_of ts @ DBUS_STRUCT_END_CHAR # rest) \<lparr>sg_last = DBUS_STRUCT_BEGIN_CHAR,
        struct_depth = s + 1, array_depth = 0, dict_entry_depth = d,
        element_count_stack = 0 # n # stk\<rparr> =
      sig_loop f (DBUS_STRUCT_END_CHAR # rest) \<lparr>sg_last = last (sig_of (last ts)),
        struct_depth = s + 1, array_depth = 0, dict_entry_depth = d,
        element_count_stack = (0 + length ts) # n # stk\<rparr>"
    using Struct wf ne by (intro sig_loop_types [where key = key]) (auto simp: wf_ty_imp_wf_elem)
  moreover have "last (sig_of (last ts)) \<noteq> DBUS_STRUCT_BEGIN_CHAR"
    using wf ne last_sig_of [of key "last ts"] by (simp add: wf_ty_imp_wf_elem)
  ultimately show ?case
    using Struct.prems by (simp add: sig_step_struct_begin sig_step_struct_end)
next
  case (DictEntry k v)
  have wf: "\<forall>t \<in> set [k, v]. wf_ty key t" and "key k" using DictEntry.prems by auto
  have "may_start DBUS_DICT_ENTRY_BEGIN_CHAR (hd [k, v])"
    using key [OF \<open>key k\<close>] wf wf_ty_not_dict [of key k] by (simp add: may_start_def)
  then have "sig_loop f (sigs_of [k, v] @ DBUS_DICT_ENTRY_END_CHAR # rest)
        \<lparr>sg_last = DBUS_DICT_ENTRY_BEGIN_CHAR, struct_depth = s, array_depth = 0,
        dict_entry_depth = d + 1, element_count_stack = 0 # n # stk\<rparr> =
      sig_loop f (DBUS_DICT_ENTRY_END_CHAR # rest) \<lparr>sg_last = last (sig_of (last [k, v])),
        struct_depth = s, array_depth = 0, dict_entry_depth = d + 1,
        element_count_stack = (0 + length [k, v]) # n # stk\<rparr>"
    using DictEntry wf by (intro sig_loop_types [where key = key]) (auto simp: wf_ty_imp_wf_elem)
  then show ?case
    using DictEntry.prems by (simp add: sig_step_dict_begin sig_step_dict_end may_start_def)
qed

definition well_formed_signature :: "(ty \<Rightarrow> bool) \<Rightarrow> ty list \<Rightarrow> bool" where
  "well_formed_signature key ts \<longleftrightarrow>
     (\<forall>t \<in> set ts. wf_ty key t \<and> within 0 0 0 t) \<and>
     length (sigs_of ts) \<le> DBUS_MAXIMUM_SIGNATURE_LENGTH"

lemma sig_loop_well_formed:
  assumes "well_formed_signature key ts" and "\<And>k. key k \<Longrightarrow> basic_or_struct k"
  shows "\<exists>l n. sig_loop f (sigs_of ts) sig_init =
    Inr \<lparr>sg_last = l, struct_depth = 0, array_depth = 0, dict_entry_depth = 0,
         element_count_stack = n\<rparr>"
proof (cases "ts = []")
  case True
  then show ?thesis by (simp add: sig_init_def)
next
  case False
  have wf: "\<forall>t \<in> set ts. wf_ty key t" and lim: "\<forall>t \<in> set ts. within 0 0 0 t"
    using assms(1) by (auto simp: well_formed_signature_def)
  have "sig_loop f (sigs_of ts @ []) \<lparr>sg_last = DBUS_TYPE_INVALID, struct_depth = 0, array_depth = 0,
        dict_entry_depth = 0, element_count_stack = 0 # []\<rparr> =
      sig_loop f [] \<lparr>sg_last = last (sig_of (last ts)), struct_depth = 0, array_depth = 0,
        dict_entry_depth = 0, element_count_stack = (0 + length ts) # []\<rparr>"
  proof (rule sig_loop_types [where key = key])
    show "may_start DBUS_TYPE_INVALID (hd ts)"
      using wf False wf_ty_not_dict [of key "hd ts"] by (simp add: may_start_def)
  qed (use wf lim False sig_loop_sig_of [OF assms(2)] in \<open>auto simp: wf_ty_imp_wf_elem\<close>)
  then show ?thesis by (simp add: sig_init_def)
qed

section \<open>What an accepted signature is\<close>

text \<open>
  The validator counts structures and dict entries separately, so it does not notice
  brackets that close in the wrong order. \<open>brackets_match\<close> is the missing test: it
  keeps the stack of open brackets.
\<close>

fun brackets_match :: "byte list \<Rightarrow> byte list \<Rightarrow> bool" where
  "brackets_match [] opened = (opened = [])"
| "brackets_match (c # cs) opened =
     (if c = DBUS_STRUCT_BEGIN_CHAR \<or> c = DBUS_DICT_ENTRY_BEGIN_CHAR then brackets_match cs (c # opened)
      else if c = DBUS_STRUCT_END_CHAR then
        opened \<noteq> [] \<and> hd opened = DBUS_STRUCT_BEGIN_CHAR \<and> brackets_match cs (tl opened)
      else if c = DBUS_DICT_ENTRY_END_CHAR then
        opened \<noteq> [] \<and> hd opened = DBUS_DICT_ENTRY_BEGIN_CHAR \<and> brackets_match cs (tl opened)
      else brackets_match cs opened)"

text \<open>
  The partial parse that the loop has made: one frame per open bracket, innermost
  first and the top level last, each with its opening byte (0 at the top level), the
  complete types read in it, and the number of array codes that wait for their element.
\<close>

type_synonym frame = "byte \<times> ty list \<times> nat"

abbreviation "fr_kind (f :: frame) \<equiv> fst f"
abbreviation "fr_types (f :: frame) \<equiv> fst (snd f)"
abbreviation "fr_arrays (f :: frame) \<equiv> snd (snd f)"

fun wrap :: "nat \<Rightarrow> ty \<Rightarrow> ty" where
  "wrap 0 t = t"
| "wrap (Suc n) t = Array (wrap n t)"

lemma sig_of_wrap: "sig_of (wrap n t) = replicate n DBUS_TYPE_ARRAY @ sig_of t"
  by (induction n) auto

lemma wf_elem_wrap: "wf_elem key (wrap n t) = wf_elem key t"
  by (induction n) auto

lemma wf_ty_wrap: "wf_ty key (wrap n t) \<longleftrightarrow> (if n = 0 then wf_ty key t else wf_elem key t)"
  by (cases n) (auto simp: wf_elem_wrap)

lemma within_wrap:
  "within s d a (wrap n t) \<longleftrightarrow>
     (n = 0 \<or> a + n \<le> DBUS_MAXIMUM_TYPE_RECURSION_DEPTH) \<and> within s d (a + n) t"
  by (induction n arbitrary: a) auto

fun render :: "frame list \<Rightarrow> byte list" where
  "render [] = []"
| "render ((b, ts, n) # fs) =
     render fs @ (if b = 0 then [] else [b]) @ sigs_of ts @ replicate n DBUS_TYPE_ARRAY"

definition kinds :: "frame list \<Rightarrow> byte list" where
  "kinds fs = map fr_kind fs"

abbreviation depth_of :: "byte \<Rightarrow> frame list \<Rightarrow> nat" where
  "depth_of b fs \<equiv> count_list (kinds fs) b"

fun frames_ok :: "frame list \<Rightarrow> bool" where
  "frames_ok [] = False"
| "frames_ok ((b, ts, n) # fs) =
     ((if fs = [] then b = 0
       else frames_ok fs \<and> (b = DBUS_STRUCT_BEGIN_CHAR \<or>
         b = DBUS_DICT_ENTRY_BEGIN_CHAR \<and> fr_arrays (hd fs) > 0 \<and>
           (if ts = [] then n = 0 else basic_or_struct (hd ts)))) \<and>
      n \<le> DBUS_MAXIMUM_TYPE_RECURSION_DEPTH \<and>
      depth_of DBUS_STRUCT_BEGIN_CHAR ((b, ts, n) # fs) \<le> DBUS_MAXIMUM_TYPE_RECURSION_DEPTH \<and>
      depth_of DBUS_DICT_ENTRY_BEGIN_CHAR ((b, ts, n) # fs) \<le> DBUS_MAXIMUM_TYPE_RECURSION_DEPTH \<and>
      (\<forall>t \<in> set ts. wf_ty basic_or_struct t \<and>
         within (depth_of DBUS_STRUCT_BEGIN_CHAR ((b, ts, n) # fs))
           (depth_of DBUS_DICT_ENTRY_BEGIN_CHAR ((b, ts, n) # fs)) 0 t))"

text \<open>How the validator's variables follow from the partial parse.\<close>

fun last_byte :: "frame \<Rightarrow> byte" where
  "last_byte (b, ts, n) =
     (if n > 0 then DBUS_TYPE_ARRAY else if ts \<noteq> [] then last (sig_of (last ts)) else b)"

definition state_of :: "frame list \<Rightarrow> sig_state" where
  "state_of fs = \<lparr>sg_last = last_byte (hd fs),
     struct_depth = depth_of DBUS_STRUCT_BEGIN_CHAR fs,
     array_depth = fr_arrays (hd fs),
     dict_entry_depth = depth_of DBUS_DICT_ENTRY_BEGIN_CHAR fs,
     element_count_stack = map (\<lambda>f. length (fr_types f)) fs\<rparr>"

definition opened :: "frame list \<Rightarrow> byte list" where
  "opened fs = butlast (kinds fs)"

text \<open>Adding a complete type to the innermost frame, under the arrays that wait for it.\<close>

fun add_type :: "ty \<Rightarrow> frame list \<Rightarrow> frame list" where
  "add_type t [] = []"
| "add_type t ((b, ts, n) # fs) = (b, ts @ [wrap n t], 0) # fs"

lemma kinds_add_type [simp]: "kinds (add_type t fs) = kinds fs"
  by (cases fs) (auto simp: kinds_def)

lemma render_add_type: "fs \<noteq> [] \<Longrightarrow> render (add_type t fs) = render fs @ sig_of t"
  by (cases fs) (auto simp: sig_of_wrap)

lemma opened_add_type [simp]: "opened (add_type t fs) = opened fs"
  by (simp add: opened_def)

lemma fr_arrays_add_type [simp]: "fs \<noteq> [] \<Longrightarrow> fr_arrays (hd (add_type t fs)) = 0"
  by (cases fs) auto

lemma opened_Cons: "fs \<noteq> [] \<Longrightarrow> opened (f # fs) = fr_kind f # opened fs"
  by (simp add: opened_def kinds_def)

lemma frames_ok_add_type:
  assumes "frames_ok ((b, ts, n) # fs)"
    and "if n = 0 then wf_ty basic_or_struct t else wf_elem basic_or_struct t"
    and "within (depth_of DBUS_STRUCT_BEGIN_CHAR ((b, ts, n) # fs))
           (depth_of DBUS_DICT_ENTRY_BEGIN_CHAR ((b, ts, n) # fs)) n t"
    and "b = DBUS_DICT_ENTRY_BEGIN_CHAR \<Longrightarrow> ts = [] \<Longrightarrow> basic_or_struct t"
  shows "frames_ok (add_type t ((b, ts, n) # fs))"
  using assms by (auto simp: wf_ty_wrap within_wrap kinds_def hd_append split: if_splits)

definition parse_step :: "frame list \<Rightarrow> byte \<Rightarrow> byte \<Rightarrow> byte list \<Rightarrow> sig_state \<Rightarrow> frame list \<Rightarrow> bool" where
  "parse_step fs c p1 cs st' fs' \<longleftrightarrow> frames_ok fs' \<and> st' = state_of fs' \<and>
     render fs' = render fs @ [c] \<and> brackets_match cs (opened fs') \<and>
     (fr_arrays (hd fs') > 0 \<longrightarrow> p1 \<noteq> DBUS_STRUCT_END_CHAR \<and> p1 \<noteq> DBUS_DICT_ENTRY_END_CHAR)"

lemma last_byte_dict_begin:
  "frames_ok ((b, ts, n) # fs) \<Longrightarrow> b = DBUS_DICT_ENTRY_BEGIN_CHAR \<Longrightarrow> ts = [] \<Longrightarrow>
   last_byte (b, ts, n) = DBUS_DICT_ENTRY_BEGIN_CHAR"
  by (auto split: if_splits)

lemma step_single:
  assumes ok: "frames_ok ((b, ts, n) # fs)"
    and c: "dbus_type_is_basic c \<or> c = DBUS_TYPE_VARIANT"
    and br: "brackets_match (c # cs) (opened ((b, ts, n) # fs))"
    and st: "sig_step c p1 (state_of ((b, ts, n) # fs)) = Inr st'"
  shows "\<exists>fs'. parse_step ((b, ts, n) # fs) c p1 cs st' fs'"
proof -
  define t where "t = (if c = DBUS_TYPE_VARIANT then Variant else Basic c)"
  have sig: "sig_of t = [c]" by (simp add: t_def)
  have "last_byte (b, ts, n) = DBUS_DICT_ENTRY_BEGIN_CHAR \<longrightarrow> dbus_type_is_basic c"
    and st': "st' = state_of (add_type t ((b, ts, n) # fs))"
    using st sig by (auto simp: state_of_def sig_step_single [OF c] sig_of_wrap kinds_def
        split: if_splits)
  then have "frames_ok (add_type t ((b, ts, n) # fs))"
    using c last_byte_dict_begin [OF ok] by (intro frames_ok_add_type ok) (auto simp: t_def)
  moreover have "brackets_match cs (opened ((b, ts, n) # fs))"
    using br c by (auto dest: basic_not_special)
  ultimately show ?thesis
    using st' sig render_add_type [of "(b, ts, n) # fs" t]
    by (intro exI [of _ "add_type t ((b, ts, n) # fs)"])
      (simp add: parse_step_def del: add_type.simps frames_ok.simps)
qed

lemma step_array:
  assumes ok: "frames_ok ((b, ts, n) # fs)"
    and br: "brackets_match (DBUS_TYPE_ARRAY # cs) (opened ((b, ts, n) # fs))"
    and st: "sig_step DBUS_TYPE_ARRAY p1 (state_of ((b, ts, n) # fs)) = Inr st'"
  shows "\<exists>fs'. parse_step ((b, ts, n) # fs) DBUS_TYPE_ARRAY p1 cs st' fs'"
proof -
  have "last_byte (b, ts, n) \<noteq> DBUS_DICT_ENTRY_BEGIN_CHAR"
    and "n + 1 \<le> DBUS_MAXIMUM_TYPE_RECURSION_DEPTH"
    and "p1 \<noteq> DBUS_STRUCT_END_CHAR" "p1 \<noteq> DBUS_DICT_ENTRY_END_CHAR"
    and "st' = state_of ((b, ts, n + 1) # fs)"
    using st by (auto simp: state_of_def sig_step_array kinds_def split: if_splits)
  moreover from this ok have "frames_ok ((b, ts, n + 1) # fs)"
    by (auto simp: kinds_def split: if_splits)
  moreover have "opened ((b, ts, n + 1) # fs) = opened ((b, ts, n) # fs)"
    by (simp add: opened_def kinds_def)
  ultimately show ?thesis
    using br by (intro exI [of _ "(b, ts, n + 1) # fs"])
      (auto simp: parse_step_def replicate_append_same)
qed

lemma step_open:
  assumes ok: "frames_ok fs" and c: "c = DBUS_STRUCT_BEGIN_CHAR \<or> c = DBUS_DICT_ENTRY_BEGIN_CHAR"
    and br: "brackets_match (c # cs) (opened fs)"
    and st: "sig_step c p1 (state_of fs) = Inr st'"
  shows "\<exists>fs'. parse_step fs c p1 cs st' fs'"
proof -
  obtain b ts n fs1 where fs: "fs = (b, ts, n) # fs1"
    using ok by (cases fs) auto
  have "st' = state_of ((c, [], 0) # fs)" and "c = DBUS_DICT_ENTRY_BEGIN_CHAR \<longrightarrow> n > 0"
    and "depth_of DBUS_STRUCT_BEGIN_CHAR ((c, [], 0) # fs) \<le> DBUS_MAXIMUM_TYPE_RECURSION_DEPTH"
    and "depth_of DBUS_DICT_ENTRY_BEGIN_CHAR ((c, [], 0) # fs) \<le> DBUS_MAXIMUM_TYPE_RECURSION_DEPTH"
    using st c ok fs last_sig_of [of basic_or_struct "last ts"]
    by (auto simp: state_of_def sig_step_struct_begin sig_step_dict_begin kinds_def wf_ty_imp_wf_elem
        split: if_splits)
  with ok c br fs show ?thesis
    by (intro exI [of _ "(c, [], 0) # fs"]) (auto simp: parse_step_def opened_Cons)
qed

lemma state_of_frame:
  "state_of ((b, ts, n) # fs) = \<lparr>sg_last = last_byte (b, ts, n),
     struct_depth = (if b = DBUS_STRUCT_BEGIN_CHAR then 1 else 0) + depth_of DBUS_STRUCT_BEGIN_CHAR fs,
     array_depth = n,
     dict_entry_depth = (if b = DBUS_DICT_ENTRY_BEGIN_CHAR then 1 else 0) +
       depth_of DBUS_DICT_ENTRY_BEGIN_CHAR fs,
     element_count_stack = length ts # map (\<lambda>f. length (fr_types f)) fs\<rparr>"
  by (simp add: state_of_def kinds_def)

lemma step_close:
  assumes ok: "frames_ok ((b, ts, 0) # fs)" and ne: "fs \<noteq> []"
    and u: "if b = DBUS_STRUCT_BEGIN_CHAR then ts \<noteq> [] \<and> u = Struct ts
            else \<exists>k v. ts = [k, v] \<and> u = DictEntry k v"
    and c: "c = (if b = DBUS_STRUCT_BEGIN_CHAR then DBUS_STRUCT_END_CHAR else DBUS_DICT_ENTRY_END_CHAR)"
    and br: "brackets_match (c # cs) (opened ((b, ts, 0) # fs))"
    and st': "st' = state_of (add_type u fs)"
  shows "parse_step ((b, ts, 0) # fs) c p1 cs st' (add_type u fs)"
proof -
  obtain b' ts' n' gs where fs: "fs = (b', ts', n') # gs"
    using ne by (cases fs) auto
  have b: "b = DBUS_STRUCT_BEGIN_CHAR \<or> b = DBUS_DICT_ENTRY_BEGIN_CHAR \<and> n' > 0"
    using ok fs by auto
  have "frames_ok (add_type u fs)"
    unfolding fs
  proof (rule frames_ok_add_type)
    show "if n' = 0 then wf_ty basic_or_struct u else wf_elem basic_or_struct u"
      using ok u b fs by auto
    show "within (depth_of DBUS_STRUCT_BEGIN_CHAR ((b', ts', n') # gs))
      (depth_of DBUS_DICT_ENTRY_BEGIN_CHAR ((b', ts', n') # gs)) n' u"
      using ok u b fs by (auto simp: kinds_def)
    show "b' = DBUS_DICT_ENTRY_BEGIN_CHAR \<Longrightarrow> ts' = [] \<Longrightarrow> basic_or_struct u"
      using ok u b fs by (auto split: if_splits)
  qed (use ok fs in auto)
  moreover have "render (add_type u fs) = render ((b, ts, 0) # fs) @ [c]"
    using u c b ne by (auto simp: render_add_type)
  moreover have "brackets_match cs (opened fs)"
    using br b c ne by (auto simp: opened_Cons)
  ultimately show ?thesis
    using st' ne by (simp add: parse_step_def)
qed

lemma state_of_add_type:
  "last (sig_of u) = c \<Longrightarrow> fs = (b, ts, n) # gs \<Longrightarrow>
   state_of (add_type u fs) = \<lparr>sg_last = c, struct_depth = depth_of DBUS_STRUCT_BEGIN_CHAR fs,
     array_depth = 0, dict_entry_depth = depth_of DBUS_DICT_ENTRY_BEGIN_CHAR fs,
     element_count_stack = (length ts + 1) # map (\<lambda>f. length (fr_types f)) gs\<rparr>"
  by (simp add: state_of_def sig_of_wrap kinds_def)

lemma step_struct_end:
  assumes ok: "frames_ok ((b, ts, 0) # fs)"
    and br: "brackets_match (DBUS_STRUCT_END_CHAR # cs) (opened ((b, ts, 0) # fs))"
    and st: "sig_step DBUS_STRUCT_END_CHAR p1 (state_of ((b, ts, 0) # fs)) = Inr st'"
  shows "\<exists>fs'. parse_step ((b, ts, 0) # fs) DBUS_STRUCT_END_CHAR p1 cs st' fs'"
proof -
  have ne: "fs \<noteq> []" using br by (auto simp: opened_def kinds_def)
  then obtain b' ts' n' gs where fs: "fs = (b', ts', n') # gs" by (cases fs) auto
  have b: "b = DBUS_STRUCT_BEGIN_CHAR" using br ne by (simp add: opened_Cons)
  have st': "ts \<noteq> [] \<and> st' = state_of (add_type (Struct ts) fs)"
    using st b unfolding state_of_frame state_of_add_type [OF _ fs, of "Struct ts" DBUS_STRUCT_END_CHAR, simplified]
    by (auto simp: fs sig_step_struct_end split: if_splits)
  have "parse_step ((b, ts, 0) # fs) DBUS_STRUCT_END_CHAR p1 cs st' (add_type (Struct ts) fs)"
    using ok ne br b st' by (intro step_close) auto
  then show ?thesis by blast
qed

lemma step_dict_end:
  assumes ok: "frames_ok ((b, ts, 0) # fs)"
    and br: "brackets_match (DBUS_DICT_ENTRY_END_CHAR # cs) (opened ((b, ts, 0) # fs))"
    and st: "sig_step DBUS_DICT_ENTRY_END_CHAR p1 (state_of ((b, ts, 0) # fs)) = Inr st'"
  shows "\<exists>fs'. parse_step ((b, ts, 0) # fs) DBUS_DICT_ENTRY_END_CHAR p1 cs st' fs'"
proof -
  have ne: "fs \<noteq> []" using br by (auto simp: opened_def kinds_def)
  then obtain b' ts' n' gs where fs: "fs = (b', ts', n') # gs" by (cases fs) auto
  have b: "b = DBUS_DICT_ENTRY_BEGIN_CHAR" using br ne by (simp add: opened_Cons)
  have len: "length ts = 2"
    using st unfolding state_of_frame
    by (cases "length ts"; cases "length ts - 1") (auto simp: fs sig_step_dict_end split: if_splits)
  then obtain k v where ts: "ts = [k, v]"
    by (cases ts; cases "tl ts") auto
  have st': "st' = state_of (add_type (DictEntry k v) fs)"
    using st b ts unfolding state_of_frame
      state_of_add_type [OF _ fs, of "DictEntry k v" DBUS_DICT_ENTRY_END_CHAR, simplified]
    by (auto simp: fs sig_step_dict_end split: if_splits)
  have "parse_step ((b, ts, 0) # fs) DBUS_DICT_ENTRY_END_CHAR p1 cs st' (add_type (DictEntry k v) fs)"
    using ok ne br b ts st' by (intro step_close) auto
  then show ?thesis by blast
qed

lemma step_sound:
  assumes ok: "frames_ok fs" and br: "brackets_match (c # cs) (opened fs)"
    and arr: "fr_arrays (hd fs) > 0 \<longrightarrow> c \<noteq> DBUS_STRUCT_END_CHAR \<and> c \<noteq> DBUS_DICT_ENTRY_END_CHAR"
    and st: "sig_step c p1 (state_of fs) = Inr st'"
  shows "\<exists>fs'. parse_step fs c p1 cs st' fs'"
proof -
  obtain b ts n gs where fs: "fs = (b, ts, n) # gs" using ok by (cases fs) auto
  consider "dbus_type_is_basic c \<or> c = DBUS_TYPE_VARIANT" | "c = DBUS_TYPE_ARRAY"
    | "c = DBUS_STRUCT_BEGIN_CHAR \<or> c = DBUS_DICT_ENTRY_BEGIN_CHAR"
    | "c = DBUS_STRUCT_END_CHAR" | "c = DBUS_DICT_ENTRY_END_CHAR"
    using st sig_step_other [of c p1 "state_of fs"] by fastforce
  then show ?thesis
  proof cases
    case 1
    then show ?thesis using step_single ok br st fs by blast
  next
    case 2
    then show ?thesis using step_array ok br st fs by blast
  next
    case 3
    then show ?thesis using step_open ok br st fs by blast
  next
    case 4
    with arr fs have "n = 0" by simp
    with 4 show ?thesis using step_struct_end ok br st fs by blast
  next
    case 5
    with arr fs have "n = 0" by simp
    with 5 show ?thesis using step_dict_end ok br st fs by blast
  qed
qed

lemma loop_sound:
  "frames_ok fs \<Longrightarrow> brackets_match cs (opened fs) \<Longrightarrow>
   (fr_arrays (hd fs) > 0 \<longrightarrow> cs \<noteq> [] \<longrightarrow>
      hd cs \<noteq> DBUS_STRUCT_END_CHAR \<and> hd cs \<noteq> DBUS_DICT_ENTRY_END_CHAR) \<Longrightarrow>
   sig_loop f cs (state_of fs) = Inr st' \<Longrightarrow>
   \<exists>fs'. frames_ok fs' \<and> st' = state_of fs' \<and> render fs' = render fs @ cs \<and> opened fs' = []"
proof (induction cs arbitrary: fs)
  case Nil
  then show ?case by auto
next
  case (Cons c cs)
  define p1 where "p1 = (case cs of [] \<Rightarrow> f | d # _ \<Rightarrow> d)"
  from Cons.prems(4) obtain st1 where st1: "sig_step c p1 (state_of fs) = Inr st1"
    and rest: "sig_loop f cs st1 = Inr st'"
    by (auto simp: p1_def split: sum.splits)
  from step_sound [OF Cons.prems(1,2) _ st1] Cons.prems(3) obtain fs1 where
    ps: "parse_step fs c p1 cs st1 fs1" by auto
  then have "fr_arrays (hd fs1) > 0 \<longrightarrow> cs \<noteq> [] \<longrightarrow>
      hd cs \<noteq> DBUS_STRUCT_END_CHAR \<and> hd cs \<noteq> DBUS_DICT_ENTRY_END_CHAR"
    by (auto simp: parse_step_def p1_def split: list.splits)
  with Cons.IH [of fs1] ps rest show ?case
    by (auto simp: parse_step_def)
qed

lemma loop_accepts_sound:
  assumes "sig_loop f cs sig_init = Inr st" and "sig_finish st = DBUS_VALID"
    and "brackets_match cs []"
  shows "\<exists>ts. (\<forall>t \<in> set ts. wf_ty basic_or_struct t \<and> within 0 0 0 t) \<and> cs = sigs_of ts"
proof -
  let ?root = "[(0, [], 0)] :: frame list"
  have "sig_init = state_of ?root"
    by (simp add: sig_init_def state_of_def kinds_def)
  with assms(1) have "sig_loop f cs (state_of ?root) = Inr st" by simp
  then obtain fs where fs: "frames_ok fs" "st = state_of fs" "render fs = cs" "opened fs = []"
    using loop_sound [of ?root cs f st] assms(3) by (auto simp: opened_def kinds_def)
  then obtain b ts n where "fs = [(b, ts, n)]"
    by (cases fs) (auto simp: opened_def kinds_def split: if_splits)
  with fs assms(2) show ?thesis
    by (intro exI [of _ ts]) (auto simp: kinds_def state_of_def sig_finish_def split: if_splits)
qed

lemma sig_switch_error: "sig_switch c st \<noteq> Inl DBUS_VALID"
  by (simp add: sig_switch_def Let_def split: prod.split)

lemma sig_step_error: "sig_step c p1 st \<noteq> Inl DBUS_VALID"
  using sig_switch_error [of c st] by (cases "sig_switch c st") (simp_all add: sig_step_def Let_def)

lemma sig_loop_error: "sig_loop f cs st \<noteq> Inl DBUS_VALID"
  by (induction f cs st rule: sig_loop.induct) (auto split: sum.splits simp: sig_step_error)

lemma validate_signature_validE:
  assumes "dbus_validate_signature_with_reason type_str type_pos len = DBUS_VALID"
  obtains st where "sig_loop (dbus_string_get_byte type_str (type_pos + len))
        (str_range type_str type_pos len) sig_init = Inr st"
    and "sig_finish st = DBUS_VALID" and "len \<le> DBUS_MAXIMUM_SIGNATURE_LENGTH"
proof -
  let ?l = "sig_loop (dbus_string_get_byte type_str (type_pos + len))
        (str_range type_str type_pos len) sig_init"
  have "\<not> len > DBUS_MAXIMUM_SIGNATURE_LENGTH"
    using assms by (auto simp: dbus_validate_signature_with_reason_def)
  moreover from this assms have "case ?l of Inl e \<Rightarrow> e = DBUS_VALID | Inr st \<Rightarrow> sig_finish st = DBUS_VALID"
    by (simp add: dbus_validate_signature_with_reason_def split: sum.splits)
  moreover have "?l \<noteq> Inl DBUS_VALID" by (rule sig_loop_error)
  ultimately show thesis using that by (auto split: sum.splits)
qed

text \<open>C19: every signature that denotes a list of well-formed types (keys of dict entries are
  basic types), stays within the nesting limits and is at most 255 bytes long is accepted.\<close>

theorem well_formed_signature_accepted:
  assumes "well_formed_signature is_basic_ty ts"
  shows "dbus_validate_signature_with_reason (pre @ sigs_of ts @ post) (length pre)
    (length (sigs_of ts)) = DBUS_VALID"
proof -
  obtain l n where "sig_loop (dbus_string_get_byte (pre @ sigs_of ts @ post)
      (length pre + length (sigs_of ts))) (sigs_of ts) sig_init =
      Inr \<lparr>sg_last = l, struct_depth = 0, array_depth = 0, dict_entry_depth = 0,
         element_count_stack = n\<rparr>"
    using sig_loop_well_formed [OF assms basic_is_basic_or_struct] by blast
  then show ?thesis
    using assms by (simp add: dbus_validate_signature_with_reason_def str_range_middle
        well_formed_signature_def sig_finish_def)
qed

theorem well_formed_signature_accepted_witness:
  "dbus_validate_signature_with_reason ([] @ sigs_of [Array (DictEntry (Basic DBUS_TYPE_STRING) Variant)] @ [])
     (length ([] :: byte list)) (length (sigs_of [Array (DictEntry (Basic DBUS_TYPE_STRING) Variant)]))
   = DBUS_VALID"
  by (rule well_formed_signature_accepted)
    (simp add: well_formed_signature_def dbus_defs char_defs)

text \<open>C20: among the strings whose brackets are properly nested, the validator accepts exactly
  the signatures of at most 255 bytes that denote well-formed types within the nesting
  limits, where the key of a dict entry may be a structure as well as a basic type.\<close>

theorem signature_accepted_iff:
  assumes "type_pos + len \<le> length type_str"
    and "brackets_match (str_range type_str type_pos len) []"
  shows "dbus_validate_signature_with_reason type_str type_pos len = DBUS_VALID \<longleftrightarrow>
    (\<exists>ts. well_formed_signature basic_or_struct ts \<and> str_range type_str type_pos len = sigs_of ts)"
    (is "?valid \<longleftrightarrow> ?wf")
proof
  assume valid: ?valid
  then obtain st where "sig_loop (dbus_string_get_byte type_str (type_pos + len))
        (str_range type_str type_pos len) sig_init = Inr st" "sig_finish st = DBUS_VALID"
      and len: "len \<le> DBUS_MAXIMUM_SIGNATURE_LENGTH"
    by (rule validate_signature_validE)
  from loop_accepts_sound [OF this(1,2) assms(2)] obtain ts where
    "\<forall>t \<in> set ts. wf_ty basic_or_struct t \<and> within 0 0 0 t"
    "str_range type_str type_pos len = sigs_of ts" by blast
  moreover from this(2) have "length (sigs_of ts) = len"
    using assms(1) by (metis length_str_range add_le_imp_le_diff min.absorb1 add.commute)
  ultimately show ?wf
    using len by (auto simp: well_formed_signature_def)
next
  assume ?wf
  then obtain ts where ts: "well_formed_signature basic_or_struct ts"
    "str_range type_str type_pos len = sigs_of ts" by blast
  then have "length (sigs_of ts) = len"
    using assms(1) by (metis length_str_range add_le_imp_le_diff min.absorb1 add.commute)
  moreover obtain l n where "sig_loop (dbus_string_get_byte type_str (type_pos + len))
      (sigs_of ts) sig_init = Inr \<lparr>sg_last = l, struct_depth = 0, array_depth = 0,
         dict_entry_depth = 0, element_count_stack = n\<rparr>"
    using sig_loop_well_formed [OF ts(1)] by blast
  ultimately show ?valid
    using ts by (simp add: dbus_validate_signature_with_reason_def well_formed_signature_def
        sig_finish_def)
qed

theorem signature_accepted_iff_witness:
  "(let s = str ''a{sv}'' in 0 + 5 \<le> length s \<and> brackets_match (str_range s 0 5) [] \<and>
     (dbus_validate_signature_with_reason s 0 5 = DBUS_VALID \<longleftrightarrow>
      (\<exists>ts. well_formed_signature basic_or_struct ts \<and> str_range s 0 5 = sigs_of ts)))"
proof -
  have h: "0 + 5 \<le> length (str ''a{sv}'')" "brackets_match (str_range (str ''a{sv}'') 0 5) []"
    by (simp_all add: str_range_def)
  show ?thesis
    using h signature_accepted_iff [OF h] by (simp only: Let_def simp_thms)
qed

lemma brackets_match_sig_of:
  "wf_elem key t \<Longrightarrow> brackets_match (sig_of t @ rest) st = brackets_match rest st"
proof (induction t arbitrary: rest st)
  case (Struct ts)
  have "\<forall>t \<in> set us. t \<in> set ts \<Longrightarrow> brackets_match (sigs_of us @ rest) st = brackets_match rest st"
    for us rest st
    using Struct by (induction us arbitrary: rest) (auto simp: wf_ty_imp_wf_elem)
  then show ?case by simp
next
  case (DictEntry k v)
  then show ?case by (simp add: wf_ty_imp_wf_elem)
qed (auto dest: basic_not_special)

lemma brackets_match_sigs_of:
  "\<forall>t \<in> set ts. wf_ty key t \<Longrightarrow> brackets_match (sigs_of ts) []"
proof -
  have "\<forall>t \<in> set ts. wf_ty key t \<Longrightarrow> brackets_match (sigs_of ts @ rest) st = brackets_match rest st"
    for rest st
    by (induction ts) (auto simp: brackets_match_sig_of [where key = key] wf_ty_imp_wf_elem)
  from this [of "[]" "[]"] show "\<forall>t \<in> set ts. wf_ty key t \<Longrightarrow> brackets_match (sigs_of ts) []" by simp
qed

text \<open>C21: the validator accepts \<open>(ia{si)}\<close>, in which the structure is closed inside the dict
  entry, although it is the signature of no list of types at all: the counters of the two
  kinds of brackets are independent of each other.\<close>

theorem misnested_signature_accepted:
  "dbus_validate_signature_with_reason (str ''(ia{si)}'') 0 8 = DBUS_VALID \<and>
   \<not> (\<exists>key ts. list_all (wf_ty key) ts \<and> str ''(ia{si)}'' = sigs_of ts)"
proof
  show "dbus_validate_signature_with_reason (str ''(ia{si)}'') 0 8 = DBUS_VALID"
    by code_simp
  have "\<not> brackets_match (str ''(ia{si)}'') []" by simp
  then show "\<not> (\<exists>key ts. list_all (wf_ty key) ts \<and> str ''(ia{si)}'' = sigs_of ts)"
    using brackets_match_sigs_of by (metis Ball_set)
qed

text \<open>the validator accepts \<open>a{(i)i}\<close>, a dictionary whose key is a structure, although
  it has an error code for a key that is not a basic type and returns it for an array as key.\<close>

theorem struct_key_accepted:
  "dbus_validate_signature_with_reason (str ''a{(i)i}'') 0 7 = DBUS_VALID \<and>
   dbus_validate_signature_with_reason (str ''a{aii}'') 0 6 = DBUS_INVALID_DICT_KEY_MUST_BE_BASIC_TYPE \<and>
   str ''a{(i)i}'' = sig_of (Array (DictEntry (Struct [Basic DBUS_TYPE_INT32]) (Basic DBUS_TYPE_INT32))) \<and>
   \<not> wf_ty is_basic_ty (Array (DictEntry (Struct [Basic DBUS_TYPE_INT32]) (Basic DBUS_TYPE_INT32)))"
proof (intro conjI)
  show "dbus_validate_signature_with_reason (str ''a{(i)i}'') 0 7 = DBUS_VALID"
    by code_simp
  show "dbus_validate_signature_with_reason (str ''a{aii}'') 0 6 = DBUS_INVALID_DICT_KEY_MUST_BE_BASIC_TYPE"
    by code_simp
qed simp_all

end
