(* ===== verification/Bus_Message.thy ===== *)
theory Bus_Message
  imports Dbus_Prelude
begin

text \<open>
  Messages as the bus daemon sees them (src/dbus/dbus-message.c): the header
  fields that the accessors \<open>dbus_message_get_type\<close>, \<open>dbus_message_get_path\<close> and
  so on return, and the arguments of the body.  A field the header does not
  carry is \<open>None\<close> (the accessor returns NULL), a missing reply serial is 0.
  Messages with no memory for another header field do not occur here; the
  operations of the daemon that build messages account for allocation failure
  where they are defined.
\<close>

text \<open>Connections are known by an identity only (the \<open>DBusConnection\<close> pointer).\<close>

type_synonym conn = nat

definition DBUS_MESSAGE_TYPE_INVALID :: nat where "DBUS_MESSAGE_TYPE_INVALID = 0"
definition DBUS_MESSAGE_TYPE_METHOD_CALL :: nat where "DBUS_MESSAGE_TYPE_METHOD_CALL = 1"
definition DBUS_MESSAGE_TYPE_METHOD_RETURN :: nat where "DBUS_MESSAGE_TYPE_METHOD_RETURN = 2"
definition DBUS_MESSAGE_TYPE_ERROR :: nat where "DBUS_MESSAGE_TYPE_ERROR = 3"
definition DBUS_MESSAGE_TYPE_SIGNAL :: nat where "DBUS_MESSAGE_TYPE_SIGNAL = 4"

lemmas message_type_defs =
  DBUS_MESSAGE_TYPE_INVALID_def DBUS_MESSAGE_TYPE_METHOD_CALL_def
  DBUS_MESSAGE_TYPE_METHOD_RETURN_def DBUS_MESSAGE_TYPE_ERROR_def
  DBUS_MESSAGE_TYPE_SIGNAL_def

definition DBUS_SERVICE_DBUS :: dbus_string where
  "DBUS_SERVICE_DBUS = str ''org.freedesktop.DBus''"

definition DBUS_PATH_DBUS :: dbus_string where
  "DBUS_PATH_DBUS = str ''/org/freedesktop/DBus''"

definition DBUS_INTERFACE_DBUS :: dbus_string where
  "DBUS_INTERFACE_DBUS = str ''org.freedesktop.DBus''"

definition DBUS_INTERFACE_INTROSPECTABLE :: dbus_string where
  "DBUS_INTERFACE_INTROSPECTABLE = str ''org.freedesktop.DBus.Introspectable''"

definition DBUS_INTERFACE_LOCAL :: dbus_string where
  "DBUS_INTERFACE_LOCAL = str ''org.freedesktop.DBus.Local''"

text \<open>
  The arguments the daemon reads or writes itself; any other argument is kept
  as its signature, which is all the daemon ever asks about it.
\<close>

datatype msg_arg =
    StringArg dbus_string
  | Uint32Arg "32 word"
  | BooleanArg bool
  | StringArrayArg "dbus_string list"
  | StringDictArg "(dbus_string \<times> dbus_string) list"
  | ByteArrayArg "byte list"
  | OtherArg dbus_string

fun arg_signature :: "msg_arg \<Rightarrow> dbus_string" where
  "arg_signature (StringArg s) = str ''s''"
| "arg_signature (Uint32Arg w) = str ''u''"
| "arg_signature (BooleanArg b) = str ''b''"
| "arg_signature (StringArrayArg ss) = str ''as''"
| "arg_signature (StringDictArg es) = str ''a{ss}''"
| "arg_signature (ByteArrayArg bs) = str ''ay''"
| "arg_signature (OtherArg sig) = sig"

record DBusMessage =
  msg_type :: nat
  msg_serial :: "32 word"
  msg_reply_serial :: "32 word"
  msg_path :: "dbus_string option"
  msg_interface :: "dbus_string option"
  msg_member :: "dbus_string option"
  msg_error_name :: "dbus_string option"
  msg_destination :: "dbus_string option"
  msg_sender :: "dbus_string option"
  msg_no_reply :: bool
  msg_no_auto_start :: bool
  msg_args :: "msg_arg list"

definition dbus_message_get_signature :: "DBusMessage \<Rightarrow> dbus_string" where
  "dbus_message_get_signature m = concat (map arg_signature (msg_args m))"

definition dbus_message_has_signature :: "DBusMessage \<Rightarrow> dbus_string \<Rightarrow> bool" where
  "dbus_message_has_signature m signature \<longleftrightarrow> dbus_message_get_signature m = signature"

definition dbus_message_has_destination :: "DBusMessage \<Rightarrow> dbus_string \<Rightarrow> bool" where
  "dbus_message_has_destination m name \<longleftrightarrow> msg_destination m = Some name"

definition dbus_message_has_sender :: "DBusMessage \<Rightarrow> dbus_string \<Rightarrow> bool" where
  "dbus_message_has_sender m name \<longleftrightarrow> msg_sender m = Some name"

definition dbus_message_get_auto_start :: "DBusMessage \<Rightarrow> bool" where
  "dbus_message_get_auto_start m \<longleftrightarrow> \<not> msg_no_auto_start m"

text \<open>
  The interface is optional in a message: a message without one passes the
  test for any interface (dbus-message.c, line 3039).
\<close>

definition message_has_type_interface_member ::
  "DBusMessage \<Rightarrow> nat \<Rightarrow> dbus_string \<Rightarrow> dbus_string \<Rightarrow> bool" where
  "message_has_type_interface_member m ty iface member \<longleftrightarrow>
     (if msg_type m \<noteq> ty then False
      else if msg_member m = Some member
           then (case msg_interface m of None \<Rightarrow> True | Some n \<Rightarrow> n = iface)
           else False)"

definition dbus_message_is_method_call :: "DBusMessage \<Rightarrow> dbus_string \<Rightarrow> dbus_string \<Rightarrow> bool" where
  "dbus_message_is_method_call m iface method =
     message_has_type_interface_member m DBUS_MESSAGE_TYPE_METHOD_CALL iface method"

definition dbus_message_is_signal :: "DBusMessage \<Rightarrow> dbus_string \<Rightarrow> dbus_string \<Rightarrow> bool" where
  "dbus_message_is_signal m iface name =
     message_has_type_interface_member m DBUS_MESSAGE_TYPE_SIGNAL iface name"

definition dbus_message_type_from_string :: "dbus_string \<Rightarrow> nat" where
  "dbus_message_type_from_string type_str =
     (if type_str = str ''method_call'' then DBUS_MESSAGE_TYPE_METHOD_CALL
      else if type_str = str ''method_return'' then DBUS_MESSAGE_TYPE_METHOD_RETURN
      else if type_str = str ''signal'' then DBUS_MESSAGE_TYPE_SIGNAL
      else if type_str = str ''error'' then DBUS_MESSAGE_TYPE_ERROR
      else DBUS_MESSAGE_TYPE_INVALID)"

definition dbus_message_type_to_string :: "nat \<Rightarrow> dbus_string" where
  "dbus_message_type_to_string ty =
     (if ty = DBUS_MESSAGE_TYPE_METHOD_CALL then str ''method_call''
      else if ty = DBUS_MESSAGE_TYPE_METHOD_RETURN then str ''method_return''
      else if ty = DBUS_MESSAGE_TYPE_SIGNAL then str ''signal''
      else if ty = DBUS_MESSAGE_TYPE_ERROR then str ''error''
      else str ''invalid'')"

subsection \<open>Building messages\<close>

text \<open>A message just created has no serial (0); the connection assigns it when sending.\<close>

definition dbus_message_new :: "nat \<Rightarrow> DBusMessage" where
  "dbus_message_new ty =
     \<lparr> msg_type = ty, msg_serial = 0, msg_reply_serial = 0, msg_path = None, msg_interface = None,
       msg_member = None, msg_error_name = None, msg_destination = None, msg_sender = None,
       msg_no_reply = False, msg_no_auto_start = False, msg_args = [] \<rparr>"

definition dbus_message_new_method_return :: "DBusMessage \<Rightarrow> DBusMessage" where
  "dbus_message_new_method_return method_call =
     (dbus_message_new DBUS_MESSAGE_TYPE_METHOD_RETURN)
       \<lparr> msg_destination := msg_sender method_call, msg_no_reply := True,
         msg_reply_serial := msg_serial method_call \<rparr>"

definition dbus_message_new_signal ::
  "dbus_string \<Rightarrow> dbus_string \<Rightarrow> dbus_string \<Rightarrow> DBusMessage" where
  "dbus_message_new_signal path iface name =
     (dbus_message_new DBUS_MESSAGE_TYPE_SIGNAL)
       \<lparr> msg_path := Some path, msg_interface := Some iface, msg_member := Some name,
         msg_no_reply := True \<rparr>"

definition dbus_message_new_error ::
  "DBusMessage \<Rightarrow> dbus_string \<Rightarrow> dbus_string option \<Rightarrow> DBusMessage" where
  "dbus_message_new_error reply_to error_name error_message =
     (dbus_message_new DBUS_MESSAGE_TYPE_ERROR)
       \<lparr> msg_destination := msg_sender reply_to, msg_error_name := Some error_name,
         msg_no_reply := True, msg_reply_serial := msg_serial reply_to,
         msg_args := (case error_message of None \<Rightarrow> [] | Some t \<Rightarrow> [StringArg t]) \<rparr>"

definition dbus_message_append_args :: "DBusMessage \<Rightarrow> msg_arg list \<Rightarrow> DBusMessage" where
  "dbus_message_append_args m args = m \<lparr> msg_args := msg_args m @ args \<rparr>"

lemmas message_builder_defs =
  dbus_message_new_def dbus_message_new_method_return_def dbus_message_new_signal_def
  dbus_message_new_error_def dbus_message_append_args_def

lemma type_from_to_string:
  "dbus_message_type_from_string (dbus_message_type_to_string ty) =
     (if 1 \<le> ty \<and> ty \<le> 4 then ty else 0)"
  by (auto simp: dbus_message_type_from_string_def dbus_message_type_to_string_def message_type_defs
      str_def)

end
