(* ===== verification/Bus_Policy.thy ===== *)
theory Bus_Policy
  imports Bus_Message "HOL-Library.AList"
begin

text \<open>
  Security policy of the bus daemon (src/bus/policy.c): the rules read from the
  configuration file, how the rules for one client are collected from them, the
  optimisation of the collected list, and the three decisions taken with it
  (may the client send this message, receive it, own this name).

  The lemmas show that each decision is taken by the last applicable rule and
  is "no" when none applies, that mandatory rules override all others, and what
  the optimisation preserves: ownership decisions exactly, send and receive
  decisions only in one direction.  Allocation is taken to succeed in this theory.
\<close>

type_synonym uid = nat
type_synonym gid = nat

section \<open>Rules\<close>

datatype BusPolicyRuleType =
    BUS_POLICY_RULE_SEND
  | BUS_POLICY_RULE_RECEIVE
  | BUS_POLICY_RULE_OWN
  | BUS_POLICY_RULE_USER
  | BUS_POLICY_RULE_GROUP

text \<open>
  The fields that send and receive rules share; \<open>mr_peer\<close> is the destination
  of a send rule and the origin of a receive rule.  \<open>None\<close> (NULL) and the
  message type 0 mean "any".
\<close>

record message_match =
  mr_message_type :: nat
  mr_path :: "dbus_string option"
  mr_interface :: "dbus_string option"
  mr_member :: "dbus_string option"
  mr_error :: "dbus_string option"
  mr_peer :: "dbus_string option"
  mr_eavesdrop :: bool
  mr_requested_reply :: bool

text \<open>The union \<open>d\<close>; the flag of a send rule is its \<open>log\<close> bit, \<open>None\<close> an unset uid or gid.\<close>

datatype policy_rule_data =
    SendData message_match bool
  | ReceiveData message_match
  | OwnData "dbus_string option"
  | UserData "uid option"
  | GroupData "gid option"

record BusPolicyRule =
  rule_allow :: bool
  rule_d :: policy_rule_data

fun data_type :: "policy_rule_data \<Rightarrow> BusPolicyRuleType" where
  "data_type (SendData mm lg) = BUS_POLICY_RULE_SEND"
| "data_type (ReceiveData mm) = BUS_POLICY_RULE_RECEIVE"
| "data_type (OwnData n) = BUS_POLICY_RULE_OWN"
| "data_type (UserData u) = BUS_POLICY_RULE_USER"
| "data_type (GroupData g) = BUS_POLICY_RULE_GROUP"

definition rule_type :: "BusPolicyRule \<Rightarrow> BusPolicyRuleType" where
  "rule_type r = data_type (rule_d r)"

definition new_match :: "bool \<Rightarrow> message_match" where
  "new_match allow =
     \<lparr> mr_message_type = DBUS_MESSAGE_TYPE_INVALID, mr_path = None, mr_interface = None,
       mr_member = None, mr_error = None, mr_peer = None, mr_eavesdrop = False,
       mr_requested_reply = allow \<rparr>"

fun bus_policy_rule_new :: "BusPolicyRuleType \<Rightarrow> bool \<Rightarrow> BusPolicyRule" where
  "bus_policy_rule_new BUS_POLICY_RULE_SEND allow =
     \<lparr> rule_allow = allow, rule_d = SendData (new_match allow) False \<rparr>"
| "bus_policy_rule_new BUS_POLICY_RULE_RECEIVE allow =
     \<lparr> rule_allow = allow, rule_d = ReceiveData (new_match allow) \<rparr>"
| "bus_policy_rule_new BUS_POLICY_RULE_OWN allow = \<lparr> rule_allow = allow, rule_d = OwnData None \<rparr>"
| "bus_policy_rule_new BUS_POLICY_RULE_USER allow = \<lparr> rule_allow = allow, rule_d = UserData None \<rparr>"
| "bus_policy_rule_new BUS_POLICY_RULE_GROUP allow = \<lparr> rule_allow = allow, rule_d = GroupData None \<rparr>"

section \<open>The policy of the bus\<close>

text \<open>The two hash tables are association lists with distinct keys.\<close>

record BusPolicy =
  default_rules :: "BusPolicyRule list"
  mandatory_rules :: "BusPolicyRule list"
  rules_by_uid :: "(uid \<times> BusPolicyRule list) list"
  rules_by_gid :: "(gid \<times> BusPolicyRule list) list"
  at_console_true_rules :: "BusPolicyRule list"
  at_console_false_rules :: "BusPolicyRule list"

definition bus_policy_new :: BusPolicy where
  "bus_policy_new = \<lparr> default_rules = [], mandatory_rules = [], rules_by_uid = [], rules_by_gid = [],
                      at_console_true_rules = [], at_console_false_rules = [] \<rparr>"

definition get_list :: "(nat \<times> 'r list) list \<Rightarrow> nat \<Rightarrow> 'r list" where
  "get_list hash key = (case map_of hash key of None \<Rightarrow> [] | Some l \<Rightarrow> l)"

definition bus_policy_append_default_rule :: "BusPolicy \<Rightarrow> BusPolicyRule \<Rightarrow> BusPolicy" where
  "bus_policy_append_default_rule p r = p \<lparr> default_rules := default_rules p @ [r] \<rparr>"

definition bus_policy_append_mandatory_rule :: "BusPolicy \<Rightarrow> BusPolicyRule \<Rightarrow> BusPolicy" where
  "bus_policy_append_mandatory_rule p r = p \<lparr> mandatory_rules := mandatory_rules p @ [r] \<rparr>"

definition bus_policy_append_user_rule :: "BusPolicy \<Rightarrow> uid \<Rightarrow> BusPolicyRule \<Rightarrow> BusPolicy" where
  "bus_policy_append_user_rule p u r =
     p \<lparr> rules_by_uid := AList.update u (get_list (rules_by_uid p) u @ [r]) (rules_by_uid p) \<rparr>"

definition bus_policy_append_group_rule :: "BusPolicy \<Rightarrow> gid \<Rightarrow> BusPolicyRule \<Rightarrow> BusPolicy" where
  "bus_policy_append_group_rule p g r =
     p \<lparr> rules_by_gid := AList.update g (get_list (rules_by_gid p) g @ [r]) (rules_by_gid p) \<rparr>"

definition bus_policy_append_console_rule :: "BusPolicy \<Rightarrow> bool \<Rightarrow> BusPolicyRule \<Rightarrow> BusPolicy" where
  "bus_policy_append_console_rule p at_console r =
     (if at_console then p \<lparr> at_console_true_rules := at_console_true_rules p @ [r] \<rparr>
      else p \<lparr> at_console_false_rules := at_console_false_rules p @ [r] \<rparr>)"

fun merge_id_hash :: "(nat \<times> 'r list) list \<Rightarrow> (nat \<times> 'r list) list \<Rightarrow> (nat \<times> 'r list) list" where
  "merge_id_hash dest [] = dest"
| "merge_id_hash dest ((key, l) # to_absorb) =
     merge_id_hash (AList.update key (get_list dest key @ l) dest) to_absorb"

definition bus_policy_merge :: "BusPolicy \<Rightarrow> BusPolicy \<Rightarrow> BusPolicy" where
  "bus_policy_merge p to_absorb =
     \<lparr> default_rules = default_rules p @ default_rules to_absorb,
       mandatory_rules = mandatory_rules p @ mandatory_rules to_absorb,
       rules_by_uid = merge_id_hash (rules_by_uid p) (rules_by_uid to_absorb),
       rules_by_gid = merge_id_hash (rules_by_gid p) (rules_by_gid to_absorb),
       at_console_true_rules = at_console_true_rules p @ at_console_true_rules to_absorb,
       at_console_false_rules = at_console_false_rules p @ at_console_false_rules to_absorb \<rparr>"

section \<open>Who may connect\<close>

text \<open>
  The user database of the operating system is a parameter: the groups of a
  user (\<open>None\<close> when they cannot be read), whether the user is at the console
  (\<open>None\<close> on error), whether the bus runs as that user.
\<close>

record user_database =
  groups_from_uid :: "uid \<Rightarrow> gid list option"
  user_is_at_console :: "uid \<Rightarrow> bool option"
  user_is_process_owner :: "uid \<Rightarrow> bool"

fun user_rule_applies :: "uid \<Rightarrow> gid list \<Rightarrow> policy_rule_data \<Rightarrow> bool" where
  "user_rule_applies u gs (UserData r) = (case r of None \<Rightarrow> True | Some u' \<Rightarrow> u' = u)"
| "user_rule_applies u gs (GroupData r) = (case r of None \<Rightarrow> True | Some g \<Rightarrow> g \<in> set gs)"
| "user_rule_applies u gs d = False"

fun list_allows_user :: "bool \<Rightarrow> BusPolicyRule list \<Rightarrow> uid \<Rightarrow> gid list \<Rightarrow> bool" where
  "list_allows_user allowed [] u gs = allowed"
| "list_allows_user allowed (r # rs) u gs =
     list_allows_user (if user_rule_applies u gs (rule_d r) then rule_allow r else allowed) rs u gs"

definition bus_policy_allow_unix_user :: "user_database \<Rightarrow> BusPolicy \<Rightarrow> uid \<Rightarrow> bool" where
  "bus_policy_allow_unix_user db p u =
     (case groups_from_uid db u of
        None \<Rightarrow> False
      | Some gs \<Rightarrow>
          list_allows_user
            (list_allows_user (user_is_process_owner db u) (default_rules p) u gs)
            (mandatory_rules p) u gs)"

definition bus_policy_allow_windows_user :: "BusPolicy \<Rightarrow> dbus_string \<Rightarrow> bool" where
  "bus_policy_allow_windows_user p windows_sid = True"

section \<open>The rules of one client\<close>

type_synonym BusClientPolicy = "BusPolicyRule list"

definition is_per_client :: "BusPolicyRule \<Rightarrow> bool" where
  "is_per_client r \<longleftrightarrow> \<not> (rule_type r = BUS_POLICY_RULE_USER \<or> rule_type r = BUS_POLICY_RULE_GROUP)"

definition bus_client_policy_append_rule :: "BusClientPolicy \<Rightarrow> BusPolicyRule \<Rightarrow> BusClientPolicy" where
  "bus_client_policy_append_rule client r = client @ [r]"

fun add_list_to_client :: "BusPolicyRule list \<Rightarrow> BusClientPolicy \<Rightarrow> BusClientPolicy" where
  "add_list_to_client [] client = client"
| "add_list_to_client (r # rs) client =
     add_list_to_client rs
       (if is_per_client r then bus_client_policy_append_rule client r else client)"

fun add_group_rules :: "(gid \<times> BusPolicyRule list) list \<Rightarrow> gid list \<Rightarrow> BusClientPolicy \<Rightarrow> BusClientPolicy" where
  "add_group_rules hash [] client = client"
| "add_group_rules hash (g # gs) client =
     add_group_rules hash gs
       (case map_of hash g of None \<Rightarrow> client | Some l \<Rightarrow> add_list_to_client l client)"

subsection \<open>Optimisation\<close>

definition is_blanket_match :: "message_match \<Rightarrow> bool" where
  "is_blanket_match mm \<longleftrightarrow>
     mr_message_type mm = DBUS_MESSAGE_TYPE_INVALID \<and> mr_path mm = None \<and> mr_interface mm = None \<and>
     mr_member mm = None \<and> mr_error mm = None \<and> mr_peer mm = None"

text \<open>User and group rules never reach a client policy (lemma \<open>client_rules_per_client\<close>).\<close>

fun remove_preceding :: "policy_rule_data \<Rightarrow> bool" where
  "remove_preceding (SendData mm lg) = is_blanket_match mm"
| "remove_preceding (ReceiveData mm) = is_blanket_match mm"
| "remove_preceding (OwnData service_name) = (service_name = None)"
| "remove_preceding (UserData u) = False"
| "remove_preceding (GroupData g) = False"

definition remove_rules_by_type :: "BusPolicyRuleType \<Rightarrow> BusPolicyRule list \<Rightarrow> BusPolicyRule list" where
  "remove_rules_by_type ty rs = filter (\<lambda>r. rule_type r \<noteq> ty) rs"

fun optimize_loop :: "BusPolicyRule list \<Rightarrow> BusPolicyRule list \<Rightarrow> BusPolicyRule list" where
  "optimize_loop earlier [] = earlier"
| "optimize_loop earlier (r # rs) =
     optimize_loop
       ((if remove_preceding (rule_d r) then remove_rules_by_type (rule_type r) earlier else earlier) @ [r])
       rs"

definition bus_client_policy_optimize :: "BusClientPolicy \<Rightarrow> BusClientPolicy" where
  "bus_client_policy_optimize client = optimize_loop [] client"

text \<open>
  \<open>bus_connection_get_unix_groups\<close> (connection.c) looks the groups up by the
  user of the connection and succeeds with no groups when that is unknown.
\<close>

definition bus_connection_get_unix_groups :: "user_database \<Rightarrow> uid option \<Rightarrow> gid list option" where
  "bus_connection_get_unix_groups db unix_user =
     (case unix_user of None \<Rightarrow> Some [] | Some u \<Rightarrow> groups_from_uid db u)"

text \<open>
  The two ways in which collecting the rules fails; only the second sets the
  error that the callers expect.
\<close>

datatype client_policy_error = GROUPS_UNKNOWN | CONSOLE_ERROR

definition bus_policy_create_client_policy ::
  "user_database \<Rightarrow> BusPolicy \<Rightarrow> uid option \<Rightarrow> client_policy_error + BusClientPolicy" where
  "bus_policy_create_client_policy db p unix_user =
     (let c0 = add_list_to_client (default_rules p) [] in
      case (if rules_by_gid p \<noteq> []
            then (case bus_connection_get_unix_groups db unix_user of
                    None \<Rightarrow> None
                  | Some gs \<Rightarrow> Some (add_group_rules (rules_by_gid p) gs c0))
            else Some c0) of
        None \<Rightarrow> Inl GROUPS_UNKNOWN
      | Some c1 \<Rightarrow>
         (case (case unix_user of
                  None \<Rightarrow> Some c1
                | Some u \<Rightarrow>
                    (let c2 = (case map_of (rules_by_uid p) u of
                                 None \<Rightarrow> c1
                               | Some l \<Rightarrow> add_list_to_client l c1)
                     in case user_is_at_console db u of
                          None \<Rightarrow> None
                        | Some True \<Rightarrow> Some (add_list_to_client (at_console_true_rules p) c2)
                        | Some False \<Rightarrow> Some (add_list_to_client (at_console_false_rules p) c2))) of
            None \<Rightarrow> Inl CONSOLE_ERROR
          | Some c3 \<Rightarrow>
              Inr (bus_client_policy_optimize (add_list_to_client (mandatory_rules p) c3))))"

section \<open>Decisions\<close>

text \<open>
  The checks consult the registry of names for the owners of a name;
  \<open>registry_view\<close> is that lookup: the connections in the queue of the name, or
  \<open>None\<close> when the name does not exist.
\<close>

type_synonym registry_view = "dbus_string \<Rightarrow> conn list option"

definition view_has_owner :: "registry_view \<Rightarrow> dbus_string \<Rightarrow> conn \<Rightarrow> bool" where
  "view_has_owner reg name c \<longleftrightarrow>
     (case reg name of None \<Rightarrow> False | Some owners \<Rightarrow> c \<in> set owners)"

text \<open>The tests on path, interface, member and error name, which both checks share.\<close>

definition field_differs :: "dbus_string option \<Rightarrow> dbus_string option \<Rightarrow> bool" where
  "field_differs rule_field msg_field \<longleftrightarrow>
     (case rule_field of
        None \<Rightarrow> False
      | Some r \<Rightarrow> (case msg_field of None \<Rightarrow> False | Some v \<Rightarrow> v \<noteq> r))"

definition interface_skips :: "bool \<Rightarrow> dbus_string option \<Rightarrow> dbus_string option \<Rightarrow> bool" where
  "interface_skips allow rule_field msg_field \<longleftrightarrow>
     (case rule_field of
        None \<Rightarrow> False
      | Some r \<Rightarrow> (case msg_field of None \<Rightarrow> allow | Some v \<Rightarrow> v \<noteq> r))"

definition type_differs :: "message_match \<Rightarrow> DBusMessage \<Rightarrow> bool" where
  "type_differs mm m \<longleftrightarrow>
     mr_message_type mm \<noteq> DBUS_MESSAGE_TYPE_INVALID \<and> msg_type m \<noteq> mr_message_type mm"

definition reply_skips :: "bool \<Rightarrow> message_match \<Rightarrow> bool \<Rightarrow> DBusMessage \<Rightarrow> bool" where
  "reply_skips allow mm requested_reply m \<longleftrightarrow>
     msg_reply_serial m \<noteq> 0 \<and>
     (\<not> requested_reply \<and> allow \<and> mr_requested_reply mm \<and> \<not> mr_eavesdrop mm \<or>
      requested_reply \<and> \<not> allow \<and> \<not> mr_requested_reply mm)"

definition fields_skip :: "bool \<Rightarrow> message_match \<Rightarrow> DBusMessage \<Rightarrow> bool" where
  "fields_skip allow mm m \<longleftrightarrow>
     field_differs (mr_path mm) (msg_path m) \<or>
     interface_skips allow (mr_interface mm) (msg_interface m) \<or>
     field_differs (mr_member mm) (msg_member m) \<or>
     field_differs (mr_error mm) (msg_error_name m)"

definition destination_skips :: "message_match \<Rightarrow> registry_view \<Rightarrow> conn option \<Rightarrow> DBusMessage \<Rightarrow> bool" where
  "destination_skips mm reg receiver m \<longleftrightarrow>
     (case mr_peer mm of
        None \<Rightarrow> False
      | Some d \<Rightarrow> (case receiver of
                     None \<Rightarrow> \<not> dbus_message_has_destination m d
                   | Some c \<Rightarrow> \<not> view_has_owner reg d c))"

definition origin_skips :: "message_match \<Rightarrow> registry_view \<Rightarrow> conn option \<Rightarrow> DBusMessage \<Rightarrow> bool" where
  "origin_skips mm reg sender m \<longleftrightarrow>
     (case mr_peer mm of
        None \<Rightarrow> False
      | Some d \<Rightarrow> (case sender of
                     None \<Rightarrow> \<not> dbus_message_has_sender m d
                   | Some c \<Rightarrow> \<not> view_has_owner reg d c))"

definition send_rule_applies ::
  "registry_view \<Rightarrow> bool \<Rightarrow> conn option \<Rightarrow> DBusMessage \<Rightarrow> BusPolicyRule \<Rightarrow> bool" where
  "send_rule_applies reg requested_reply receiver m r =
     (case rule_d r of
        SendData mm lg \<Rightarrow>
          \<not> (type_differs mm m \<or> reply_skips (rule_allow r) mm requested_reply m \<or>
             fields_skip (rule_allow r) mm m \<or> destination_skips mm reg receiver m)
      | _ \<Rightarrow> False)"

definition is_eavesdropping :: "conn option \<Rightarrow> conn option \<Rightarrow> DBusMessage \<Rightarrow> bool" where
  "is_eavesdropping addressed proposed m \<longleftrightarrow> addressed \<noteq> proposed \<and> msg_destination m \<noteq> None"

definition eavesdrop_skips :: "bool \<Rightarrow> message_match \<Rightarrow> bool \<Rightarrow> bool" where
  "eavesdrop_skips allow mm eavesdropping \<longleftrightarrow>
     eavesdropping \<and> allow \<and> \<not> mr_eavesdrop mm \<or> \<not> eavesdropping \<and> \<not> allow \<and> mr_eavesdrop mm"

definition receive_rule_applies ::
  "registry_view \<Rightarrow> bool \<Rightarrow> conn option \<Rightarrow> bool \<Rightarrow> DBusMessage \<Rightarrow> BusPolicyRule \<Rightarrow> bool" where
  "receive_rule_applies reg requested_reply sender eavesdropping m r =
     (case rule_d r of
        ReceiveData mm \<Rightarrow>
          \<not> (type_differs mm m \<or> eavesdrop_skips (rule_allow r) mm eavesdropping \<or>
             reply_skips (rule_allow r) mm requested_reply m \<or>
             fields_skip (rule_allow r) mm m \<or> origin_skips mm reg sender m)
      | _ \<Rightarrow> False)"

definition own_rule_applies :: "dbus_string \<Rightarrow> BusPolicyRule \<Rightarrow> bool" where
  "own_rule_applies service_name r =
     (case rule_d r of
        OwnData n \<Rightarrow> (case n of None \<Rightarrow> True | Some n' \<Rightarrow> service_name = n')
      | _ \<Rightarrow> False)"

fun rule_log :: "policy_rule_data \<Rightarrow> bool" where
  "rule_log (SendData mm lg) = lg"
| "rule_log d = False"

text \<open>
  The loops return the decision, the number of rules used (\<open>toggles\<close>) and, for
  sending, the log flag, whose value the caller provides (it is only written
  when a rule is used).
\<close>

fun check_can_send_loop ::
  "(BusPolicyRule \<Rightarrow> bool) \<Rightarrow> BusPolicyRule list \<Rightarrow> bool \<Rightarrow> nat \<Rightarrow> bool \<Rightarrow> bool \<times> nat \<times> bool" where
  "check_can_send_loop applies [] allowed toggles lg = (allowed, toggles, lg)"
| "check_can_send_loop applies (r # rs) allowed toggles lg =
     (if applies r
      then check_can_send_loop applies rs (rule_allow r) (toggles + 1) (rule_log (rule_d r))
      else check_can_send_loop applies rs allowed toggles lg)"

definition bus_client_policy_check_can_send ::
  "BusClientPolicy \<Rightarrow> registry_view \<Rightarrow> bool \<Rightarrow> conn option \<Rightarrow> DBusMessage \<Rightarrow> bool \<Rightarrow> bool \<times> nat \<times> bool" where
  "bus_client_policy_check_can_send policy reg requested_reply receiver m lg =
     check_can_send_loop (send_rule_applies reg requested_reply receiver m) policy False 0 lg"

fun check_can_receive_loop ::
  "(BusPolicyRule \<Rightarrow> bool) \<Rightarrow> BusPolicyRule list \<Rightarrow> bool \<Rightarrow> nat \<Rightarrow> bool \<times> nat" where
  "check_can_receive_loop applies [] allowed toggles = (allowed, toggles)"
| "check_can_receive_loop applies (r # rs) allowed toggles =
     (if applies r
      then check_can_receive_loop applies rs (rule_allow r) (toggles + 1)
      else check_can_receive_loop applies rs allowed toggles)"

definition bus_client_policy_check_can_receive ::
  "BusClientPolicy \<Rightarrow> registry_view \<Rightarrow> bool \<Rightarrow> conn option \<Rightarrow> conn option \<Rightarrow> conn option \<Rightarrow> DBusMessage
     \<Rightarrow> bool \<times> nat" where
  "bus_client_policy_check_can_receive policy reg requested_reply sender addressed proposed m =
     check_can_receive_loop
       (receive_rule_applies reg requested_reply sender (is_eavesdropping addressed proposed m) m)
       policy False 0"

fun check_can_own_loop :: "(BusPolicyRule \<Rightarrow> bool) \<Rightarrow> BusPolicyRule list \<Rightarrow> bool \<Rightarrow> bool" where
  "check_can_own_loop applies [] allowed = allowed"
| "check_can_own_loop applies (r # rs) allowed =
     check_can_own_loop applies rs (if applies r then rule_allow r else allowed)"

definition bus_client_policy_check_can_own :: "BusClientPolicy \<Rightarrow> dbus_string \<Rightarrow> bool" where
  "bus_client_policy_check_can_own policy service_name =
     check_can_own_loop (own_rule_applies service_name) policy False"

section \<open>The last applicable rule decides\<close>

text \<open>The reference: the rules that apply, the last of them, "no" without one.\<close>

definition last_decision :: "bool \<Rightarrow> (BusPolicyRule \<Rightarrow> bool) \<Rightarrow> BusPolicyRule list \<Rightarrow> bool" where
  "last_decision def applies rules =
     (if filter applies rules = [] then def else rule_allow (last (filter applies rules)))"

lemma last_decision_Nil [simp]: "last_decision def applies [] = def"
  by (simp add: last_decision_def)

lemma last_decision_append:
  "last_decision def applies (xs @ ys) = last_decision (last_decision def applies xs) applies ys"
  by (simp add: last_decision_def)

lemma last_decision_Cons:
  "last_decision def applies (r # rs) =
     last_decision (if applies r then rule_allow r else def) applies rs"
  by (simp add: last_decision_def)

lemma last_decision_mono:
  "(def \<longrightarrow> def') \<Longrightarrow> last_decision def applies rules \<Longrightarrow> last_decision def' applies rules"
  by (auto simp: last_decision_def split: if_splits)

lemma check_can_send_loop_last:
  "check_can_send_loop applies rules allowed toggles lg =
     (last_decision allowed applies rules, toggles + length (filter applies rules),
      if filter applies rules = [] then lg else rule_log (rule_d (last (filter applies rules))))"
  by (induction rules arbitrary: allowed toggles lg) (auto simp: last_decision_Cons)

lemma check_can_receive_loop_last:
  "check_can_receive_loop applies rules allowed toggles =
     (last_decision allowed applies rules, toggles + length (filter applies rules))"
  by (induction rules arbitrary: allowed toggles) (auto simp: last_decision_Cons)

lemma check_can_own_loop_last:
  "check_can_own_loop applies rules allowed = last_decision allowed applies rules"
  by (induction rules arbitrary: allowed) (auto simp: last_decision_Cons)

lemma list_allows_user_last:
  "list_allows_user allowed rules u gs =
     last_decision allowed (\<lambda>r. user_rule_applies u gs (rule_d r)) rules"
  by (induction rules arbitrary: allowed) (auto simp: last_decision_Cons)

lemmas decision_last =
  check_can_send_loop_last check_can_receive_loop_last check_can_own_loop_last list_allows_user_last

section \<open>What the optimisation preserves\<close>

text \<open>
  A kind of decision: which rules apply, all of them of one type.  When every
  blanket rule of that type applies, dropping the rules before a blanket rule
  changes nothing; in general it can only withdraw a permission.
\<close>

locale decision =
  fixes applies :: "BusPolicyRule \<Rightarrow> bool" and ty :: BusPolicyRuleType
  assumes applies_type: "applies r \<Longrightarrow> rule_type r = ty"
begin

lemma filter_remove_other: "ty' \<noteq> ty \<Longrightarrow> filter applies (remove_rules_by_type ty' rs) = filter applies rs"
  using applies_type by (auto simp: remove_rules_by_type_def intro!: filter_cong)

lemma filter_remove_same: "filter applies (remove_rules_by_type ty rs) = []"
  using applies_type by (auto simp: remove_rules_by_type_def filter_empty_conv)

lemma remove_withdraws:
  "last_decision False applies (remove_rules_by_type ty' rs) \<Longrightarrow> last_decision False applies rs"
  by (cases "ty' = ty") (auto simp: last_decision_def filter_remove_other filter_remove_same)

lemma optimize_loop_withdraws:
  "last_decision False applies (optimize_loop earlier rs) \<Longrightarrow> last_decision False applies (earlier @ rs)"
proof (induction rs arbitrary: earlier)
  case (Cons r rs)
  let ?earlier = "if remove_preceding (rule_d r) then remove_rules_by_type (rule_type r) earlier else earlier"
  have "last_decision False applies ((?earlier @ [r]) @ rs)"
    by (rule Cons.IH) (use Cons.prems in simp)
  then have "last_decision (last_decision False applies ?earlier) applies (r # rs)"
    by (simp add: last_decision_append last_decision_Cons)
  then have "last_decision (last_decision False applies earlier) applies (r # rs)"
    by (rule last_decision_mono [rotated]) (auto intro: remove_withdraws split: if_splits)
  then show ?case
    by (simp add: last_decision_append)
qed simp

lemma optimize_withdraws:
  "last_decision False applies (bus_client_policy_optimize rs) \<Longrightarrow> last_decision False applies rs"
  using optimize_loop_withdraws [of "[]"] by (simp add: bus_client_policy_optimize_def)

end

locale blanket_decision = decision +
  assumes blanket_applies: "rule_type r = ty \<Longrightarrow> remove_preceding (rule_d r) \<Longrightarrow> applies r"
begin

lemma optimize_loop_exact:
  "last_decision False applies (optimize_loop earlier rs) = last_decision False applies (earlier @ rs)"
proof (induction rs arbitrary: earlier)
  case (Cons r rs)
  show ?case
  proof (cases "remove_preceding (rule_d r) \<and> rule_type r = ty")
    case True
    then have "applies r"
      by (simp add: blanket_applies)
    then show ?thesis
      using Cons True by (simp add: last_decision_append last_decision_Cons)
  next
    case False
    then show ?thesis
      using Cons by (auto simp: last_decision_def filter_remove_other)
  qed
qed simp

lemma optimize_exact:
  "last_decision False applies (bus_client_policy_optimize rs) = last_decision False applies rs"
  using optimize_loop_exact [of "[]"] by (simp add: bus_client_policy_optimize_def)

end

interpretation own_decision: blanket_decision "own_rule_applies service_name" BUS_POLICY_RULE_OWN
  for service_name
  by unfold_locales
    (auto simp: own_rule_applies_def rule_type_def split: policy_rule_data.splits option.splits)

interpretation send_decision: decision "send_rule_applies reg requested_reply receiver m" BUS_POLICY_RULE_SEND
  for reg requested_reply receiver m
  by unfold_locales (auto simp: send_rule_applies_def rule_type_def split: policy_rule_data.splits)

interpretation receive_decision:
  decision "receive_rule_applies reg requested_reply sender eavesdropping m" BUS_POLICY_RULE_RECEIVE
  for reg requested_reply sender eavesdropping m
  by unfold_locales (auto simp: receive_rule_applies_def rule_type_def split: policy_rule_data.splits)


lemma blanket_send_decision:
  "msg_reply_serial m = 0 \<Longrightarrow>
   blanket_decision (send_rule_applies reg requested_reply receiver m) BUS_POLICY_RULE_SEND"
  by unfold_locales
    (auto simp: send_rule_applies_def rule_type_def is_blanket_match_def type_differs_def reply_skips_def
      fields_skip_def field_differs_def interface_skips_def destination_skips_def
      split: policy_rule_data.splits)

section \<open>Collecting the rules of a client\<close>

lemma add_list_to_client_eq: "add_list_to_client rs client = client @ filter is_per_client rs"
  by (induction rs arbitrary: client) (auto simp: bus_client_policy_append_rule_def)

lemma add_group_rules_eq:
  "add_group_rules hash gs client = client @ filter is_per_client (concat (map (get_list hash) gs))"
  by (induction gs arbitrary: client) (auto simp: add_list_to_client_eq get_list_def split: option.split)

text \<open>The rules of a client before the optimisation, in their order.\<close>

definition collected_rules ::
  "user_database \<Rightarrow> BusPolicy \<Rightarrow> uid option \<Rightarrow> client_policy_error + BusPolicyRule list" where
  "collected_rules db p unix_user =
     (case unix_user of
        None \<Rightarrow> Inr (default_rules p @ mandatory_rules p)
      | Some u \<Rightarrow>
          (case (if rules_by_gid p = [] then Some [] else groups_from_uid db u) of
             None \<Rightarrow> Inl GROUPS_UNKNOWN
           | Some gs \<Rightarrow>
               (case user_is_at_console db u of
                  None \<Rightarrow> Inl CONSOLE_ERROR
                | Some at_console \<Rightarrow>
                    Inr (default_rules p @ concat (map (get_list (rules_by_gid p)) gs) @
                         get_list (rules_by_uid p) u @
                         (if at_console then at_console_true_rules p else at_console_false_rules p) @
                         mandatory_rules p))))"

lemma create_client_policy_collected:
  "bus_policy_create_client_policy db p unix_user =
     (case collected_rules db p unix_user of
        Inl e \<Rightarrow> Inl e
      | Inr rs \<Rightarrow> Inr (bus_client_policy_optimize (filter is_per_client rs)))"
  by (auto simp: bus_policy_create_client_policy_def collected_rules_def Let_def add_list_to_client_eq
      add_group_rules_eq bus_connection_get_unix_groups_def get_list_def
      split: option.split bool.split)

lemma collected_rules_mandatory:
  "collected_rules db p unix_user = Inr rs \<Longrightarrow> \<exists>rs'. rs = rs' @ mandatory_rules p"
  by (auto simp: collected_rules_def split: option.splits if_splits)

lemma set_optimize_loop: "set (optimize_loop before rs) \<subseteq> set before \<union> set rs"
proof (induction rs arbitrary: before)
  case (Cons r rs)
  show ?case
    using Cons [of "(if remove_preceding (rule_d r) then remove_rules_by_type (rule_type r) before
                     else before) @ [r]"]
    by (auto simp: remove_rules_by_type_def split: if_splits)
qed simp

lemma client_rules_per_client:
  "bus_policy_create_client_policy db p unix_user = Inr client \<Longrightarrow> list_all is_per_client client"
  using set_optimize_loop [of "[]"]
  by (fastforce simp: create_client_policy_collected bus_client_policy_optimize_def list_all_iff
      split: sum.splits)

lemma filter_applies_per_client:
  assumes "\<And>r. applies r \<Longrightarrow> is_per_client r"
  shows "filter applies (filter is_per_client rs) = filter applies rs"
  using assms by (auto intro: filter_cong)

lemma last_decision_suffix:
  "filter applies ys \<noteq> [] \<Longrightarrow> last_decision def applies (xs @ ys) = rule_allow (last (filter applies ys))"
  by (simp add: last_decision_def)

section \<open>Merging\<close>

lemma get_list_update:
  "get_list (AList.update k l hash) k' = (if k' = k then l else get_list hash k')"
  by (simp add: get_list_def update_conv')

lemma get_list_merge:
  "distinct (map fst q) \<Longrightarrow> get_list (merge_id_hash p q) k = get_list p k @ get_list q k"
proof (induction q arbitrary: p)
  case (Cons kl q)
  obtain key l where [simp]: "kl = (key, l)"
    by (cases kl)
  have "key \<notin> fst ` set q"
    using Cons.prems by simp
  then have "get_list q key = []"
    by (simp add: get_list_def map_of_eq_None_iff [THEN iffD2])
  then show ?case
    using Cons by (auto simp: get_list_update) (auto simp: get_list_def)
qed (simp add: get_list_def)

lemmas decision_eval_simps =
  message_builder_defs bus_client_policy_optimize_def new_match_def is_blanket_match_def
  remove_rules_by_type_def rule_type_def bus_client_policy_check_can_send_def
  bus_client_policy_check_can_receive_def send_rule_applies_def receive_rule_applies_def type_differs_def
  reply_skips_def fields_skip_def field_differs_def interface_skips_def destination_skips_def
  origin_skips_def eavesdrop_skips_def is_eavesdropping_def message_type_defs Let_def

section \<open>Properties\<close>

text \<open>C22: The send check goes through the rules in the order of the configuration file;
  its result is the verdict of the last send rule that applies to the message, "no" if no rule applies,
  and it reports the number of rules that applied and the log flag of the last of them.\<close>

theorem check_can_send_last_rule:
  "bus_client_policy_check_can_send policy reg requested_reply receiver m lg =
     (let used = filter (send_rule_applies reg requested_reply receiver m) policy
      in if used = [] then (False, 0, lg)
         else (rule_allow (last used), length used, rule_log (rule_d (last used))))"
  by (simp add: bus_client_policy_check_can_send_def decision_last last_decision_def Let_def)

text \<open>C23: Whether a connection may be used by a Unix user: the last user or group rule that
  matches among the default rules followed by the mandatory rules decides; without one only the user
  the bus runs as is admitted, and a user whose groups cannot be read is refused.\<close>

theorem allow_unix_user_last_rule:
  "bus_policy_allow_unix_user db p u =
     (case groups_from_uid db u of
        None \<Rightarrow> False
      | Some gs \<Rightarrow>
          last_decision (user_is_process_owner db u) (\<lambda>r. user_rule_applies u gs (rule_d r))
            (default_rules p @ mandatory_rules p))"
  by (auto simp: bus_policy_allow_unix_user_def decision_last last_decision_append split: option.split)

text \<open>C24: The optimisation of a client policy never changes a decision about owning a name.\<close>

theorem optimize_own_exact:
  "bus_client_policy_check_can_own (bus_client_policy_optimize policy) service_name =
     bus_client_policy_check_can_own policy service_name"
  by (simp add: bus_client_policy_check_can_own_def decision_last own_decision.optimize_exact)

text \<open>C25: The optimisation of a client policy never changes the decision about sending a message
  that is not a reply.\<close>

theorem optimize_send_exact:
  assumes "msg_reply_serial m = 0"
  shows "fst (bus_client_policy_check_can_send (bus_client_policy_optimize policy) reg requested_reply receiver m lg) =
         fst (bus_client_policy_check_can_send policy reg requested_reply receiver m lg)"
  using blanket_decision.optimize_exact [OF blanket_send_decision [OF assms]]
  by (simp add: bus_client_policy_check_can_send_def decision_last)

theorem optimize_send_exact_witness:
  "let m = dbus_message_new_signal (str ''/a'') (str ''a.b'') (str ''c'');
       policy = [bus_policy_rule_new BUS_POLICY_RULE_SEND False, bus_policy_rule_new BUS_POLICY_RULE_SEND True]
   in fst (bus_client_policy_check_can_send (bus_client_policy_optimize policy) (\<lambda>_. None) False None m False) =
      fst (bus_client_policy_check_can_send policy (\<lambda>_. None) False None m False) \<and>
      length (bus_client_policy_optimize policy) = 1"
  unfolding Let_def
  by (intro conjI optimize_send_exact)
    (simp_all add: message_builder_defs bus_client_policy_optimize_def new_match_def is_blanket_match_def
      remove_rules_by_type_def rule_type_def)

text \<open>C26: For replies and for receiving, the optimisation can only withdraw permissions: what the
  optimised policy lets a client send or receive, the policy before the optimisation does as well.\<close>

theorem optimize_only_withdraws:
  "(fst (bus_client_policy_check_can_send (bus_client_policy_optimize policy) reg requested_reply receiver m lg) \<longrightarrow>
      fst (bus_client_policy_check_can_send policy reg requested_reply receiver m lg)) \<and>
   (fst (bus_client_policy_check_can_receive (bus_client_policy_optimize policy) reg requested_reply sender
           addressed proposed m) \<longrightarrow>
      fst (bus_client_policy_check_can_receive policy reg requested_reply sender addressed proposed m))"
  by (auto simp: bus_client_policy_check_can_send_def bus_client_policy_check_can_receive_def decision_last
      intro: send_decision.optimize_withdraws receive_decision.optimize_withdraws)

theorem optimize_only_withdraws_witness:
  "let m = dbus_message_new_signal (str ''/a'') (str ''a.b'') (str ''c'');
       policy = [bus_policy_rule_new BUS_POLICY_RULE_SEND True, bus_policy_rule_new BUS_POLICY_RULE_RECEIVE True]
   in fst (bus_client_policy_check_can_send policy (\<lambda>_. None) False None m False) \<and>
      fst (bus_client_policy_check_can_receive policy (\<lambda>_. None) False None None None m)"
  using optimize_only_withdraws
    [of "[bus_policy_rule_new BUS_POLICY_RULE_SEND True, bus_policy_rule_new BUS_POLICY_RULE_RECEIVE True]"
        "\<lambda>_. None" False None "dbus_message_new_signal (str ''/a'') (str ''a.b'') (str ''c'')" False None None None]
  by (simp add: decision_eval_simps)


text \<open>C28: Mandatory rules come last: when a mandatory rule applies to a name, the last such rule
  decides who may own it, whatever the default, group, user and console rules say.\<close>

theorem mandatory_rules_override:
  assumes "bus_policy_create_client_policy db p unix_user = Inr client"
    and "filter (own_rule_applies service_name) (mandatory_rules p) \<noteq> []"
  shows "bus_client_policy_check_can_own client service_name =
         rule_allow (last (filter (own_rule_applies service_name) (mandatory_rules p)))"
proof -
  obtain rs where collected: "collected_rules db p unix_user = Inr (rs @ mandatory_rules p)"
    and client: "client = bus_client_policy_optimize (filter is_per_client (rs @ mandatory_rules p))"
    using assms(1) collected_rules_mandatory by (fastforce simp: create_client_policy_collected split: sum.splits)
  have "filter (own_rule_applies service_name) (filter is_per_client (rs @ mandatory_rules p)) =
        filter (own_rule_applies service_name) (rs @ mandatory_rules p)"
    by (rule filter_applies_per_client)
      (auto simp: own_rule_applies_def is_per_client_def rule_type_def split: policy_rule_data.splits)
  then have "bus_client_policy_check_can_own client service_name =
        last_decision False (own_rule_applies service_name) (rs @ mandatory_rules p)"
    unfolding client bus_client_policy_check_can_own_def check_can_own_loop_last own_decision.optimize_exact
    by (simp only: last_decision_def)
  then show ?thesis
    using assms(2) by (simp add: last_decision_suffix)
qed

theorem mandatory_rules_override_witness:
  "let p = bus_policy_append_mandatory_rule
             (bus_policy_append_default_rule bus_policy_new (bus_policy_rule_new BUS_POLICY_RULE_OWN True))
             \<lparr> rule_allow = False, rule_d = OwnData (Some (str ''a.b'')) \<rparr>
   in \<exists>client. bus_policy_create_client_policy
                 \<lparr> groups_from_uid = \<lambda>_. Some [], user_is_at_console = \<lambda>_. Some False,
                   user_is_process_owner = \<lambda>_. False \<rparr> p (Some 7) = Inr client \<and>
               \<not> bus_client_policy_check_can_own client (str ''a.b'')"
  unfolding Let_def
  by (rule exI, rule conjI, (simp add: create_client_policy_collected collected_rules_def bus_policy_new_def
        bus_policy_append_mandatory_rule_def bus_policy_append_default_rule_def; fail),
      subst mandatory_rules_override
        [where db = "\<lparr> groups_from_uid = \<lambda>_. Some [], user_is_at_console = \<lambda>_. Some False,
                       user_is_process_owner = \<lambda>_. False \<rparr>"
          and p = "bus_policy_append_mandatory_rule
             (bus_policy_append_default_rule bus_policy_new (bus_policy_rule_new BUS_POLICY_RULE_OWN True))
             \<lparr> rule_allow = False, rule_d = OwnData (Some (str ''a.b'')) \<rparr>"
          and unix_user = "Some 7"])
    (simp_all add: create_client_policy_collected collected_rules_def bus_policy_new_def
      bus_policy_append_mandatory_rule_def bus_policy_append_default_rule_def own_rule_applies_def)

text \<open>Merging an included configuration appends its rules to the lists they belong to; the list
  of every user and of every group is extended in the same way.\<close>

theorem bus_policy_merge_appends:
  assumes "distinct (map fst (rules_by_uid q))" and "distinct (map fst (rules_by_gid q))"
  shows "default_rules (bus_policy_merge p q) = default_rules p @ default_rules q \<and>
         mandatory_rules (bus_policy_merge p q) = mandatory_rules p @ mandatory_rules q \<and>
         get_list (rules_by_uid (bus_policy_merge p q)) u =
           get_list (rules_by_uid p) u @ get_list (rules_by_uid q) u \<and>
         get_list (rules_by_gid (bus_policy_merge p q)) g =
           get_list (rules_by_gid p) g @ get_list (rules_by_gid q) g"
  using assms by (simp add: bus_policy_merge_def get_list_merge)

theorem bus_policy_merge_appends_witness:
  "let r = bus_policy_rule_new BUS_POLICY_RULE_OWN True;
       q = bus_policy_append_user_rule bus_policy_new 5 r
   in get_list (rules_by_uid (bus_policy_merge q q)) 5 = [r, r]"
  using bus_policy_merge_appends
    [of "bus_policy_append_user_rule bus_policy_new 5 (bus_policy_rule_new BUS_POLICY_RULE_OWN True)"
        "bus_policy_append_user_rule bus_policy_new 5 (bus_policy_rule_new BUS_POLICY_RULE_OWN True)" 5 0]
  by (simp add: bus_policy_append_user_rule_def bus_policy_new_def get_list_def)

end
