(* ===== verification/Dbus_String.thy ===== *)
theory Dbus_String
  imports Dbus_Prelude
begin

text \<open>
  The string library (src/dbus/dbus-string.c, the number functions of
  dbus-sysdeps.c): searching, splitting at blanks, hexadecimal coding, ASCII and
  UTF-8 validation, numbers.  A \<open>DBusString\<close> is the list of its bytes; a position
  is a \<open>nat\<close>.  A function of the library that only fails when memory is short is
  modelled by its result; callers that handle the failure take it as a branch of
  their own.  An assertion that does not hold is the value \<open>None\<close>.
\<close>

section \<open>Searching\<close>

definition DBUS_IS_ASCII_BLANK :: "byte \<Rightarrow> bool" where
  "DBUS_IS_ASCII_BLANK c \<longleftrightarrow> c = 32 \<or> c = 9"

definition DBUS_IS_ASCII_WHITE :: "byte \<Rightarrow> bool" where
  "DBUS_IS_ASCII_WHITE c \<longleftrightarrow> c = 32 \<or> c = 9 \<or> c = 10 \<or> c = 13"

definition DBUS_ISASCII :: "byte \<Rightarrow> bool" where
  "DBUS_ISASCII c \<longleftrightarrow> c \<noteq> 0 \<and> c AND NOT 0x7f = 0"

text \<open>
  \<open>find_from i s sub\<close> is the loop of \<open>_dbus_string_find_to\<close> at position \<open>i\<close>, where
  \<open>s\<close> are the bytes from there to the end of the range: the inner loop compares
  \<open>sub\<close> with the bytes at hand and succeeds when \<open>sub\<close> is used up.
\<close>

fun starts_with :: "'a list \<Rightarrow> 'a list \<Rightarrow> bool" where
  "starts_with s [] = True"
| "starts_with [] (c # cs) = False"
| "starts_with (b # bs) (c # cs) = (b = c \<and> starts_with bs cs)"

fun find_from :: "nat \<Rightarrow> dbus_string \<Rightarrow> dbus_string \<Rightarrow> nat option" where
  "find_from i [] sub = None"
| "find_from i (b # bs) sub = (if starts_with (b # bs) sub then Some i else find_from (Suc i) bs sub)"

definition dbus_string_find_to :: "dbus_string \<Rightarrow> nat \<Rightarrow> nat \<Rightarrow> dbus_string \<Rightarrow> nat option" where
  "dbus_string_find_to s start end_pos sub =
     (if sub = [] then Some start else find_from start (str_range s start (end_pos - start)) sub)"

definition dbus_string_find :: "dbus_string \<Rightarrow> nat \<Rightarrow> dbus_string \<Rightarrow> nat option" where
  "dbus_string_find s start sub = dbus_string_find_to s start (length s) sub"

text \<open>\<open>_dbus_string_find_eol\<close> returns the position and the length of the line end.\<close>

fun find_eol_from :: "nat \<Rightarrow> dbus_string \<Rightarrow> (nat \<times> nat) option" where
  "find_eol_from i [] = None"
| "find_eol_from i (b # bs) =
     (if b = 13 then
        (case bs of
           c # _ \<Rightarrow> (if c = 10 then Some (i, 2) else Some (i, 1))
         | [] \<Rightarrow> Some (i, 1))
      else if b = 10 then Some (i, 1)
      else find_eol_from (Suc i) bs)"

definition dbus_string_find_eol :: "dbus_string \<Rightarrow> nat \<Rightarrow> (nat \<times> nat) option" where
  "dbus_string_find_eol s start = find_eol_from start (drop start s)"

definition dbus_string_pop_line :: "dbus_string \<Rightarrow> (dbus_string \<times> dbus_string) option" where
  "dbus_string_pop_line source =
     (case dbus_string_find_eol source 0 of
        None \<Rightarrow> (if length source = 0 then None else Some (source, []))
      | Some (eol, eol_len) \<Rightarrow> Some (take eol source, drop (eol + eol_len) source))"

text \<open>
  \<open>_dbus_string_find_blank\<close> stores the position of the first blank, or the length of
  the string when there is none.
\<close>

definition dbus_string_find_blank :: "dbus_string \<Rightarrow> nat \<Rightarrow> bool \<times> nat" where
  "dbus_string_find_blank s start =
     (let i = start + length (takeWhile (\<lambda>b. \<not> DBUS_IS_ASCII_BLANK b) (drop start s))
      in (i < length s, i))"

text \<open>
  \<open>_dbus_string_skip_blank\<close> skips blanks, but then asserts that no white space follows,
  and white space includes the line ends.
\<close>

definition dbus_string_skip_blank :: "dbus_string \<Rightarrow> nat \<Rightarrow> nat option" where
  "dbus_string_skip_blank s start =
     (let i = start + length (takeWhile DBUS_IS_ASCII_BLANK (drop start s))
      in if i < length s \<and> DBUS_IS_ASCII_WHITE (s ! i) then None else Some i)"

definition dbus_string_skip_white :: "dbus_string \<Rightarrow> nat \<Rightarrow> nat" where
  "dbus_string_skip_white s start = start + length (takeWhile DBUS_IS_ASCII_WHITE (drop start s))"

definition dbus_string_skip_white_reverse :: "dbus_string \<Rightarrow> nat \<Rightarrow> nat" where
  "dbus_string_skip_white_reverse s end_pos =
     end_pos - length (takeWhile DBUS_IS_ASCII_WHITE (rev (take end_pos s)))"

definition dbus_string_chop_white :: "dbus_string \<Rightarrow> dbus_string" where
  "dbus_string_chop_white s =
     (let s' = drop (dbus_string_skip_white s 0) s
      in take (dbus_string_skip_white_reverse s' (length s')) s')"

definition dbus_string_split_on_byte :: "dbus_string \<Rightarrow> byte \<Rightarrow> (dbus_string \<times> dbus_string) option" where
  "dbus_string_split_on_byte source b =
     (case dbus_string_find source 0 [b] of
        None \<Rightarrow> None
      | Some i \<Rightarrow> Some (take i source, drop (i + 1) source))"

definition dbus_string_validate_ascii :: "dbus_string \<Rightarrow> nat \<Rightarrow> nat \<Rightarrow> bool" where
  "dbus_string_validate_ascii s start len =
     (len \<le> length s - start \<and> list_all DBUS_ISASCII (str_range s start len))"

definition dbus_string_validate_nul :: "dbus_string \<Rightarrow> nat \<Rightarrow> nat \<Rightarrow> bool" where
  "dbus_string_validate_nul s start len =
     (len \<le> length s - start \<and> list_all (\<lambda>b. b = 0) (str_range s start len))"

lemma starts_with_iff: "starts_with s sub \<longleftrightarrow> take (length sub) s = sub"
  by (induction s sub rule: starts_with.induct) auto

text \<open>The first line of a buffer does not change when more bytes arrive behind it.\<close>

lemma starts_with_append: "starts_with s sub \<Longrightarrow> starts_with (s @ t) sub"
  by (induction s sub rule: starts_with.induct) auto

lemma starts_with_split: "starts_with s sub \<longleftrightarrow> (\<exists>t. s = sub @ t)"
  by (induction s sub rule: starts_with.induct) auto

lemma find_from_first:
  assumes "sub \<noteq> []"
    and "\<And>j. j < length xs \<Longrightarrow> \<not> starts_with (drop j (xs @ sub @ ys)) sub"
  shows "find_from i (xs @ sub @ ys) sub = Some (i + length xs)"
  using assms(2)
proof (induction xs arbitrary: i)
  case Nil
  then show ?case
    using assms(1) by (cases sub) (auto simp: starts_with_split)
next
  case (Cons x xs)
  have "find_from (Suc i) (xs @ sub @ ys) sub = Some (Suc i + length xs)"
    using Cons.prems [of "Suc _"] by (intro Cons.IH) auto
  then show ?case
    using Cons.prems [of 0] by simp
qed

lemma find_from_SomeD:
  "find_from i s sub = Some k \<Longrightarrow> sub \<noteq> [] \<Longrightarrow> \<exists>ys. i \<le> k \<and> k - i < length s \<and> s = take (k - i) s @ sub @ ys"
proof (induction s arbitrary: i)
  case (Cons b bs)
  show ?case
  proof (cases "starts_with (b # bs) sub")
    case True
    then show ?thesis
      using Cons.prems by (auto simp: starts_with_split)
  next
    case False
    then obtain ys where "Suc i \<le> k" "k - Suc i < length bs" "bs = take (k - Suc i) bs @ sub @ ys"
      using Cons by fastforce
    then show ?thesis
      by (intro exI [of _ ys]) (auto simp: take_Cons' Suc_diff_le)
  qed
qed simp

lemma dbus_string_find_bound:
  assumes "dbus_string_find s 0 sub = Some k" "sub \<noteq> []"
  shows "k + length sub \<le> length s"
proof -
  obtain ys where "k < length s" "s = take k s @ sub @ ys"
    using assms find_from_SomeD [of 0 s sub k] by (auto simp: dbus_string_find_def dbus_string_find_to_def)
  then have "length s = length (take k s) + length sub + length ys"
    by (metis add.assoc length_append)
  then show ?thesis
    using \<open>k < length s\<close> by simp
qed

section \<open>Numbers\<close>

text \<open>
  \<open>strtol\<close> and \<open>strtoul\<close> with base 0: white space, a sign, a prefix \<open>0x\<close>
  (hexadecimal) or \<open>0\<close> (octal), digits.
\<close>

definition digit_value :: "byte \<Rightarrow> nat option" where
  "digit_value c =
     (if 48 \<le> c \<and> c \<le> 57 then Some (unat c - 48)
      else if 97 \<le> c \<and> c \<le> 122 then Some (unat c - 87)
      else if 65 \<le> c \<and> c \<le> 90 then Some (unat c - 55)
      else None)"

definition is_digit_in :: "nat \<Rightarrow> byte \<Rightarrow> bool" where
  "is_digit_in base c \<longleftrightarrow> (case digit_value c of None \<Rightarrow> False | Some d \<Rightarrow> d < base)"

fun digits_value :: "nat \<Rightarrow> nat \<Rightarrow> dbus_string \<Rightarrow> nat" where
  "digits_value base v [] = v"
| "digits_value base v (c # cs) = digits_value base (v * base + the (digit_value c)) cs"

definition is_space :: "byte \<Rightarrow> bool" where
  "is_space c \<longleftrightarrow> c = 32 \<or> (9 \<le> c \<and> c \<le> 13)"

definition strtoul_base :: "dbus_string \<Rightarrow> nat \<times> nat" where
  "strtoul_base s =
     (case s of
        a # b # c # _ \<Rightarrow>
          (if a = 48 \<and> (b = 120 \<or> b = 88) \<and> is_digit_in 16 c then (16, 2)
           else if a = 48 then (8, 0) else (10, 0))
      | a # _ \<Rightarrow> (if a = 48 then (8, 0) else (10, 0))
      | [] \<Rightarrow> (10, 0))"

text \<open>The sign, the digits with their value, and the length read.\<close>

definition scan_number :: "dbus_string \<Rightarrow> bool \<times> dbus_string \<times> nat \<times> nat" where
  "scan_number s =
     (let white = length (takeWhile is_space s);
          s1 = drop white s;
          sign = (case s1 of c # _ \<Rightarrow> (if c = 43 \<or> c = 45 then 1 else 0) | [] \<Rightarrow> 0);
          negative = (case s1 of c # _ \<Rightarrow> c = 45 | [] \<Rightarrow> False);
          s2 = drop sign s1;
          (base, prefix) = strtoul_base s2;
          ds = takeWhile (is_digit_in base) (drop prefix s2)
      in (negative, ds, digits_value base 0 ds, white + sign + prefix + length ds))"

text \<open>
  \<open>_dbus_string_parse_uint\<close>: a negative number is taken modulo the width of
  \<open>unsigned long\<close>, here 64 bits, and an overflow is an error.  The result is the
  number and the length read.
\<close>

definition dbus_string_parse_uint :: "dbus_string \<Rightarrow> (nat \<times> nat) option" where
  "dbus_string_parse_uint s =
     (let (negative, ds, v, len) = scan_number s
      in if ds = [] \<or> 2 ^ 64 \<le> v then None
         else Some (if negative then (2 ^ 64 - v) mod 2 ^ 64 else v, len))"

text \<open>\<open>_dbus_string_parse_int\<close>: the number and the position behind it.\<close>

definition dbus_string_parse_int :: "dbus_string \<Rightarrow> nat \<Rightarrow> (int \<times> nat) option" where
  "dbus_string_parse_int s start =
     (let (negative, ds, v, len) = scan_number (drop start s)
      in if ds = [] \<or> (if negative then 2 ^ 63 < v else 2 ^ 63 \<le> v) then None
         else Some (if negative then - int v else int v, start + len))"

text \<open>Decimal digits of a number.\<close>

fun decimal :: "nat \<Rightarrow> dbus_string" where
  "decimal n = (if n < 10 then [48 + of_nat n] else decimal (n div 10) @ [48 + of_nat (n mod 10)])"

declare decimal.simps [simp del]

text \<open>\<open>_dbus_string_append_int\<close> and \<open>_dbus_string_append_uint\<close>.\<close>

definition dbus_string_append_int :: "dbus_string \<Rightarrow> int \<Rightarrow> dbus_string" where
  "dbus_string_append_int s v = s @ (if v < 0 then 45 # decimal (nat (- v)) else decimal (nat v))"

definition dbus_string_append_uint :: "dbus_string \<Rightarrow> nat \<Rightarrow> dbus_string" where
  "dbus_string_append_uint s v = s @ decimal v"

definition undecimal :: "dbus_string \<Rightarrow> nat" where
  "undecimal = foldl (\<lambda>v b. 10 * v + (unat b - 48)) 0"

lemma unat_digit: "n < 10 \<Longrightarrow> unat (48 + of_nat n :: byte) = 48 + n"
  by (simp add: unat_word_ariths unat_of_nat)

lemma undecimal_decimal: "undecimal (decimal n) = n"
proof (induction n rule: decimal.induct)
  case (1 n)
  then show ?case
    by (subst decimal.simps) (auto simp: undecimal_def unat_digit)
qed

lemma decimal_inject [simp]: "decimal m = decimal n \<longleftrightarrow> m = n"
  by (metis undecimal_decimal)

lemma decimal_digit: "b \<in> set (decimal n) \<Longrightarrow> 48 \<le> unat b \<and> unat b \<le> 57"
proof (induction n rule: decimal.induct)
  case (1 n)
  show ?case
  proof (cases "n < 10")
    case True
    then show ?thesis
      using 1(2) unat_digit [of n] by (simp add: decimal.simps)
  next
    case False
    then have "b \<in> set (decimal (n div 10)) \<or> b = 48 + of_nat (n mod 10)"
      using 1(2) by (subst (asm) decimal.simps) auto
    then show ?thesis
      using 1(1) [OF False] unat_digit [of "n mod 10"] by auto
  qed
qed

lemma decimal_not_Nil [simp]: "decimal n \<noteq> []"
  by (subst decimal.simps) simp

lemma decimal_leading_zero: "decimal n = 48 # ds \<Longrightarrow> n = 0 \<and> ds = []"
proof (induction n arbitrary: ds rule: decimal.induct)
  case (1 n)
  show ?case
  proof (cases "n < 10")
    case True
    then have "(48 + of_nat n :: byte) = 48" "ds = []"
      using 1(2) by (simp_all add: decimal.simps)
    then show ?thesis
      using unat_digit [OF True] by simp
  next
    case False
    then have d: "decimal (n div 10) @ [48 + of_nat (n mod 10)] = 48 # ds"
      using 1(2) by (subst (asm) decimal.simps) simp
    then obtain ds' where "decimal (n div 10) = 48 # ds'"
      by (cases "decimal (n div 10)") auto
    then show ?thesis
      using 1(1) [OF False] False by auto
  qed
qed

definition is_decimal_digit :: "byte \<Rightarrow> bool" where
  "is_decimal_digit b \<longleftrightarrow> 48 \<le> unat b \<and> unat b \<le> 57"

lemma decimal_digits: "list_all is_decimal_digit (decimal n)"
  using decimal_digit by (auto simp: list_all_iff is_decimal_digit_def)

lemma digit_value_decimal: "is_decimal_digit b \<Longrightarrow> digit_value b = Some (unat b - 48)"
  by (simp add: digit_value_def is_decimal_digit_def word_le_nat_alt)

lemma is_digit_in_10: "is_digit_in 10 = is_decimal_digit"
  by (rule ext) (auto simp: is_digit_in_def digit_value_def is_decimal_digit_def word_le_nat_alt)

lemma digits_value_decimal:
  "list_all is_decimal_digit ds \<Longrightarrow> digits_value 10 v ds = foldl (\<lambda>v b. 10 * v + (unat b - 48)) v ds"
  by (induction ds arbitrary: v) (auto simp: digit_value_decimal algebra_simps)

lemma takeWhile_digits:
  assumes "list_all P ds" "rest = [] \<or> \<not> P (hd rest)"
  shows "takeWhile P (ds @ rest) = ds"
  using assms by (cases rest) (auto simp: list_all_iff takeWhile_append2)

text \<open>What \<open>strtol\<close> reads back of a printed number that is not followed by a letter or digit.\<close>

lemma scan_decimal:
  assumes "rest = [] \<or> digit_value (hd rest) = None"
  shows "scan_number (decimal n @ rest) = (False, decimal n, n, length (decimal n))"
proof -
  obtain d ds where d: "decimal n = d # ds"
    by (meson decimal_not_Nil list.exhaust)
  then have digit: "is_decimal_digit d" "list_all is_decimal_digit ds"
    using decimal_digits [of n] by simp_all
  then have d1: "\<not> is_space d" "d \<noteq> 43" "d \<noteq> 45" "d \<noteq> 48 \<or> n = 0 \<and> ds = []"
    using d decimal_leading_zero [of n ds] by (auto simp: is_decimal_digit_def is_space_def word_le_nat_alt)
  have rest: "rest = [] \<or> \<not> is_digit_in b (hd rest)" for b
    using assms by (auto simp: is_digit_in_def)
  have val: "digits_value 10 0 (decimal n) = n"
    using undecimal_decimal [of n] digits_value_decimal [OF decimal_digits, of 0 n] by (simp add: undecimal_def)
  show ?thesis
  proof (cases "d = 48")
    case True
    then have n: "n = 0" "ds = []"
      using d1(4) by auto
    have "strtoul_base (48 # rest) = (8, 0)"
      using rest [of 16] assms by (auto simp: strtoul_base_def digit_value_def word_le_nat_alt split: list.splits if_splits)
    moreover have "takeWhile (is_digit_in 8) (48 # rest) = [48]"
      using rest [of 8] by (cases rest) (auto simp: is_digit_in_def digit_value_def)
    ultimately show ?thesis
      using n d d1 True by (simp add: scan_number_def digit_value_def)
  next
    case False
    have "strtoul_base (d # ds @ rest) = (10, 0)"
      using False by (auto simp: strtoul_base_def split: list.splits)
    moreover have "takeWhile (is_digit_in 10) (decimal n @ rest) = decimal n"
      using rest [of 10] decimal_digits [of n]
      by (intro takeWhile_digits) (simp_all add: is_digit_in_10)
    moreover have "takeWhile is_space (d # ds @ rest) = []"
      using d1 by simp
    ultimately show ?thesis
      using d d1 val by (simp add: scan_number_def Let_def del: takeWhile.simps)
  qed
qed

lemma parse_int_append_int:
  assumes "0 \<le> v" "v < 2 ^ 63" "rest = [] \<or> digit_value (hd rest) = None"
  shows "dbus_string_parse_int (s @ dbus_string_append_int [] v @ rest) (length s)
         = Some (v, length s + length (dbus_string_append_int [] v))"
  using assms scan_decimal [OF assms(3), of "nat v"]
  by (simp add: dbus_string_parse_int_def dbus_string_append_int_def)

section \<open>Hexadecimal coding\<close>

definition hexdigits :: "byte list" where
  "hexdigits = [48, 49, 50, 51, 52, 53, 54, 55, 56, 57, 97, 98, 99, 100, 101, 102]"

definition dbus_string_append_byte_as_hex :: "dbus_string \<Rightarrow> byte \<Rightarrow> dbus_string" where
  "dbus_string_append_byte_as_hex s b =
     s @ [hexdigits ! unat (drop_bit 4 b), hexdigits ! unat (b AND 0x0f)]"

fun hex_encode_loop :: "dbus_string \<Rightarrow> dbus_string \<Rightarrow> dbus_string" where
  "hex_encode_loop result [] = result"
| "hex_encode_loop result (p # ps) = hex_encode_loop (dbus_string_append_byte_as_hex result p) ps"

text \<open>\<open>_dbus_string_hex_encode\<close>: the text that is inserted into the destination.\<close>

definition dbus_string_hex_encode :: "dbus_string \<Rightarrow> nat \<Rightarrow> dbus_string" where
  "dbus_string_hex_encode source start = hex_encode_loop [] (drop start source)"

definition hex_value :: "byte \<Rightarrow> byte option" where
  "hex_value c =
     (if 48 \<le> c \<and> c \<le> 57 then Some (c - 48)
      else if 97 \<le> c \<and> c \<le> 102 then Some (c - 97 + 10)
      else if 65 \<le> c \<and> c \<le> 70 then Some (c - 65 + 10)
      else None)"

text \<open>
  The loop of \<open>_dbus_string_hex_decode\<close>: a high digit appends a byte, a low digit
  is or-ed into the last byte, any other byte ends the loop.  It returns the bytes
  and the number of digits read.
\<close>

fun hex_decode_loop :: "bool \<Rightarrow> dbus_string \<Rightarrow> nat \<Rightarrow> dbus_string \<Rightarrow> dbus_string \<times> nat" where
  "hex_decode_loop high_bits result n [] = (result, n)"
| "hex_decode_loop high_bits result n (p # ps) =
     (case hex_value p of
        None \<Rightarrow> (result, n)
      | Some val \<Rightarrow>
          hex_decode_loop (\<not> high_bits)
            (if high_bits then result @ [push_bit 4 val] else butlast result @ [last result OR val])
            (Suc n) ps)"

definition dbus_string_hex_decode :: "dbus_string \<Rightarrow> nat \<Rightarrow> dbus_string \<times> nat" where
  "dbus_string_hex_decode source start =
     (let (result, n) = hex_decode_loop True [] 0 (drop start source) in (result, start + n))"

definition hex_byte :: "byte \<Rightarrow> dbus_string" where
  "hex_byte b = [hexdigits ! unat (drop_bit 4 b), hexdigits ! unat (b AND 0x0f)]"

lemma hex_encode_loop_eq: "hex_encode_loop result ps = result @ concat (map hex_byte ps)"
  by (induction result ps rule: hex_encode_loop.induct)
    (auto simp: dbus_string_append_byte_as_hex_def hex_byte_def)

lemma dbus_string_hex_encode_eq: "dbus_string_hex_encode s 0 = concat (map hex_byte s)"
  by (simp add: dbus_string_hex_encode_def hex_encode_loop_eq)

lemma length_hex_encode [simp]: "length (dbus_string_hex_encode s 0) = 2 * length s"
  unfolding dbus_string_hex_encode_eq by (induction s) (auto simp: hex_byte_def)

definition hex_digit_ok :: "nat \<Rightarrow> bool" where
  "hex_digit_ok n \<longleftrightarrow>
     hex_value (hexdigits ! n) = Some (of_nat n) \<and> DBUS_ISASCII (hexdigits ! n) \<and> \<not> DBUS_IS_ASCII_WHITE (hexdigits ! n)"

lemma hex_digit_ok: "n < 16 \<Longrightarrow> hex_digit_ok n"
proof -
  have "list_all hex_digit_ok [0..<16]"
    by code_simp
  then show "n < 16 \<Longrightarrow> hex_digit_ok n"
    by (auto simp: list_all_iff)
qed

lemma nibbles: "push_bit 4 (drop_bit 4 b) OR (b AND 0x0f) = b" for b :: byte
proof -
  have "b AND 0x0f = take_bit 4 b"
    by (simp add: take_bit_eq_mask mask_eq_exp_minus_1)
  then show ?thesis
    by (auto intro!: bit_eqI simp: bit_simps)
qed

lemma unat_nibbles: "unat (drop_bit 4 b) < 16" "unat (b AND 0x0f) < 16" for b :: byte
proof -
  have "unat (drop_bit 4 b) = unat b div 16"
    by (simp add: drop_bit_eq_div unat_div)
  then show "unat (drop_bit 4 b) < 16"
    using unsigned_less [of b, where ?'a = nat] by simp
  have "b AND 0x0f = take_bit 4 b"
    by (simp add: take_bit_eq_mask mask_eq_exp_minus_1)
  then show "unat (b AND 0x0f) < 16"
    by (simp add: take_bit_eq_mod unat_mod)
qed

lemma hex_byte_digits:
  obtains h l x y where "hex_byte b = [h, l]" "hex_value h = Some x" "hex_value l = Some y"
    "push_bit 4 x OR y = b" "DBUS_ISASCII h" "DBUS_ISASCII l" "\<not> DBUS_IS_ASCII_WHITE h" "\<not> DBUS_IS_ASCII_WHITE l"
  using hex_digit_ok [OF unat_nibbles(1) [of b]] hex_digit_ok [OF unat_nibbles(2) [of b]] nibbles [of b]
  by (auto simp: hex_digit_ok_def hex_byte_def)

lemma hex_decode_loop_encode:
  "hex_decode_loop True result n (concat (map hex_byte ps) @ ts)
   = hex_decode_loop True (result @ ps) (n + 2 * length ps) ts"
proof (induction ps arbitrary: result n)
  case (Cons p ps)
  obtain h l x y where "hex_byte p = [h, l]" "hex_value h = Some x" "hex_value l = Some y" "push_bit 4 x OR y = p"
    by (rule hex_byte_digits)
  then show ?case
    using Cons [of "result @ [p]" "Suc (Suc n)"] by simp
qed simp

lemma hex_decode_encode: "dbus_string_hex_decode (dbus_string_hex_encode s 0) 0 = (s, 2 * length s)"
  using hex_decode_loop_encode [of "[]" 0 s "[]"]
  by (simp add: dbus_string_hex_decode_def dbus_string_hex_encode_eq)

lemma hex_encode_bytes:
  assumes "b \<in> set (dbus_string_hex_encode s 0)"
  shows "DBUS_ISASCII b \<and> \<not> DBUS_IS_ASCII_WHITE b"
proof -
  obtain p where "b \<in> set (hex_byte p)"
    using assms by (auto simp: dbus_string_hex_encode_eq)
  then show ?thesis
    by (cases rule: hex_byte_digits [of p]) auto
qed

lemma hex_decode_loop_length: "hex_decode_loop h result n ps = (r, n') \<Longrightarrow> n \<le> n' \<and> n' \<le> n + length ps"
  by (induction h result n ps rule: hex_decode_loop.induct) (auto split: option.splits)

section \<open>UTF-8\<close>

text \<open>\<open>UTF8_COMPUTE\<close>: mask and length of the character that starts with a byte.\<close>

definition UTF8_COMPUTE :: "byte \<Rightarrow> 32 word \<times> nat" where
  "UTF8_COMPUTE c =
     (if c < 128 then (0x7f, 1)
      else if c AND 0xe0 = 0xc0 then (0x1f, 2)
      else if c AND 0xf0 = 0xe0 then (0x0f, 3)
      else if c AND 0xf8 = 0xf0 then (0x07, 4)
      else if c AND 0xfc = 0xf8 then (0x03, 5)
      else if c AND 0xfe = 0xfc then (0x01, 6)
      else (0, 0))"

definition UTF8_LENGTH :: "32 word \<Rightarrow> nat" where
  "UTF8_LENGTH c =
     (if c < 0x80 then 1 else if c < 0x800 then 2 else if c < 0x10000 then 3
      else if c < 0x200000 then 4 else if c < 0x4000000 then 5 else 6)"

fun utf8_get_loop :: "32 word \<Rightarrow> byte list \<Rightarrow> 32 word" where
  "utf8_get_loop result [] = result"
| "utf8_get_loop result (c # cs) =
     (if c AND 0xc0 \<noteq> 0x80 then - 1 else utf8_get_loop (push_bit 6 result OR ucast (c AND 0x3f)) cs)"

text \<open>\<open>UTF8_GET\<close> on the bytes of one character.\<close>

definition UTF8_GET :: "byte list \<Rightarrow> 32 word \<Rightarrow> 32 word" where
  "UTF8_GET chars msk = utf8_get_loop (ucast (hd chars) AND msk) (tl chars)"

definition UNICODE_VALID :: "32 word \<Rightarrow> bool" where
  "UNICODE_VALID c \<longleftrightarrow> c < 0x110000 \<and> c AND 0xFFFFF800 \<noteq> 0xD800 \<and> (c < 0xFDD0 \<or> 0xFDEF < c) \<and> c AND 0xFFFF \<noteq> 0xFFFF"

text \<open>The loop of \<open>_dbus_string_validate_utf8\<close>; leaving it early means that \<open>p\<close> is not \<open>end\<close>.\<close>

function utf8_loop :: "byte list \<Rightarrow> bool" where
  "utf8_loop [] = True"
| "utf8_loop (p # ps) =
     (if p = 0 then False
      else if p < 128 then utf8_loop ps
      else let (msk, char_len) = UTF8_COMPUTE p in
        if char_len = 0 then False
        else if length (p # ps) < char_len then False
        else let result = UTF8_GET (take char_len (p # ps)) msk in
          if UTF8_LENGTH result \<noteq> char_len then False
          else if \<not> UNICODE_VALID result then False
          else utf8_loop (drop char_len (p # ps)))"
  by pat_completeness auto

termination utf8_loop
  by (relation "measure length") auto

definition dbus_string_validate_utf8 :: "dbus_string \<Rightarrow> nat \<Rightarrow> nat \<Rightarrow> bool" where
  "dbus_string_validate_utf8 s start len =
     (len \<le> length s - start \<and> utf8_loop (str_range s start len))"

text \<open>\<open>_dbus_string_append_unichar\<close>: the bytes appended for a character.\<close>

fun unichar_tail :: "nat \<Rightarrow> 32 word \<Rightarrow> byte list \<Rightarrow> 32 word \<times> byte list" where
  "unichar_tail 0 c out = (c, out)"
| "unichar_tail (Suc i) c out = unichar_tail i (drop_bit 6 c) (ucast ((c AND 0x3f) OR 0x80) # out)"

definition unichar_first :: "nat \<Rightarrow> 32 word" where
  "unichar_first len =
     (if len = 1 then 0 else if len = 2 then 0xc0 else if len = 3 then 0xe0
      else if len = 4 then 0xf0 else if len = 5 then 0xf8 else 0xfc)"

definition dbus_string_append_unichar :: "dbus_string \<Rightarrow> 32 word \<Rightarrow> dbus_string" where
  "dbus_string_append_unichar s c =
     (let len = UTF8_LENGTH c;
          (c', out) = unichar_tail (len - 1) c []
      in s @ ucast (c' OR unichar_first len) # out)"

subsection \<open>What the validator accepts\<close>

definition unichar_bytes :: "32 word \<Rightarrow> byte list" where
  "unichar_bytes c = dbus_string_append_unichar [] c"

lemma low_bits: "c AND 0x3f = take_bit 6 c" for c :: "'a :: len word"
  by (simp add: take_bit_eq_mask mask_eq_exp_minus_1)

lemma split_low_bits: "push_bit 6 (drop_bit 6 c) OR take_bit 6 c = c" for c :: "32 word"
  by (auto intro!: bit_eqI simp: bit_simps)

definition cont_byte :: "32 word \<Rightarrow> byte" where
  "cont_byte c = ucast ((c AND 0x3f) OR 0x80)"

lemma bit_c0: "bit (0xc0 :: byte) n \<longleftrightarrow> n = 6 \<or> n = 7"
proof -
  have "bit (0xc0 :: byte) n = bit (push_bit 6 (mask 2 :: byte)) n"
    by (simp add: mask_eq_exp_minus_1)
  also have "\<dots> \<longleftrightarrow> n = 6 \<or> n = 7"
    unfolding bit_push_bit_iff bit_mask_iff possible_bit_word by auto
  finally show ?thesis .
qed
lemma bit_0x80: "bit (0x80 :: 'a :: len word) n \<longleftrightarrow> n = 7 \<and> 7 < LENGTH('a)"
proof -
  have "bit (0x80 :: 'a :: len word) n = bit (push_bit 7 (1 :: 'a word)) n" by simp
  also have "\<dots> \<longleftrightarrow> n = 7 \<and> 7 < LENGTH('a)"
    unfolding bit_push_bit_iff bit_1_iff possible_bit_word by auto
  finally show ?thesis .
qed
lemma bit_cont_byte: "bit (cont_byte c) n \<longleftrightarrow> n < 6 \<and> bit c n \<or> n = 7"
  unfolding cont_byte_def low_bits bit_unsigned_iff bit_or_iff bit_take_bit_iff bit_0x80 possible_bit_word by auto
lemma cont_byte_props:
  "cont_byte c AND 0xc0 = 0x80" "ucast (cont_byte c AND 0x3f) = take_bit 6 c"
proof -
  show "cont_byte c AND 0xc0 = 0x80"
    by (rule bit_eqI, simp only: bit_and_iff bit_c0 bit_0x80 bit_cont_byte) auto
  show "ucast (cont_byte c AND 0x3f) = take_bit 6 c"
    by (rule bit_eqI) (auto simp add: low_bits bit_unsigned_iff bit_take_bit_iff bit_cont_byte)
qed
lemma cont_byte_inverse: "b AND 0xc0 = 0x80 \<Longrightarrow> cont_byte (ucast (b AND 0x3f)) = b"
proof (rule bit_eqI)
  fix n
  assume *: "b AND 0xc0 = 0x80" and "possible_bit TYPE(8 word) n"
  then have "bit (b AND 0xc0) n = bit (0x80 :: byte) n" "n < 8" by (simp_all add: possible_bit_word)
  then have "n = 6 \<or> n = 7 \<Longrightarrow> bit b n \<longleftrightarrow> n = 7"
    by (simp only: bit_and_iff bit_c0 bit_0x80) auto
  then show "bit (cont_byte (ucast (b AND 0x3f))) n = bit b n"
    using \<open>n < 8\<close> by (cases "n < 6"; cases "n = 6") (auto simp: bit_cont_byte low_bits bit_unsigned_iff bit_take_bit_iff)
qed
lemma get_tail:
  "(case unichar_tail k c out of (c', out') \<Rightarrow> utf8_get_loop c' out') = utf8_get_loop c out"
proof (induction k c out rule: unichar_tail.induct)
  case (2 i c out)
  have "utf8_get_loop (drop_bit 6 c) (cont_byte c # out) = utf8_get_loop c out"
    by (simp add: cont_byte_props split_low_bits)
  with 2 show ?case
    by (simp add: cont_byte_def)
qed simp

lemma get_loop_append:
  "list_all (\<lambda>b. b AND 0xc0 = 0x80) cs \<Longrightarrow>
   utf8_get_loop x (cs @ [b]) = (if b AND 0xc0 \<noteq> 0x80 then - 1 else push_bit 6 (utf8_get_loop x cs) OR ucast (b AND 0x3f))"
  by (induction cs arbitrary: x) auto

lemma get_loop_continuation: "utf8_get_loop x cs \<noteq> - 1 \<Longrightarrow> list_all (\<lambda>b. b AND 0xc0 = 0x80) cs"
  by (induction x cs rule: utf8_get_loop.induct) (auto split: if_splits)

lemma append_bits:
  fixes x y :: "32 word"
  assumes "take_bit k x = x" "take_bit 6 y = y" "k + 6 \<le> 32"
  shows "take_bit (k + 6) (push_bit 6 x OR y) = push_bit 6 x OR y"
    "drop_bit 6 (push_bit 6 x OR y) = x" "take_bit 6 (push_bit 6 x OR y) = y"
proof -
  have x: "bit x n \<Longrightarrow> n < k" for n
    using assms(1) by (metis bit_take_bit_iff)
  have y: "bit y n \<Longrightarrow> n < 6" for n
    using assms(2) by (metis bit_take_bit_iff)
  show "take_bit (k + 6) (push_bit 6 x OR y) = push_bit 6 x OR y"
    by (rule bit_eqI) (use assms(3) in \<open>auto simp: bit_simps dest: x y\<close>)
  show "drop_bit 6 (push_bit 6 x OR y) = x"
    by (rule bit_eqI) (use assms(3) in \<open>auto simp: bit_simps dest: x y\<close>)
  show "take_bit 6 (push_bit 6 x OR y) = y"
    by (rule bit_eqI) (use assms(3) in \<open>auto simp: bit_simps dest: x y\<close>)
qed

lemma ucast_low_bits: "take_bit 6 (ucast (b AND 0x3f) :: 32 word) = ucast (b AND 0x3f)" for b :: byte
  by (auto intro!: bit_eqI simp: low_bits bit_simps)

lemma tail_get:
  "list_all (\<lambda>b. b AND 0xc0 = 0x80) cs \<Longrightarrow> take_bit k x = x \<Longrightarrow> k + 6 * length cs \<le> 32 \<Longrightarrow>
   unichar_tail (length cs) (utf8_get_loop x cs) out = (x, cs @ out)
   \<and> take_bit (k + 6 * length cs) (utf8_get_loop x cs) = utf8_get_loop x cs"
proof (induction cs arbitrary: out rule: rev_induct)
  case (snoc b cs)
  let ?r = "utf8_get_loop x cs" and ?y = "ucast (b AND 0x3f) :: 32 word"
  have r: "take_bit (k + 6 * length cs) ?r = ?r" "unichar_tail (length cs) ?r (b # out) = (x, cs @ b # out)"
    using snoc.IH [of "b # out"] snoc.prems by auto
  note bits = append_bits [OF r(1) ucast_low_bits [of b]]
  have "cont_byte (push_bit 6 ?r OR ?y) = b"
    using bits(3) snoc.prems cont_byte_inverse [of b] ucast_low_bits [of b] by (simp add: cont_byte_def low_bits)
  then show ?case
    using snoc.prems bits r by (simp add: get_loop_append cont_byte_def algebra_simps)
qed simp

text \<open>The first bytes, by evaluation: of a character, and of what is read.\<close>

definition first_of :: "nat \<Rightarrow> 32 word \<Rightarrow> byte" where
  "first_of n x = ucast (x OR unichar_first n)"

definition first_written :: "nat \<Rightarrow> nat \<Rightarrow> bool" where
  "first_written n k \<longleftrightarrow>
     (let x = of_nat k; p = first_of n x in
      128 \<le> p \<and> (case UTF8_COMPUTE p of (m, n') \<Rightarrow> n' = n \<and> ucast p AND m = x))"

lemma first_written: "n \<in> {2, 3, 4} \<Longrightarrow> k < 2 ^ (7 - n) \<Longrightarrow> first_written n k"
proof -
  have "list_all (first_written 2) [0..<32]" "list_all (first_written 3) [0..<16]" "list_all (first_written 4) [0..<8]"
    by code_simp+
  then show "n \<in> {2, 3, 4} \<Longrightarrow> k < 2 ^ (7 - n) \<Longrightarrow> first_written n k"
    by (auto simp: list_all_iff)
qed

definition first_read :: "nat \<Rightarrow> bool" where
  "first_read k \<longleftrightarrow>
     (let p = of_nat k in
      case UTF8_COMPUTE p of
        (m, n) \<Rightarrow> n \<in> set [2, 3, 4] \<longrightarrow>
          first_of n (ucast p AND m) = p \<and> take_bit (7 - n) (ucast p AND m) = ucast p AND m)"

lemma first_read: "128 \<le> p \<Longrightarrow> first_read (unat p)" for p :: byte
proof -
  assume "128 \<le> p"
  then have "128 \<le> unat p" "unat p < 256"
    using unsigned_less [of p, where ?'a = nat] by (simp_all add: word_le_nat_alt)
  moreover have "list_all first_read [128..<256]"
    by code_simp
  then have "\<forall>k \<in> {128..<256}. first_read k"
    unfolding list_all_iff set_upt .
  ultimately show ?thesis
    by (metis atLeastLessThan_iff)
qed

lemma UTF8_LENGTH_cases:
  "UTF8_LENGTH c = 1 \<longleftrightarrow> unat c < 0x80" "UTF8_LENGTH c = 2 \<Longrightarrow> unat c < 0x800"
  "UTF8_LENGTH c = 3 \<Longrightarrow> unat c < 0x10000" "UTF8_LENGTH c = 4 \<Longrightarrow> unat c < 0x200000"
  "UNICODE_VALID c \<Longrightarrow> UTF8_LENGTH c \<in> {1, 2, 3, 4}"
  by (auto simp: UTF8_LENGTH_def UNICODE_VALID_def word_less_nat_alt split: if_splits)

lemma unichar_tail_drop:
  "fst (unichar_tail k c out) = drop_bit (6 * k) c \<and> length (snd (unichar_tail k c out)) = k + length out"
  by (induction k c out rule: unichar_tail.induct) (auto simp: algebra_simps)

lemma unichar_bytes_eq:
  assumes "UTF8_LENGTH c = n" "n \<in> {2, 3, 4}"
  obtains k out where "unichar_bytes c = first_of n (of_nat k) # out" "k < 2 ^ (7 - n)" "length out = n - 1"
    "utf8_get_loop (of_nat k) out = c"
proof -
  obtain c' out where t: "unichar_tail (n - 1) c [] = (c', out)"
    by fastforce
  have c': "c' = drop_bit (6 * (n - 1)) c" "length out = n - 1"
    using unichar_tail_drop [of "n - 1" c "[]"] t by auto
  have "unat c' = unat c div 2 ^ (6 * (n - 1))"
    unfolding c' unat_drop_bit_eq by (simp add: drop_bit_eq_div)
  then have "unat c' < 2 ^ (7 - n)"
    using assms UTF8_LENGTH_cases(2-4) [of c] by (auto simp: less_mult_imp_div_less)
  moreover have "utf8_get_loop c' out = c"
    using get_tail [of "n - 1" c "[]"] t by simp
  ultimately show ?thesis
    using t c'(2) assms(1) that [of "unat c'" out]
    by (simp add: unichar_bytes_def dbus_string_append_unichar_def first_of_def)
qed

lemma utf8_loop_char:
  assumes "UNICODE_VALID c" "c \<noteq> 0"
  shows "utf8_loop (unichar_bytes c @ ps) = utf8_loop ps"
proof (cases "UTF8_LENGTH c = 1")
  case True
  then have c: "unichar_bytes c = [ucast c]" "unat c < 128"
    using UTF8_LENGTH_cases(1) [of c]
    by (simp_all add: unichar_bytes_def dbus_string_append_unichar_def unichar_first_def)
  then have "unat (ucast c :: byte) = unat c"
    by (simp add: unsigned_ucast_eq take_bit_nat_eq_self)
  moreover have "unat c \<noteq> 0"
    using assms(2) by (simp add: unat_eq_0)
  ultimately have "(ucast c :: byte) \<noteq> 0" "(ucast c :: byte) < 128"
    using c(2) by (auto simp: word_less_nat_alt unat_eq_0 simp flip: unat_eq_0)
  then show ?thesis
    using c by simp
next
  case False
  then obtain n where n: "UTF8_LENGTH c = n" "n \<in> {2, 3, 4}"
    using UTF8_LENGTH_cases(5) assms(1) by blast
  then obtain k out where k: "unichar_bytes c = first_of n (of_nat k) # out" "k < 2 ^ (7 - n)"
    "length out = n - 1" "utf8_get_loop (of_nat k) out = c"
    by (rule unichar_bytes_eq)
  let ?p = "first_of n (of_nat k)"
  have "first_written n k"
    using n k by (intro first_written)
  then obtain m where "128 \<le> ?p" "UTF8_COMPUTE ?p = (m, n)" "ucast ?p AND m = of_nat k"
    by (auto simp: first_written_def Let_def split: prod.splits)
  moreover from this have "?p \<noteq> 0" "\<not> ?p < 128"
    by auto
  moreover have "take n (?p # out @ ps) = ?p # out" "drop n (?p # out @ ps) = ps" "n \<noteq> 0" "\<not> length (?p # out @ ps) < n"
    using n(2) k(3) by auto
  ultimately show ?thesis
    using n(1) k assms(1) by (simp add: UTF8_GET_def Let_def)
qed

lemma utf8_loop_chars:
  "\<forall>c \<in> set cs. UNICODE_VALID c \<and> c \<noteq> 0 \<Longrightarrow> utf8_loop (concat (map unichar_bytes cs))"
  by (induction cs) (auto simp: utf8_loop_char)

lemma utf8_char_read:
  assumes "128 \<le> p" "UTF8_COMPUTE p = (m, n)" "n \<noteq> 0" "length ps = n - 1"
    and "UTF8_GET (p # ps) m = r" "UTF8_LENGTH r = n" "UNICODE_VALID r"
  shows "unichar_bytes r = p # ps \<and> r \<noteq> 0"
proof -
  have n: "n \<in> {2, 3, 4}"
    using assms UTF8_LENGTH_cases(5) [of r] by (auto simp: UTF8_COMPUTE_def split: if_splits)
  have first: "first_of n (ucast p AND m) = p" "take_bit (7 - n) (ucast p AND m) = ucast p AND m"
    using first_read [OF assms(1)] assms(2) n by (auto simp: first_read_def)
  have r: "utf8_get_loop (ucast p AND m) ps = r" "r \<noteq> - 1"
    using assms(5,7) by (auto simp: UTF8_GET_def UNICODE_VALID_def)
  then have "unichar_tail (length ps) r [] = (ucast p AND m, ps)"
    using tail_get [OF get_loop_continuation [of "ucast p AND m" ps] first(2), of "[]"] n assms(4) by fastforce
  moreover have "r \<noteq> 0"
    using assms(6) n by (auto simp: UTF8_LENGTH_def)
  ultimately show ?thesis
    using first(1) assms(4,6) by (simp add: unichar_bytes_def dbus_string_append_unichar_def first_of_def)
qed

lemma ascii_char:
  assumes "p < 128" "p \<noteq> 0"
  shows "unichar_bytes (ucast p) = [p] \<and> UNICODE_VALID (ucast p) \<and> (ucast p :: 32 word) \<noteq> 0"
proof -
  let ?c = "ucast p :: 32 word"
  have "unat ?c = unat p" "unat p \<noteq> 0"
    using assms(2) unsigned_less [of p, where ?'a = nat]
    by (simp_all add: unsigned_ucast_eq take_bit_nat_eq_self unsigned_eq_0_iff)
  then have c: "unat ?c < 128" "?c \<noteq> 0"
    using assms(1) by (auto simp: word_less_nat_alt)
  have "?c AND 0xFFFFF800 \<le> ?c" "?c AND 0xFFFF \<le> ?c"
    by (simp_all add: word_and_le2)
  then have "?c AND 0xFFFFF800 \<noteq> 0xD800 \<and> ?c AND 0xFFFF \<noteq> 0xFFFF"
    using c(1) by (auto simp: word_le_nat_alt)
  then have "UNICODE_VALID ?c"
    using c(1) by (auto simp: UNICODE_VALID_def word_less_nat_alt)
  moreover have "UTF8_LENGTH ?c = 1"
    using c UTF8_LENGTH_cases(1) [of ?c] by blast
  moreover have "(ucast ?c :: byte) = p"
    by (rule bit_eqI) (auto simp: bit_simps)
  ultimately show ?thesis
    using c(2) by (simp add: unichar_bytes_def dbus_string_append_unichar_def unichar_first_def)
qed

lemma utf8_loop_reads:
  "utf8_loop s \<Longrightarrow> \<exists>cs. (\<forall>c \<in> set cs. UNICODE_VALID c \<and> c \<noteq> 0) \<and> s = concat (map unichar_bytes cs)"
proof (induction s rule: utf8_loop.induct)
  case 1
  then show ?case
    by (intro exI [of _ "[]"]) simp
next
  case (2 p ps)
  have "p \<noteq> 0"
    using 2 by auto
  have "\<exists>c ts cs. UNICODE_VALID c \<and> c \<noteq> 0 \<and> p # ps = unichar_bytes c @ ts
      \<and> (\<forall>c \<in> set cs. UNICODE_VALID c \<and> c \<noteq> 0) \<and> ts = concat (map unichar_bytes cs)"
  proof (cases "p < 128")
    case True
    then have "utf8_loop ps"
      using 2 \<open>p \<noteq> 0\<close> by simp
    then show ?thesis
      using 2(1) ascii_char [OF True \<open>p \<noteq> 0\<close>] True \<open>p \<noteq> 0\<close> by (metis append_Cons append_Nil)
  next
    case False
    obtain m n where mn: "UTF8_COMPUTE p = (m, n)"
      by fastforce
    let ?r = "UTF8_GET (take n (p # ps)) m"
    have g: "n \<noteq> 0" "\<not> length (p # ps) < n" "UTF8_LENGTH ?r = n" "UNICODE_VALID ?r"
      and rest: "utf8_loop (drop n (p # ps))"
      using 2(3) \<open>p \<noteq> 0\<close> False mn by (auto simp: Let_def simp del: length_Cons split: if_splits)
    have tk: "take n (p # ps) = p # take (n - 1) ps" "length (take (n - 1) ps) = n - 1"
      using g by (simp_all add: take_Cons')
    have "unichar_bytes ?r = p # take (n - 1) ps \<and> ?r \<noteq> 0"
      using utf8_char_read [OF _ mn g(1) tk(2)] g False unfolding tk(1) by (simp add: not_less)
    moreover from this have "p # ps = unichar_bytes ?r @ drop n (p # ps)"
      using tk(1) by (metis append_take_drop_id)
    moreover have "\<exists>cs. (\<forall>c \<in> set cs. UNICODE_VALID c \<and> c \<noteq> 0) \<and> drop n (p # ps) = concat (map unichar_bytes cs)"
      using 2(2) [OF \<open>p \<noteq> 0\<close> False mn [symmetric] refl g(1) g(2) refl] g rest by simp
    ultimately show ?thesis
      using g(4) by blast
  qed
  then obtain c ts cs where "UNICODE_VALID c" "c \<noteq> 0" "p # ps = unichar_bytes c @ ts"
    "\<forall>c \<in> set cs. UNICODE_VALID c \<and> c \<noteq> 0" "ts = concat (map unichar_bytes cs)"
    by blast
  then show ?case
    by (intro exI [of _ "c # cs"]) simp
qed

text \<open>
  C36: \<open>_dbus_string_validate_utf8\<close> accepts exactly the ranges that lie in the string and
  are the UTF-8 encodings of sequences of Unicode scalar values that are not the
  null character, not surrogates and not noncharacters; in particular overlong
  encodings, truncated characters and values from 0x110000 on are refused.
\<close>

theorem dbus_string_validate_utf8_iff:
  "dbus_string_validate_utf8 s start len \<longleftrightarrow>
     len \<le> length s - start \<and>
     (\<exists>cs. list_all (\<lambda>c. UNICODE_VALID c \<and> c \<noteq> 0) cs \<and> str_range s start len = concat (map unichar_bytes cs))"
  unfolding dbus_string_validate_utf8_def list_all_iff
  using utf8_loop_reads [of "str_range s start len"] utf8_loop_chars by metis

end
