(* ===== verification/Bus_Match.thy ===== *)
theory Bus_Match
  imports Bus_Policy Dbus_Names Dbus_String "HOL-Library.Sublist"
begin

text \<open>
  Match rules (src/bus/signals.c): the text of a rule is cut into tokens
  \<open>key='value'\<close> with shell-like quoting, the tokens are turned into a rule, and
  a rule is compared with messages.

  A component of a rule is \<open>Some\<close> exactly when the source has set its
  \<open>BUS_MATCH_*\<close> flag.  An argument slot pairs the expected string with the
  \<open>BUS_MATCH_ARG_IS_PATH\<close> bit of \<open>arg_lens\<close>; the rest of \<open>arg_lens\<close> is the length
  of the string.  Allocation is taken to succeed in this theory.
\<close>

section \<open>Rules\<close>

record BusMatchRule =
  matches_go_to :: conn
  br_message_type :: "nat option"
  br_interface :: "dbus_string option"
  br_member :: "dbus_string option"
  br_sender :: "dbus_string option"
  br_destination :: "dbus_string option"
  br_path :: "dbus_string option"
  br_args :: "(dbus_string \<times> bool) option list"

definition bus_match_rule_new :: "conn \<Rightarrow> BusMatchRule" where
  "bus_match_rule_new c =
     \<lparr> matches_go_to = c, br_message_type = None, br_interface = None, br_member = None,
       br_sender = None, br_destination = None, br_path = None, br_args = [] \<rparr>"

definition bus_match_rule_set_arg :: "BusMatchRule \<Rightarrow> nat \<Rightarrow> dbus_string \<Rightarrow> bool \<Rightarrow> BusMatchRule" where
  "bus_match_rule_set_arg rule arg value is_path =
     rule \<lparr> br_args := (br_args rule @ replicate (arg + 1 - length (br_args rule)) None)
                         [arg := Some (value, is_path)] \<rparr>"

section \<open>Tokens\<close>

datatype match_error = MATCH_RULE_INVALID | MATCH_LIMITS_EXCEEDED

text \<open>The characters with a meaning in the text of a rule.\<close>

abbreviation EQUALS_CHAR :: byte where "EQUALS_CHAR \<equiv> 61"
abbreviation COMMA_CHAR :: byte where "COMMA_CHAR \<equiv> 44"
abbreviation QUOTE_CHAR :: byte where "QUOTE_CHAR \<equiv> 39"
abbreviation BACKSLASH_CHAR :: byte where "BACKSLASH_CHAR \<equiv> 92"
abbreviation SLASH_CHAR :: byte where "SLASH_CHAR \<equiv> 47"
abbreviation COLON_CHAR :: byte where "COLON_CHAR \<equiv> 58"

definition ISWHITE :: "byte \<Rightarrow> bool" where
  "ISWHITE c \<longleftrightarrow> c = 32 \<or> c = 9 \<or> c = 10 \<or> c = 13"

definition is_key_char :: "byte \<Rightarrow> bool" where
  "is_key_char c \<longleftrightarrow> c \<noteq> 0 \<and> c \<noteq> EQUALS_CHAR \<and> \<not> ISWHITE c"

text \<open>
  A position in the text is the list of the bytes from there on; the text ends
  at its terminating NUL byte.  \<open>find_key\<close> returns the key and the position of
  the value; the key is empty at the end of the text, after trailing white
  space, and also in front of a stray '='.
\<close>

definition find_key :: "dbus_string \<Rightarrow> match_error + dbus_string \<times> dbus_string" where
  "find_key s =
     (let p = dropWhile ISWHITE s;
          key = takeWhile is_key_char p;
          q = dropWhile ISWHITE (dropWhile is_key_char p)
      in if key = [] then Inr ([], q)
         else case q of
                [] \<Rightarrow> Inl MATCH_RULE_INVALID
              | c # q' \<Rightarrow> if c \<noteq> EQUALS_CHAR then Inl MATCH_RULE_INVALID else Inr (key, q'))"

datatype quote_char = NoQuote | Backslash | SingleQuote

fun find_value_end :: "quote_char \<Rightarrow> dbus_string \<Rightarrow> dbus_string \<Rightarrow> match_error + dbus_string \<times> dbus_string" where
  "find_value_end NoQuote value p = Inr (value, p)"
| "find_value_end Backslash value p = Inr (value @ [BACKSLASH_CHAR], p)"
| "find_value_end SingleQuote value p = Inl MATCH_RULE_INVALID"

fun find_value_loop ::
  "quote_char \<Rightarrow> dbus_string \<Rightarrow> dbus_string \<Rightarrow> match_error + dbus_string \<times> dbus_string" where
  "find_value_loop q value [] = find_value_end q value []"
| "find_value_loop q value (c # p) =
     (if c = 0 then find_value_end q value (c # p)
      else case q of
        NoQuote \<Rightarrow>
          (if c = QUOTE_CHAR then find_value_loop SingleQuote value p
           else if c = COMMA_CHAR then Inr (value, p)
           else if c = BACKSLASH_CHAR then find_value_loop Backslash value p
           else find_value_loop NoQuote (value @ [c]) p)
      | Backslash \<Rightarrow>
          find_value_loop NoQuote (value @ (if c \<noteq> QUOTE_CHAR then [BACKSLASH_CHAR] else []) @ [c]) p
      | SingleQuote \<Rightarrow>
          (if c = QUOTE_CHAR then find_value_loop NoQuote value p
           else find_value_loop SingleQuote (value @ [c]) p))"

definition find_value :: "dbus_string \<Rightarrow> match_error + dbus_string \<times> dbus_string" where
  "find_value s = find_value_loop NoQuote [] s"

definition MAX_RULE_TOKENS :: nat where "MAX_RULE_TOKENS = 16"

type_synonym rule_token = "dbus_string \<times> dbus_string"

text \<open>
  \<open>tokenize_loop n s\<close> fills the remaining \<open>n\<close> slots of the token array from the
  text \<open>s\<close>; an empty key leaves its slot empty (\<open>None\<close>).
\<close>

fun tokenize_loop :: "nat \<Rightarrow> dbus_string \<Rightarrow> match_error + rule_token option list" where
  "tokenize_loop 0 s = Inr []"
| "tokenize_loop (Suc n) s =
     (if s = [] then Inr []
      else case find_key s of
             Inl e \<Rightarrow> Inl e
           | Inr (key, s') \<Rightarrow>
               (if key = []
                then (case tokenize_loop n s' of
                        Inl e \<Rightarrow> Inl e
                      | Inr ts \<Rightarrow> Inr (None # ts))
                else (case find_value s' of
                        Inl e \<Rightarrow> Inl e
                      | Inr (value, s'') \<Rightarrow>
                          (case tokenize_loop n s'' of
                             Inl e \<Rightarrow> Inl e
                           | Inr ts \<Rightarrow> Inr (Some (key, value) # ts)))))"

definition tokenize_rule :: "dbus_string \<Rightarrow> match_error + rule_token option list" where
  "tokenize_rule rule_text = tokenize_loop MAX_RULE_TOKENS rule_text"

section \<open>From tokens to a rule\<close>

definition DBUS_MAXIMUM_MATCH_RULE_LENGTH :: nat where "DBUS_MAXIMUM_MATCH_RULE_LENGTH = 1024"
definition DBUS_MAXIMUM_MATCH_RULE_ARG_NUMBER :: nat where "DBUS_MAXIMUM_MATCH_RULE_ARG_NUMBER = 63"

definition ends_with :: "dbus_string \<Rightarrow> dbus_string \<Rightarrow> bool" where
  "ends_with s t \<longleftrightarrow> length t \<le> length s \<and> drop (length s - length t) s = t"

definition bus_match_rule_parse_arg_match ::
  "BusMatchRule \<Rightarrow> dbus_string \<Rightarrow> dbus_string \<Rightarrow> match_error + BusMatchRule" where
  "bus_match_rule_parse_arg_match rule key value =
     (if length key < 4 then Inl MATCH_RULE_INVALID
      else case dbus_string_parse_uint (drop 3 key) of
             None \<Rightarrow> Inl MATCH_RULE_INVALID
           | Some (arg, len) \<Rightarrow>
              (let end_pos = 3 + len in
               if end_pos \<noteq> length key \<and> (end_pos + 4 \<noteq> length key \<or> \<not> ends_with key (str ''path''))
               then Inl MATCH_RULE_INVALID
               else if DBUS_MAXIMUM_MATCH_RULE_ARG_NUMBER < arg then Inl MATCH_RULE_INVALID
               else if arg < length (br_args rule) \<and> br_args rule ! arg \<noteq> None
                    then Inl MATCH_RULE_INVALID
               else Inr (bus_match_rule_set_arg rule arg value (end_pos \<noteq> length key))))"

definition validates :: "(dbus_string \<Rightarrow> nat \<Rightarrow> nat \<Rightarrow> bool) \<Rightarrow> dbus_string \<Rightarrow> bool" where
  "validates validate value = validate value 0 (length value)"

definition bus_match_rule_parse_token ::
  "BusMatchRule \<Rightarrow> rule_token \<Rightarrow> match_error + BusMatchRule" where
  "bus_match_rule_parse_token rule token =
     (let (key, value) = token in
      if key = str ''type'' then
        (if br_message_type rule \<noteq> None then Inl MATCH_RULE_INVALID
         else let t = dbus_message_type_from_string value in
              if t = DBUS_MESSAGE_TYPE_INVALID then Inl MATCH_RULE_INVALID
              else Inr (rule \<lparr> br_message_type := Some t \<rparr>))
      else if key = str ''sender'' then
        (if br_sender rule \<noteq> None \<or> \<not> validates dbus_validate_bus_name value then Inl MATCH_RULE_INVALID
         else Inr (rule \<lparr> br_sender := Some value \<rparr>))
      else if key = str ''interface'' then
        (if br_interface rule \<noteq> None \<or> \<not> validates dbus_validate_interface value then Inl MATCH_RULE_INVALID
         else Inr (rule \<lparr> br_interface := Some value \<rparr>))
      else if key = str ''member'' then
        (if br_member rule \<noteq> None \<or> \<not> validates dbus_validate_member value then Inl MATCH_RULE_INVALID
         else Inr (rule \<lparr> br_member := Some value \<rparr>))
      else if key = str ''path'' then
        (if br_path rule \<noteq> None \<or> \<not> validates dbus_validate_path value then Inl MATCH_RULE_INVALID
         else Inr (rule \<lparr> br_path := Some value \<rparr>))
      else if key = str ''destination'' then
        (if br_destination rule \<noteq> None \<or> \<not> validates dbus_validate_bus_name value then Inl MATCH_RULE_INVALID
         else Inr (rule \<lparr> br_destination := Some value \<rparr>))
      else if take 3 key = str ''arg'' then bus_match_rule_parse_arg_match rule key value
      else Inl MATCH_RULE_INVALID)"

text \<open>The loop over the tokens ends at the first empty slot.\<close>

fun parse_tokens :: "BusMatchRule \<Rightarrow> rule_token option list \<Rightarrow> match_error + BusMatchRule" where
  "parse_tokens rule [] = Inr rule"
| "parse_tokens rule (None # ts) = Inr rule"
| "parse_tokens rule (Some t # ts) =
     (case bus_match_rule_parse_token rule t of
        Inl e \<Rightarrow> Inl e
      | Inr rule' \<Rightarrow> parse_tokens rule' ts)"

definition bus_match_rule_parse :: "conn \<Rightarrow> dbus_string \<Rightarrow> match_error + BusMatchRule" where
  "bus_match_rule_parse c rule_text =
     (if DBUS_MAXIMUM_MATCH_RULE_LENGTH < length rule_text then Inl MATCH_LIMITS_EXCEEDED
      else case tokenize_rule rule_text of
             Inl e \<Rightarrow> Inl e
           | Inr tokens \<Rightarrow> parse_tokens (bus_match_rule_new c) tokens)"


section \<open>Comparing rules and messages\<close>

definition match_rule_equal :: "BusMatchRule \<Rightarrow> BusMatchRule \<Rightarrow> bool" where
  "match_rule_equal a b \<longleftrightarrow>
     matches_go_to a = matches_go_to b \<and> br_message_type a = br_message_type b \<and>
     br_member a = br_member b \<and> br_path a = br_path b \<and> br_interface a = br_interface b \<and>
     br_sender a = br_sender b \<and> br_destination a = br_destination b \<and> br_args a = br_args b"

definition connection_is_primary_owner :: "registry_view \<Rightarrow> conn \<Rightarrow> dbus_string \<Rightarrow> bool" where
  "connection_is_primary_owner reg c service_name \<longleftrightarrow>
     (case reg service_name of
        None \<Rightarrow> False
      | Some owners \<Rightarrow> (case owners of [] \<Rightarrow> False | owner # _ \<Rightarrow> owner = c))"

text \<open>
  The comparison of path arguments looks at the last byte of a string also
  when the string is empty, that is at the byte in front of it in memory; the
  value of that byte is the parameter \<open>oob\<close>.
\<close>

definition last_byte :: "byte \<Rightarrow> dbus_string \<Rightarrow> byte" where
  "last_byte oob s = (if s = [] then oob else last s)"

definition arg_path_matches :: "byte \<Rightarrow> dbus_string \<Rightarrow> dbus_string \<Rightarrow> bool" where
  "arg_path_matches oob actual expected \<longleftrightarrow>
     (if length actual < length expected \<and> last_byte oob actual \<noteq> SLASH_CHAR then False
      else if length expected < length actual \<and> last_byte oob expected \<noteq> SLASH_CHAR then False
      else (let n = min (length actual) (length expected) in take n actual = take n expected))"

fun args_match :: "byte \<Rightarrow> (dbus_string \<times> bool) option list \<Rightarrow> msg_arg list \<Rightarrow> bool" where
  "args_match oob [] args = True"
| "args_match oob (None # es) args = args_match oob es (tl args)"
| "args_match oob (Some (expected, is_path) # es) args =
     (case args of
        StringArg actual # args' \<Rightarrow>
          (if is_path then arg_path_matches oob actual expected else expected = actual) \<and>
          args_match oob es args'
      | _ \<Rightarrow> False)"

definition match_sender :: "registry_view \<Rightarrow> dbus_string option \<Rightarrow> conn option \<Rightarrow> bool" where
  "match_sender reg rule_sender sender =
     (case rule_sender of
        None \<Rightarrow> True
      | Some n \<Rightarrow> (case sender of
                     None \<Rightarrow> n = DBUS_SERVICE_DBUS
                   | Some c \<Rightarrow> connection_is_primary_owner reg c n))"

definition match_destination ::
  "registry_view \<Rightarrow> dbus_string option \<Rightarrow> conn option \<Rightarrow> DBusMessage \<Rightarrow> bool" where
  "match_destination reg rule_destination addressed m =
     (case rule_destination of
        None \<Rightarrow> True
      | Some n \<Rightarrow> msg_destination m \<noteq> None \<and>
                  (case addressed of
                     None \<Rightarrow> n = DBUS_SERVICE_DBUS
                   | Some c \<Rightarrow> connection_is_primary_owner reg c n))"

text \<open>A component of the rule against the field of the message, which must be present.\<close>

definition match_field :: "'a option \<Rightarrow> 'a option \<Rightarrow> bool" where
  "match_field rule_field msg_field = (case rule_field of None \<Rightarrow> True | Some v \<Rightarrow> msg_field = Some v)"

definition match_rule_matches ::
  "byte \<Rightarrow> registry_view \<Rightarrow> BusMatchRule \<Rightarrow> conn option \<Rightarrow> conn option \<Rightarrow> DBusMessage \<Rightarrow> bool" where
  "match_rule_matches oob reg rule sender addressed m =
     (if \<not> match_field (br_message_type rule) (Some (msg_type m)) then False
      else if \<not> match_field (br_interface rule) (msg_interface m) then False
      else if \<not> match_field (br_member rule) (msg_member m) then False
      else if \<not> match_sender reg (br_sender rule) sender then False
      else if \<not> match_destination reg (br_destination rule) addressed m then False
      else if \<not> match_field (br_path rule) (msg_path m) then False
      else args_match oob (br_args rule) (msg_args m))"

section \<open>Lemmas on tokens\<close>

lemma match_rule_equal_eq: "match_rule_equal a b \<longleftrightarrow> a = b"
  by (auto simp: match_rule_equal_def intro: BusMatchRule.equality)

text \<open>The notation the manual describes: every value in single quotes, a quote as \<open>'\''\<close>.\<close>

definition quote_byte :: "byte \<Rightarrow> dbus_string" where
  "quote_byte c = (if c = QUOTE_CHAR then [QUOTE_CHAR, BACKSLASH_CHAR, QUOTE_CHAR, QUOTE_CHAR] else [c])"

definition quote_value :: "dbus_string \<Rightarrow> dbus_string" where
  "quote_value v = QUOTE_CHAR # concat (map quote_byte v) @ [QUOTE_CHAR]"

definition print_token :: "rule_token \<Rightarrow> dbus_string" where
  "print_token t = fst t @ EQUALS_CHAR # quote_value (snd t)"

definition print_tokens :: "rule_token list \<Rightarrow> dbus_string" where
  "print_tokens ts = join COMMA_CHAR (map print_token ts)"

definition wf_token :: "rule_token \<Rightarrow> bool" where
  "wf_token t \<longleftrightarrow> fst t \<noteq> [] \<and> list_all is_key_char (fst t) \<and> list_all (\<lambda>c. c \<noteq> 0) (snd t)"

lemma find_value_loop_quoted:
  "list_all (\<lambda>c. c \<noteq> 0) v \<Longrightarrow>
   find_value_loop SingleQuote acc (concat (map quote_byte v) @ QUOTE_CHAR # rest) =
     find_value_loop NoQuote (acc @ v) rest"
  by (induction v arbitrary: acc) (auto simp: quote_byte_def)

lemma find_value_quoted:
  "list_all (\<lambda>c. c \<noteq> 0) v \<Longrightarrow> find_value (quote_value v) = Inr (v, [])"
  "list_all (\<lambda>c. c \<noteq> 0) v \<Longrightarrow> find_value (quote_value v @ COMMA_CHAR # rest) = Inr (v, rest)"
  by (simp_all add: find_value_def quote_value_def find_value_loop_quoted)

lemma is_key_char_not_white: "is_key_char c \<Longrightarrow> \<not> ISWHITE c"
  by (simp add: is_key_char_def)

lemma is_key_char_EQUALS [simp]: "\<not> is_key_char EQUALS_CHAR"
  by (simp add: is_key_char_def)

lemma ISWHITE_EQUALS [simp]: "\<not> ISWHITE EQUALS_CHAR"
  by (simp add: ISWHITE_def)

lemma find_key_token:
  assumes "key \<noteq> []" and "list_all is_key_char key"
  shows "find_key (key @ EQUALS_CHAR # rest) = Inr (key, rest)"
proof -
  have "dropWhile ISWHITE (key @ EQUALS_CHAR # rest) = key @ EQUALS_CHAR # rest"
    using assms by (cases key) (auto simp: is_key_char_not_white)
  moreover have "takeWhile is_key_char (key @ EQUALS_CHAR # rest) = key"
    "dropWhile is_key_char (key @ EQUALS_CHAR # rest) = EQUALS_CHAR # rest"
    using assms(2) by (auto simp: list_all_iff)
  ultimately show ?thesis
    using assms(1) by (simp add: find_key_def)
qed

lemma print_tokens_Cons:
  "print_tokens ((key, v) # ts) =
     key @ EQUALS_CHAR # (if ts = [] then quote_value v else quote_value v @ COMMA_CHAR # print_tokens ts)"
  by (cases ts) (simp_all add: print_tokens_def print_token_def)

lemma print_tokens_Nil [simp]: "print_tokens [] = []"
  by (simp add: print_tokens_def)

lemma tokenize_loop_print:
  "list_all wf_token ts \<Longrightarrow> tokenize_loop n (print_tokens ts) = Inr (map Some (take n ts))"
proof (induction n arbitrary: ts)
  case (Suc n)
  show ?case
  proof (cases ts)
    case Nil
    then show ?thesis
      by simp
  next
    case (Cons t ts')
    obtain key v where t: "t = (key, v)"
      by (cases t)
    have "wf_token (key, v)" and wf: "list_all wf_token ts'"
      using Suc.prems Cons t by simp_all
    then have "key \<noteq> []" "list_all is_key_char key" "list_all (\<lambda>c. c \<noteq> 0) v"
      by (simp_all add: wf_token_def)
    then show ?thesis
      using Suc.IH [OF wf] Suc.IH [of "[]"]
      by (simp add: Cons t print_tokens_Cons find_key_token find_value_quoted)
  qed
qed simp

section \<open>Parsed rules are well-formed\<close>

definition valid_rule :: "BusMatchRule \<Rightarrow> bool" where
  "valid_rule r \<longleftrightarrow>
     (case br_message_type r of None \<Rightarrow> True | Some t \<Rightarrow> 1 \<le> t \<and> t \<le> 4) \<and>
     (case br_interface r of None \<Rightarrow> True | Some v \<Rightarrow> validates dbus_validate_interface v) \<and>
     (case br_member r of None \<Rightarrow> True | Some v \<Rightarrow> validates dbus_validate_member v) \<and>
     (case br_sender r of None \<Rightarrow> True | Some v \<Rightarrow> validates dbus_validate_bus_name v) \<and>
     (case br_destination r of None \<Rightarrow> True | Some v \<Rightarrow> validates dbus_validate_bus_name v) \<and>
     (case br_path r of None \<Rightarrow> True | Some v \<Rightarrow> validates dbus_validate_path v) \<and>
     length (br_args r) \<le> Suc DBUS_MAXIMUM_MATCH_RULE_ARG_NUMBER"

lemma valid_rule_new: "valid_rule (bus_match_rule_new c)"
  by (simp add: valid_rule_def bus_match_rule_new_def)

lemma message_type_from_string_range:
  "dbus_message_type_from_string s \<noteq> 0 \<Longrightarrow> 1 \<le> dbus_message_type_from_string s"
  "dbus_message_type_from_string s \<le> 4"
  by (auto simp: dbus_message_type_from_string_def message_type_defs)

lemma valid_rule_set_arg:
  "valid_rule r \<Longrightarrow> arg \<le> DBUS_MAXIMUM_MATCH_RULE_ARG_NUMBER \<Longrightarrow>
   valid_rule (bus_match_rule_set_arg r arg v is_path) \<and>
   matches_go_to (bus_match_rule_set_arg r arg v is_path) = matches_go_to r"
  by (cases "Suc arg \<le> length (br_args r)") (simp_all add: valid_rule_def bus_match_rule_set_arg_def)

lemma valid_rule_parse_arg:
  assumes "valid_rule r" and "bus_match_rule_parse_arg_match r key v = Inr r'"
  shows "valid_rule r' \<and> matches_go_to r' = matches_go_to r"
  using assms(2) valid_rule_set_arg [OF assms(1)]
  unfolding bus_match_rule_parse_arg_match_def Let_def
  by (simp del: str_Cons split: if_splits option.splits prod.splits) (metis not_le)

lemma valid_rule_update:
  assumes "valid_rule r"
  shows "1 \<le> t \<Longrightarrow> t \<le> 4 \<Longrightarrow> valid_rule (r \<lparr> br_message_type := Some t \<rparr>)"
    and "validates dbus_validate_interface v \<Longrightarrow> valid_rule (r \<lparr> br_interface := Some v \<rparr>)"
    and "validates dbus_validate_member v \<Longrightarrow> valid_rule (r \<lparr> br_member := Some v \<rparr>)"
    and "validates dbus_validate_bus_name v \<Longrightarrow> valid_rule (r \<lparr> br_sender := Some v \<rparr>)"
    and "validates dbus_validate_bus_name v \<Longrightarrow> valid_rule (r \<lparr> br_destination := Some v \<rparr>)"
    and "validates dbus_validate_path v \<Longrightarrow> valid_rule (r \<lparr> br_path := Some v \<rparr>)"
  using assms by (simp_all add: valid_rule_def)

lemma valid_rule_parse_token:
  assumes "valid_rule r" and "bus_match_rule_parse_token r (key, v) = Inr r'"
  shows "valid_rule r' \<and> matches_go_to r' = matches_go_to r"
  using assms(2) valid_rule_update [OF assms(1)] valid_rule_parse_arg [OF assms(1)]
    message_type_from_string_range [of v]
  unfolding bus_match_rule_parse_token_def Let_def DBUS_MESSAGE_TYPE_INVALID_def
  by (auto split: if_splits simp del: str_Cons)

lemma valid_rule_parse_tokens:
  "valid_rule r \<Longrightarrow> parse_tokens r ts = Inr r' \<Longrightarrow> valid_rule r' \<and> matches_go_to r' = matches_go_to r"
proof (induction r ts rule: parse_tokens.induct)
  case (3 r t ts)
  obtain key v where "t = (key, v)"
    by (cases t)
  with 3 show ?case
    using valid_rule_parse_token by (fastforce split: sum.splits)
qed auto

lemma take_eq_strict_prefix:
  "length xs < length ys \<Longrightarrow> take (length xs) ys = xs \<longleftrightarrow> strict_prefix xs ys"
  by (metis append_eq_conv_conj append_take_drop_id nat_neq_iff prefixE prefixI prefix_order.less_le)

section \<open>Properties\<close>

text \<open>C29: The tokenizer reads back what is written in the documented notation (every value in single
  quotes, a quote inside a value as quote, backslash, quote, quote): it returns the first sixteen
  tokens, and drops any further ones without an error.\<close>

theorem tokenize_print:
  "list_all wf_token ts \<Longrightarrow> tokenize_rule (print_tokens ts) = Inr (map Some (take MAX_RULE_TOKENS ts))"
  by (simp add: tokenize_rule_def tokenize_loop_print)

theorem tokenize_print_witness:
  "tokenize_rule (print_tokens [(str ''arg0'', [97, QUOTE_CHAR, 44]), (str ''type'', str ''signal'')]) =
     Inr [Some (str ''arg0'', [97, QUOTE_CHAR, 44]), Some (str ''type'', str ''signal'')]"
  by (subst tokenize_print) (simp_all add: wf_token_def is_key_char_def ISWHITE_def MAX_RULE_TOKENS_def)

text \<open>C30: A rule that the parser accepts goes to the connection that asked for it and has valid
  components only: a known message type, valid names and paths, argument numbers up to 63.\<close>

theorem parsed_rule_valid:
  "bus_match_rule_parse c rule_text = Inr r \<Longrightarrow> valid_rule r \<and> matches_go_to r = c"
  using valid_rule_parse_tokens [OF valid_rule_new]
  by (auto simp: bus_match_rule_parse_def bus_match_rule_new_def split: if_splits sum.splits)

theorem parsed_rule_valid_witness:
  "\<exists>r. bus_match_rule_parse 3 (str ''member=Foo'') = Inr r \<and> valid_rule r \<and> br_member r = Some (str ''Foo'')"
proof -
  have "bus_match_rule_parse 3 (str ''member=Foo'') = Inr ((bus_match_rule_new 3) \<lparr> br_member := Some (str ''Foo'') \<rparr>)"
    by code_simp
  then show ?thesis
    using parsed_rule_valid by fastforce
qed

text \<open>An argument is matched as a path when it equals the expected one, when the expected one
  ends with a slash and is a proper prefix of it, or the other way round.  This is so provided the
  byte in front of an empty string, which the code reads, is not a slash.\<close>

theorem arg_path_matches_iff:
  assumes "oob \<noteq> SLASH_CHAR"
  shows "arg_path_matches oob actual expected \<longleftrightarrow>
         actual = expected \<or>
         expected \<noteq> [] \<and> last expected = SLASH_CHAR \<and> strict_prefix expected actual \<or>
         actual \<noteq> [] \<and> last actual = SLASH_CHAR \<and> strict_prefix actual expected"
proof -
  consider "length actual = length expected" | "length actual < length expected"
    | "length expected < length actual"
    by linarith
  then show ?thesis
  proof cases
    case 1
    then show ?thesis
      by (auto simp: arg_path_matches_def Let_def dest: prefix_length_less)
  next
    case 2
    then have "take (length actual) expected = actual \<longleftrightarrow> strict_prefix actual expected"
      by (rule take_eq_strict_prefix)
    with 2 show ?thesis
      using assms prefix_length_less [of expected actual]
      by (auto simp: arg_path_matches_def Let_def last_byte_def)
  next
    case 3
    then have "take (length expected) actual = expected \<longleftrightarrow> strict_prefix expected actual"
      by (rule take_eq_strict_prefix)
    with 3 show ?thesis
      using assms prefix_length_less [of actual expected]
      by (auto simp: arg_path_matches_def Let_def last_byte_def)
  qed
qed

theorem arg_path_matches_iff_witness:
  "arg_path_matches 0 (str ''/a/b'') (str ''/a/'') \<and> \<not> arg_path_matches 0 (str ''/ab'') (str ''/a'')"
  by (simp add: arg_path_matches_iff strict_prefix_def)

text \<open>Whether a rule with an empty path argument matches is decided by the byte in front of the
  empty string in memory.\<close>

theorem arg_path_matches_reads_outside:
  "arg_path_matches SLASH_CHAR (str ''/a'') [] \<and> \<not> arg_path_matches 0 (str ''/a'') []"
  by (simp add: arg_path_matches_def last_byte_def)

text \<open>A stray equals sign ends the rule: the text after it is not looked at, and a rule that
  begins with one is accepted as the rule without conditions, which matches every message.\<close>

theorem stray_equals_accepted:
  "bus_match_rule_parse c (str ''=sender=org.a'') = Inr (bus_match_rule_new c) \<and>
   match_rule_matches oob reg (bus_match_rule_new c) sender addressed m"
proof
  have "tokenize_rule (str ''=sender=org.a'') = Inr (replicate MAX_RULE_TOKENS None)"
    by code_simp
  then show "bus_match_rule_parse c (str ''=sender=org.a'') = Inr (bus_match_rule_new c)"
    by (simp add: bus_match_rule_parse_def DBUS_MAXIMUM_MATCH_RULE_LENGTH_def MAX_RULE_TOKENS_def eval_nat_numeral)
  show "match_rule_matches oob reg (bus_match_rule_new c) sender addressed m"
    by (simp add: match_rule_matches_def bus_match_rule_new_def match_field_def match_sender_def
        match_destination_def)
qed

end
