(* ===== verification/Bus_State.thy ===== *)
theory Bus_State
  imports Bus_Match
begin

text \<open>
  The state of the bus daemon and the shape of its operations.

  \<open>BusContext\<close> gathers what the C code keeps in \<open>BusContext\<close>, \<open>BusConnections\<close>,
  \<open>BusRegistry\<close>, \<open>BusMatchmaker\<close>, \<open>BusActivation\<close> and \<open>BusTransaction\<close>
  (src/bus/bus.c, connection.c, services.c, signals.c, activation.c).  Objects
  that several places point to and that are counted, the services and their
  owners, live in pools indexed by address; a dangling address is an address the
  pool does not have.  The daemon works on one transaction at a time
  (connection.c, line 1903), which is part of the state.

  An operation maps a state to a result and a new state; the result is a value
  or an error.  A failing operation keeps the changes it made before it failed:
  undoing them is the business of the cancel hooks of the transaction.

  Allocation: \<open>oom\<close> lists the outcomes of the next attempts to allocate memory
  (\<open>False\<close> is a failure); once the list is used up, memory is available.
  Times are in microseconds.
\<close>

section \<open>Errors\<close>

datatype dbus_error_name =
    DBUS_ERROR_FAILED | DBUS_ERROR_NAME_HAS_NO_OWNER | DBUS_ERROR_LIMITS_EXCEEDED
  | DBUS_ERROR_ACCESS_DENIED | DBUS_ERROR_INVALID_ARGS | DBUS_ERROR_UNKNOWN_METHOD
  | DBUS_ERROR_MATCH_RULE_NOT_FOUND | DBUS_ERROR_MATCH_RULE_INVALID | DBUS_ERROR_NO_REPLY
  | DBUS_ERROR_SERVICE_UNKNOWN | DBUS_ERROR_UNIX_PROCESS_ID_UNKNOWN | DBUS_ERROR_NO_MEMORY
  | DBUS_ERROR_TIMED_OUT | DBUS_ERROR_SPAWN_EXEC_FAILED | DBUS_ERROR_SPAWN_FORK_FAILED
  | DBUS_ERROR_SPAWN_CHILD_EXITED | DBUS_ERROR_SPAWN_CHILD_SIGNALED | DBUS_ERROR_SPAWN_FAILED
  | DBUS_ERROR_SPAWN_SETUP_FAILED | DBUS_ERROR_SPAWN_SERVICE_INVALID | DBUS_ERROR_SPAWN_SERVICE_NOT_FOUND
  | DBUS_ERROR_SPAWN_PERMISSIONS_INVALID | DBUS_ERROR_SPAWN_FILE_INVALID
  | DBUS_ERROR_ADT_AUDIT_DATA_UNKNOWN | DBUS_ERROR_SELINUX_SECURITY_CONTEXT_UNKNOWN

fun error_name_string :: "dbus_error_name \<Rightarrow> dbus_string" where
  "error_name_string DBUS_ERROR_FAILED = str ''org.freedesktop.DBus.Error.Failed''"
| "error_name_string DBUS_ERROR_NAME_HAS_NO_OWNER = str ''org.freedesktop.DBus.Error.NameHasNoOwner''"
| "error_name_string DBUS_ERROR_LIMITS_EXCEEDED = str ''org.freedesktop.DBus.Error.LimitsExceeded''"
| "error_name_string DBUS_ERROR_ACCESS_DENIED = str ''org.freedesktop.DBus.Error.AccessDenied''"
| "error_name_string DBUS_ERROR_INVALID_ARGS = str ''org.freedesktop.DBus.Error.InvalidArgs''"
| "error_name_string DBUS_ERROR_UNKNOWN_METHOD = str ''org.freedesktop.DBus.Error.UnknownMethod''"
| "error_name_string DBUS_ERROR_MATCH_RULE_NOT_FOUND = str ''org.freedesktop.DBus.Error.MatchRuleNotFound''"
| "error_name_string DBUS_ERROR_MATCH_RULE_INVALID = str ''org.freedesktop.DBus.Error.MatchRuleInvalid''"
| "error_name_string DBUS_ERROR_NO_REPLY = str ''org.freedesktop.DBus.Error.NoReply''"
| "error_name_string DBUS_ERROR_SERVICE_UNKNOWN = str ''org.freedesktop.DBus.Error.ServiceUnknown''"
| "error_name_string DBUS_ERROR_UNIX_PROCESS_ID_UNKNOWN = str ''org.freedesktop.DBus.Error.UnixProcessIdUnknown''"
| "error_name_string DBUS_ERROR_NO_MEMORY = str ''org.freedesktop.DBus.Error.NoMemory''"
| "error_name_string DBUS_ERROR_TIMED_OUT = str ''org.freedesktop.DBus.Error.TimedOut''"
| "error_name_string DBUS_ERROR_SPAWN_EXEC_FAILED = str ''org.freedesktop.DBus.Error.Spawn.ExecFailed''"
| "error_name_string DBUS_ERROR_SPAWN_FORK_FAILED = str ''org.freedesktop.DBus.Error.Spawn.ForkFailed''"
| "error_name_string DBUS_ERROR_SPAWN_CHILD_EXITED = str ''org.freedesktop.DBus.Error.Spawn.ChildExited''"
| "error_name_string DBUS_ERROR_SPAWN_CHILD_SIGNALED = str ''org.freedesktop.DBus.Error.Spawn.ChildSignaled''"
| "error_name_string DBUS_ERROR_SPAWN_FAILED = str ''org.freedesktop.DBus.Error.Spawn.Failed''"
| "error_name_string DBUS_ERROR_SPAWN_SETUP_FAILED = str ''org.freedesktop.DBus.Error.Spawn.FailedToSetup''"
| "error_name_string DBUS_ERROR_SPAWN_SERVICE_INVALID = str ''org.freedesktop.DBus.Error.Spawn.ServiceNotValid''"
| "error_name_string DBUS_ERROR_SPAWN_SERVICE_NOT_FOUND = str ''org.freedesktop.DBus.Error.Spawn.ServiceNotFound''"
| "error_name_string DBUS_ERROR_SPAWN_PERMISSIONS_INVALID = str ''org.freedesktop.DBus.Error.Spawn.PermissionsInvalid''"
| "error_name_string DBUS_ERROR_SPAWN_FILE_INVALID = str ''org.freedesktop.DBus.Error.Spawn.FileInvalid''"
| "error_name_string DBUS_ERROR_ADT_AUDIT_DATA_UNKNOWN = str ''org.freedesktop.DBus.Error.AdtAuditDataUnknown''"
| "error_name_string DBUS_ERROR_SELINUX_SECURITY_CONTEXT_UNKNOWN = str ''org.freedesktop.DBus.Error.SELinuxSecurityContextUnknown''"

text \<open>
  \<open>NoMemory\<close> is \<open>BUS_SET_OOM\<close>, \<open>BusError\<close> any other error that is set, and
  \<open>Abort\<close> stands for a failed assertion or the use of a dangling pointer.
\<close>

datatype bus_error = NoMemory | BusError dbus_error_name | Abort

section \<open>State\<close>

type_synonym addr = nat

record BusOwner =
  bo_refcount :: nat
  bo_service :: addr
  bo_conn :: conn
  bo_allow_replacement :: bool
  bo_do_not_queue :: bool

record BusService =
  bs_refcount :: nat
  bs_name :: dbus_string
  bs_owners :: "addr list"

record BusPendingReply =
  pr_addr :: addr
  will_get_reply :: conn
  will_send_reply :: "conn option"
  pr_reply_serial :: "32 word"
  pr_added :: int

record BusPendingActivationEntry =
  pe_message :: DBusMessage
  pe_connection :: conn
  pe_auto_activation :: bool

record BusActivationEntry =
  ae_exec :: dbus_string
  ae_user :: "dbus_string option"

record BusPendingActivation =
  pa_refcount :: nat
  pa_service_name :: dbus_string
  pa_exec :: dbus_string
  pa_entries :: "BusPendingActivationEntry list"
  pa_n_entries :: int
  pa_babysitter :: bool

datatype CancelHook =
    CancelOwnership addr addr \<comment> \<open>owner, service\<close>
  | RestoreOwnership addr addr "addr option" \<comment> \<open>owner, service, the owner to insert it before\<close>
  | CancelPendingReply addr
  | CancelCheckPendingReply BusPendingReply
  | RestorePending addr
  | CancelPending addr

record BusTransaction =
  tr_connections :: "conn list"
  tr_cancel_hooks :: "CancelHook list"

record BusConnectionData =
  cd_name :: "dbus_string option"
  cd_services_owned :: "addr list"
  cd_n_services_owned :: int
  cd_match_rules :: "BusMatchRule list"
  cd_n_match_rules :: int
  cd_transaction_messages :: "DBusMessage list"
  cd_policy :: "BusClientPolicy option"
  cd_stamp :: "32 word"
  cd_unix_user :: "uid option"
  cd_connected :: bool
  cd_outgoing :: "DBusMessage list"
  cd_connect_time :: int
  cd_oom_message :: "DBusMessage option"

record BusLimits =
  auth_timeout :: int
  reply_timeout :: int
  max_outgoing_bytes :: int
  max_completed_connections :: int
  max_incomplete_connections :: int
  max_connections_per_user :: int
  max_pending_activations :: int
  max_services_per_connection :: int
  max_match_rules_per_connection :: int
  max_replies_per_connection :: int

text \<open>
  What the daemon gets from the operating system, from SELinux and from its
  configuration: the byte that precedes a string in memory (see
  \<open>match_rule_matches\<close>); the size of an outgoing queue in bytes; the order in
  which a hash table with a given set of keys is walked; the service file that
  is found for a name and the names for which there are service files; whether
  the child process of a command can be started; the credentials of a
  connection; the type, address, identifier and service helper of the bus; what
  reading the configuration again gives; the environment of the daemon.
\<close>

record bus_env =
  env_users :: user_database
  env_selinux_acquire :: "conn \<Rightarrow> dbus_string \<Rightarrow> bool"
  env_selinux_send :: "conn \<Rightarrow> conn option \<Rightarrow> DBusMessage \<Rightarrow> bool"
  env_process_exists :: "int \<Rightarrow> bool"
  env_oob :: byte
  env_outgoing_size :: "DBusMessage list \<Rightarrow> int"
  env_hash_order :: "(dbus_string \<Rightarrow> bool) \<Rightarrow> dbus_string list"
  env_service_file :: "dbus_string \<Rightarrow> BusActivationEntry option"
  env_activatable :: "dbus_string list"
  env_spawn :: "dbus_string list \<Rightarrow> (dbus_string \<rightharpoonup> dbus_string) \<Rightarrow> dbus_error_name option"
  env_unix_process_id :: "conn \<Rightarrow> 32 word option"
  env_windows_user :: "conn \<Rightarrow> dbus_string option"
  env_adt_audit_data :: "conn \<Rightarrow> byte list option"
  env_selinux_id :: "conn \<Rightarrow> byte list option"
  env_servicehelper :: "dbus_string option"
  env_bus_type :: "dbus_string option"
  env_bus_address :: dbus_string
  env_bus_id :: dbus_string
  env_reload_config :: "dbus_error_name + BusLimits \<times> BusPolicy"
  env_environment :: "dbus_string \<rightharpoonup> dbus_string"

record BusContext =
  env :: bus_env
  oom :: "bool list"
  now :: int
  limits :: BusLimits
  bus_policy :: BusPolicy
  next_addr :: addr
  owner_pool :: "addr \<rightharpoonup> BusOwner"
  service_pool :: "addr \<rightharpoonup> BusService"
  service_hash :: "dbus_string \<rightharpoonup> addr"
  unique_pid_hash :: "dbus_string \<rightharpoonup> int"
  conns :: "conn \<rightharpoonup> BusConnectionData"
  completed :: "conn list"
  n_completed :: int
  incomplete :: "conn list"
  n_incomplete :: int
  completed_by_user :: "uid \<rightharpoonup> int"
  stamp :: "32 word"
  pending_replies :: "BusPendingReply list"
  all_rules :: "BusMatchRule list"
  pending_activations :: "dbus_string \<rightharpoonup> addr"
  pending_pool :: "addr \<rightharpoonup> BusPendingActivation"
  n_pending_activations :: int
  act_environment :: "dbus_string \<rightharpoonup> dbus_string"
  next_major_number :: "32 word"
  next_minor_number :: "32 word"
  transaction :: BusTransaction

section \<open>Operations\<close>

type_synonym 'a bus = "BusContext \<Rightarrow> (bus_error + 'a) \<times> BusContext"

definition returnB :: "'a \<Rightarrow> 'a bus" where
  "returnB x s = (Inr x, s)"

definition raiseB :: "bus_error \<Rightarrow> 'a bus" where
  "raiseB e s = (Inl e, s)"

definition bindB :: "'a bus \<Rightarrow> ('a \<Rightarrow> 'b bus) \<Rightarrow> 'b bus" where
  "bindB m f s = (case m s of (Inl e, s') \<Rightarrow> (Inl e, s') | (Inr x, s') \<Rightarrow> f x s')"

definition thenB :: "'a bus \<Rightarrow> 'b bus \<Rightarrow> 'b bus" where
  "thenB m n = bindB m (\<lambda>_. n)"

definition getsB :: "(BusContext \<Rightarrow> 'a) \<Rightarrow> 'a bus" where
  "getsB f s = (Inr (f s), s)"

definition modifyB :: "(BusContext \<Rightarrow> BusContext) \<Rightarrow> unit bus" where
  "modifyB f s = (Inr (), f s)"

definition whenB :: "bool \<Rightarrow> unit bus \<Rightarrow> unit bus" where
  "whenB b m = (if b then m else returnB ())"

definition unlessB :: "bool \<Rightarrow> bus_error \<Rightarrow> unit bus" where
  "unlessB b e = (if b then returnB () else raiseB e)"

definition assertB :: "bool \<Rightarrow> unit bus" where
  "assertB b = unlessB b Abort"

text \<open>Following a pointer: the object, or \<open>Abort\<close> when there is none.\<close>

definition derefB :: "(BusContext \<Rightarrow> 'a option) \<Rightarrow> 'a bus" where
  "derefB f s = (case f s of None \<Rightarrow> (Inl Abort, s) | Some x \<Rightarrow> (Inr x, s))"

text \<open>The outcome of an operation whose error the caller looks at or ignores.\<close>

definition tryB :: "'a bus \<Rightarrow> (bus_error + 'a) bus" where
  "tryB m s = (case m s of (Inl Abort, s') \<Rightarrow> (Inl Abort, s') | (r, s') \<Rightarrow> (Inr r, s'))"

text \<open>\<open>catchB m h k\<close>: continue with \<open>k\<close>, or with \<open>h\<close> when \<open>m\<close> has set an error.\<close>

definition catchB :: "'a bus \<Rightarrow> (bus_error \<Rightarrow> 'b bus) \<Rightarrow> ('a \<Rightarrow> 'b bus) \<Rightarrow> 'b bus" where
  "catchB m h k = bindB (tryB m) (\<lambda>r. case r of Inl e \<Rightarrow> h e | Inr x \<Rightarrow> k x)"

definition allocB :: "unit bus" where
  "allocB s = (case oom s of
                 [] \<Rightarrow> (Inr (), s)
               | ok # rest \<Rightarrow> (if ok then Inr () else Inl NoMemory, s \<lparr> oom := rest \<rparr>))"

fun foreachB :: "('x \<Rightarrow> unit bus) \<Rightarrow> 'x list \<Rightarrow> unit bus" where
  "foreachB f [] = returnB ()"
| "foreachB f (x # xs) = thenB (f x) (foreachB f xs)"

lemmas bus_op_defs =
  returnB_def raiseB_def bindB_def thenB_def getsB_def modifyB_def whenB_def unlessB_def assertB_def
  derefB_def tryB_def catchB_def

subsection \<open>Runs that succeed\<close>

lemma returnB_Inr [simp]: "returnB x s = (Inr y, s') \<longleftrightarrow> y = x \<and> s' = s"
  by (auto simp: returnB_def)

lemma raiseB_Inr [simp]: "raiseB e s \<noteq> (Inr y, s')"
  by (simp add: raiseB_def)

lemma getsB_Inr [simp]: "getsB f s = (Inr y, s') \<longleftrightarrow> y = f s \<and> s' = s"
  by (auto simp: getsB_def)

lemma modifyB_Inr [simp]: "modifyB f s = (Inr y, s') \<longleftrightarrow> s' = f s"
  by (auto simp: modifyB_def)

lemma derefB_Inr [simp]: "derefB f s = (Inr y, s') \<longleftrightarrow> f s = Some y \<and> s' = s"
  by (auto simp: derefB_def split: option.split)

lemma unlessB_Inr [simp]: "unlessB b e s = (Inr y, s') \<longleftrightarrow> b \<and> s' = s"
  by (simp add: unlessB_def)

lemma assertB_Inr [simp]: "assertB b s = (Inr y, s') \<longleftrightarrow> b \<and> s' = s"
  by (simp add: assertB_def)

lemma bindB_Inr [simp]:
  "bindB m f s = (Inr y, s'') \<longleftrightarrow> (\<exists>x s'. m s = (Inr x, s') \<and> f x s' = (Inr y, s''))"
  by (auto simp: bindB_def split: prod.split sum.split)

lemma thenB_Inr [simp]:
  "thenB m n s = (Inr y, s'') \<longleftrightarrow> (\<exists>x s'. m s = (Inr x, s') \<and> n s' = (Inr y, s''))"
  by (simp add: thenB_def)

lemma tryB_Inr [simp]:
  "tryB m s = (Inr r, s') \<longleftrightarrow> m s = (r, s') \<and> r \<noteq> Inl Abort"
  by (auto simp: tryB_def split: prod.split sum.split bus_error.split)

lemma catchB_Inr [simp]:
  "catchB m h k s = (Inr y, s'') \<longleftrightarrow>
     (\<exists>x s'. m s = (Inr x, s') \<and> k x s' = (Inr y, s'')) \<or>
     (\<exists>e s'. e \<noteq> Abort \<and> m s = (Inl e, s') \<and> h e s' = (Inr y, s''))"
  by (auto simp: catchB_def bindB_def tryB_def split: prod.splits sum.splits bus_error.splits)

subsection \<open>What an operation leaves alone\<close>

text \<open>
  \<open>steps R m\<close>: whatever the outcome of \<open>m\<close> short of the end of the program, the
  state after it is in relation \<open>R\<close> to the state before it.  For a reflexive and
  transitive \<open>R\<close> this is proved by following the structure of \<open>m\<close>.
\<close>

definition steps :: "(BusContext \<Rightarrow> BusContext \<Rightarrow> bool) \<Rightarrow> 'a bus \<Rightarrow> bool" where
  "steps R m \<longleftrightarrow> (\<forall>s r s'. m s = (r, s') \<longrightarrow> r \<noteq> Inl Abort \<longrightarrow> R s s')"

named_theorems steps_intros \<open>operations and the relations their states are in\<close>

lemma steps_if [steps_intros]: "steps R m \<Longrightarrow> steps R n \<Longrightarrow> steps R (if b then m else n)"
  by simp

lemma steps_case_option [steps_intros]:
  "steps R m \<Longrightarrow> (\<And>x. steps R (n x)) \<Longrightarrow> steps R (case opt of None \<Rightarrow> m | Some x \<Rightarrow> n x)"
  by (cases opt) auto

lemma steps_case_sum [steps_intros]:
  "(\<And>e. steps R (m e)) \<Longrightarrow> (\<And>x. steps R (n x)) \<Longrightarrow> steps R (case r of Inl e \<Rightarrow> m e | Inr x \<Rightarrow> n x)"
  by (cases r) auto

lemma steps_case_prod [steps_intros]:
  "(\<And>x y. steps R (m x y)) \<Longrightarrow> steps R (case p of (x, y) \<Rightarrow> m x y)"
  by (cases p) auto

lemma steps_let [steps_intros]: "(\<And>x. steps R (m x)) \<Longrightarrow> steps R (let x = e in m x)"
  by simp

lemma steps_modify: "(\<And>s. R s (g s)) \<Longrightarrow> steps R (modifyB g)"
  by (simp add: steps_def modifyB_def)

lemma stepsD: "steps R m \<Longrightarrow> m s = (Inr x, s') \<Longrightarrow> R s s'"
  by (simp add: steps_def)

lemma steps_result: "steps R m \<Longrightarrow> m s = (r, s') \<Longrightarrow> r \<noteq> Inl Abort \<Longrightarrow> R s s'"
  by (simp add: steps_def)

locale frame_relation =
  fixes R :: "BusContext \<Rightarrow> BusContext \<Rightarrow> bool"
  assumes R_refl: "R s s" and R_trans: "R s t \<Longrightarrow> R t u \<Longrightarrow> R s u"
begin

lemma steps_return [steps_intros]: "steps R (returnB x)"
  by (simp add: steps_def returnB_def R_refl)

lemma steps_raise [steps_intros]: "steps R (raiseB e)"
  by (simp add: steps_def raiseB_def R_refl)

lemma steps_gets [steps_intros]: "steps R (getsB g)"
  by (simp add: steps_def getsB_def R_refl)

lemma steps_deref [steps_intros]: "steps R (derefB g)"
  by (simp add: steps_def derefB_def R_refl split: option.split)

lemma steps_unless [steps_intros]: "steps R (unlessB b e)"
  by (simp add: unlessB_def steps_return steps_raise)

lemma steps_assert [steps_intros]: "steps R (assertB b)"
  by (simp add: assertB_def steps_unless)

lemma steps_bind [steps_intros]:
  assumes "steps R m" and "\<And>x. steps R (g x)"
  shows "steps R (bindB m g)"
  unfolding steps_def
proof (intro allI impI)
  fix s r s'
  assume run: "bindB m g s = (r, s')" "r \<noteq> Inl Abort"
  show "R s s'"
  proof (cases "m s")
    case (Pair q t)
    then show ?thesis
      using run steps_result [OF assms(1) Pair] steps_result [OF assms(2), of _ t r s'] R_trans
      by (cases q) (auto simp: bindB_def)
  qed
qed

lemma steps_then [steps_intros]: "steps R m \<Longrightarrow> steps R n \<Longrightarrow> steps R (thenB m n)"
  by (simp add: thenB_def steps_bind)

lemma steps_when [steps_intros]: "steps R m \<Longrightarrow> steps R (whenB b m)"
  by (simp add: whenB_def steps_return)

lemma steps_try [steps_intros]: "steps R m \<Longrightarrow> steps R (tryB m)"
  by (auto simp: steps_def tryB_def split: prod.splits sum.splits bus_error.splits)

lemma steps_catch [steps_intros]:
  "steps R m \<Longrightarrow> (\<And>e. steps R (h e)) \<Longrightarrow> (\<And>x. steps R (k x)) \<Longrightarrow> steps R (catchB m h k)"
  unfolding catchB_def
  by (intro steps_bind steps_try steps_case_sum)

lemma steps_foreach [steps_intros]: "(\<And>x. steps R (m x)) \<Longrightarrow> steps R (foreachB m xs)"
  by (induction xs) (auto intro: steps_then steps_return)

lemma steps_alloc: "(\<And>s v. R s (s \<lparr> oom := v \<rparr>)) \<Longrightarrow> steps R allocB"
  by (simp add: steps_def allocB_def R_refl split: list.split)

end

end
