(* ===== verification/Bus_Connection.thy ===== *)
theory Bus_Connection
  imports Bus_State
begin

text \<open>
  Connections of the bus daemon (src/bus/connection.c): the data attached to a
  connection, the lists of completed and incomplete connections with their
  limits, the replies that are pending, the sending half of transactions, and
  the security check of \<open>bus_context_check_security_policy\<close> (src/bus/bus.c),
  which consults the policies and records the replies to expect.
\<close>

section \<open>Data of a connection\<close>

definition get_conn :: "conn \<Rightarrow> BusConnectionData bus" where
  "get_conn c = derefB (\<lambda>s. conns s c)"

definition update_conn :: "conn \<Rightarrow> (BusConnectionData \<Rightarrow> BusConnectionData) \<Rightarrow> unit bus" where
  "update_conn c f = bindB (get_conn c) (\<lambda>d. modifyB (\<lambda>s. s \<lparr> conns := (conns s)(c \<mapsto> f d) \<rparr>))"

definition bus_connection_is_active :: "BusContext \<Rightarrow> conn \<Rightarrow> bool" where
  "bus_connection_is_active s c = (case conns s c of None \<Rightarrow> False | Some d \<Rightarrow> cd_name d \<noteq> None)"

definition bus_connection_get_name :: "conn \<Rightarrow> dbus_string option bus" where
  "bus_connection_get_name c = bindB (get_conn c) (\<lambda>d. returnB (cd_name d))"

definition bus_connection_get_policy :: "conn \<Rightarrow> BusClientPolicy bus" where
  "bus_connection_get_policy c =
     bindB (get_conn c) (\<lambda>d. case cd_policy d of None \<Rightarrow> raiseB Abort | Some p \<Rightarrow> returnB p)"

definition bus_connection_add_owned_service :: "conn \<Rightarrow> addr \<Rightarrow> unit bus" where
  "bus_connection_add_owned_service c service =
     thenB allocB
       (update_conn c (\<lambda>d. d \<lparr> cd_services_owned := cd_services_owned d @ [service],
                                cd_n_services_owned := cd_n_services_owned d + 1 \<rparr>))"

definition bus_connection_add_owned_service_link :: "conn \<Rightarrow> addr \<Rightarrow> unit bus" where
  "bus_connection_add_owned_service_link c service =
     update_conn c (\<lambda>d. d \<lparr> cd_services_owned := cd_services_owned d @ [service],
                             cd_n_services_owned := cd_n_services_owned d + 1 \<rparr>)"

text \<open>\<open>_dbus_list_remove_last\<close>: removes the last occurrence, if there is one.\<close>

definition list_remove_last :: "'a \<Rightarrow> 'a list \<Rightarrow> 'a list" where
  "list_remove_last x xs = rev (remove1 x (rev xs))"

definition bus_connection_remove_owned_service :: "conn \<Rightarrow> addr \<Rightarrow> unit bus" where
  "bus_connection_remove_owned_service c service =
     thenB (update_conn c (\<lambda>d. d \<lparr> cd_services_owned := list_remove_last service (cd_services_owned d),
                                     cd_n_services_owned := cd_n_services_owned d - 1 \<rparr>))
    (bindB (get_conn c) (\<lambda>d. assertB (cd_n_services_owned d \<ge> 0)))"

definition bus_connection_add_match_rule :: "conn \<Rightarrow> BusMatchRule \<Rightarrow> unit bus" where
  "bus_connection_add_match_rule c rule =
     thenB allocB
       (update_conn c (\<lambda>d. d \<lparr> cd_match_rules := cd_match_rules d @ [rule],
                                cd_n_match_rules := cd_n_match_rules d + 1 \<rparr>))"

definition bus_connection_remove_match_rule :: "conn \<Rightarrow> BusMatchRule \<Rightarrow> unit bus" where
  "bus_connection_remove_match_rule c rule =
     thenB (update_conn c (\<lambda>d. d \<lparr> cd_match_rules := list_remove_last rule (cd_match_rules d),
                                     cd_n_match_rules := cd_n_match_rules d - 1 \<rparr>))
    (bindB (get_conn c) (\<lambda>d. assertB (cd_n_match_rules d \<ge> 0)))"

definition bus_connections_increment_stamp :: "unit bus" where
  "bus_connections_increment_stamp = modifyB (\<lambda>s. s \<lparr> stamp := stamp s + 1 \<rparr>)"

definition bus_connection_mark_stamp :: "conn \<Rightarrow> bool bus" where
  "bus_connection_mark_stamp c =
     bindB (get_conn c) (\<lambda>d.
     bindB (getsB stamp) (\<lambda>st.
       if cd_stamp d = st then returnB False
       else thenB (update_conn c (\<lambda>d. d \<lparr> cd_stamp := st \<rparr>)) (returnB True)))"

text \<open>\<open>dbus_connection_close\<close>, and the outgoing queue \<open>dbus_connection_send_preallocated\<close> appends to.\<close>

definition dbus_connection_close :: "conn \<Rightarrow> unit bus" where
  "dbus_connection_close c = update_conn c (\<lambda>d. d \<lparr> cd_connected := False \<rparr>)"

definition dbus_connection_send_preallocated :: "conn \<Rightarrow> DBusMessage \<Rightarrow> unit bus" where
  "dbus_connection_send_preallocated c m = update_conn c (\<lambda>d. d \<lparr> cd_outgoing := cd_outgoing d @ [m] \<rparr>)"

section \<open>Completed and incomplete connections\<close>

definition get_connections_for_uid :: "BusContext \<Rightarrow> uid \<Rightarrow> int" where
  "get_connections_for_uid s u = (case completed_by_user s u of None \<Rightarrow> 0 | Some n \<Rightarrow> n)"

definition adjust_connections_for_uid :: "uid \<Rightarrow> int \<Rightarrow> unit bus" where
  "adjust_connections_for_uid u adjustment =
     bindB (getsB (\<lambda>s. get_connections_for_uid s u)) (\<lambda>current.
     thenB (assertB (current \<ge> 0))
    (thenB (assertB (current + adjustment \<ge> 0))
       (if current + adjustment = 0
        then modifyB (\<lambda>s. s \<lparr> completed_by_user := (completed_by_user s)(u := None) \<rparr>)
        else bindB (getsB (\<lambda>s. completed_by_user s u)) (\<lambda>entry.
             thenB (whenB (entry = None) allocB)
                   (modifyB (\<lambda>s. s \<lparr> completed_by_user := (completed_by_user s)(u \<mapsto> current + adjustment) \<rparr>))))))"

definition bus_connections_check_limits :: "conn \<Rightarrow> unit bus" where
  "bus_connections_check_limits c =
     bindB (get_conn c) (\<lambda>d.
     thenB (assertB (cd_name d = None))
    (bindB (getsB (\<lambda>s. n_completed s \<ge> max_completed_connections (limits s))) (\<lambda>full.
     thenB (unlessB (\<not> full) (BusError DBUS_ERROR_LIMITS_EXCEEDED))
       (case cd_unix_user d of
          None \<Rightarrow> returnB ()
        | Some u \<Rightarrow>
            bindB (getsB (\<lambda>s. get_connections_for_uid s u \<ge> max_connections_per_user (limits s))) (\<lambda>many.
            unlessB (\<not> many) (BusError DBUS_ERROR_LIMITS_EXCEEDED))))))"

text \<open>
  \<open>bus_connections_expire_incomplete\<close> closes the connections at the front of the
  list, the oldest ones, up to the first that has time left.  The timer that
  schedules the next run is not modelled.
\<close>

fun expire_incomplete_loop :: "conn list \<Rightarrow> unit bus" where
  "expire_incomplete_loop [] = returnB ()"
| "expire_incomplete_loop (c # cs) =
     bindB (get_conn c) (\<lambda>d.
     bindB (getsB (\<lambda>s. now s - cd_connect_time d \<ge> auth_timeout (limits s) * 1000)) (\<lambda>expired.
       if expired then thenB (dbus_connection_close c) (expire_incomplete_loop cs) else returnB ()))"

definition bus_connections_expire_incomplete :: "unit bus" where
  "bus_connections_expire_incomplete = bindB (getsB incomplete) expire_incomplete_loop"

text \<open>
  Completing a connection (the Hello message): name and policy are set, the
  count of the user is raised, the connection moves to the completed list.  On
  failure the name and the policy are reset.
\<close>

definition policy_failure :: "client_policy_error \<Rightarrow> bus_error" where
  "policy_failure e = (case e of GROUPS_UNKNOWN \<Rightarrow> Abort | CONSOLE_ERROR \<Rightarrow> BusError DBUS_ERROR_FAILED)"

definition bus_connection_complete :: "conn \<Rightarrow> dbus_string \<Rightarrow> unit bus" where
  "bus_connection_complete c name =
     bindB (get_conn c) (\<lambda>d.
     thenB (assertB (cd_name d = None))
    (thenB (assertB (cd_policy d = None))
    (thenB allocB
    (thenB (update_conn c (\<lambda>d. d \<lparr> cd_name := Some name \<rparr>))
    (bindB (getsB (\<lambda>s. bus_policy_create_client_policy (env_users (env s)) (bus_policy s) (cd_unix_user d))) (\<lambda>created.
       case created of
         Inl e \<Rightarrow> thenB (update_conn c (\<lambda>d. d \<lparr> cd_name := None \<rparr>)) (raiseB (policy_failure e))
       | Inr policy \<Rightarrow>
           thenB (update_conn c (\<lambda>d. d \<lparr> cd_policy := Some policy \<rparr>))
          (catchB (thenB (case cd_unix_user d of
                                 None \<Rightarrow> returnB ()
                               | Some u \<Rightarrow> adjust_connections_for_uid u 1)
                              allocB)
             (\<lambda>e. thenB (update_conn c (\<lambda>d. d \<lparr> cd_name := None, cd_policy := None \<rparr>)) (raiseB NoMemory))
             (\<lambda>_.
                 thenB (modifyB (\<lambda>s. s \<lparr> incomplete := remove1 c (incomplete s),
                                         n_incomplete := n_incomplete s - 1,
                                         completed := completed s @ [c],
                                         n_completed := n_completed s + 1 \<rparr>))
                (bindB (getsB (\<lambda>s. n_incomplete s \<ge> 0 \<and> n_completed s > 0)) (\<lambda>ok.
                 thenB (assertB ok)
                       bus_connections_expire_incomplete))))))))))"

section \<open>Transactions: sending\<close>

text \<open>\<open>bus_transaction_new\<close>\<close>

definition bus_transaction_new :: "unit bus" where
  "bus_transaction_new =
     thenB allocB (modifyB (\<lambda>s. s \<lparr> transaction := \<lparr> tr_connections = [], tr_cancel_hooks = [] \<rparr> \<rparr>))"

definition bus_transaction_add_cancel_hook :: "CancelHook \<Rightarrow> unit bus" where
  "bus_transaction_add_cancel_hook h =
     thenB allocB
    (thenB allocB
       (modifyB (\<lambda>s. s \<lparr> transaction := (transaction s)
                           \<lparr> tr_cancel_hooks := h # tr_cancel_hooks (transaction s) \<rparr> \<rparr>)))"

text \<open>
  A message is put in front of the queue of its recipient; the first one makes
  the recipient a member of the transaction.  Three allocations: the entry, the
  preallocated send, the link; a fourth for the list of connections, whose
  failure takes the message out again.
\<close>

definition bus_transaction_send :: "conn \<Rightarrow> DBusMessage \<Rightarrow> unit bus" where
  "bus_transaction_send c m =
     thenB (assertB (msg_sender m \<noteq> None))
    (bindB (get_conn c) (\<lambda>d.
       if \<not> cd_connected d then returnB ()
       else
         thenB allocB (thenB allocB (thenB allocB
        (thenB (update_conn c (\<lambda>d. d \<lparr> cd_transaction_messages := m # cd_transaction_messages d \<rparr>))
           (if cd_transaction_messages d \<noteq> [] then returnB ()
            else catchB allocB
                   (\<lambda>e. thenB (update_conn c (\<lambda>d. d \<lparr> cd_transaction_messages := tl (cd_transaction_messages d) \<rparr>))
                                    (raiseB NoMemory))
                   (\<lambda>_.
                       modifyB (\<lambda>s. s \<lparr> transaction := (transaction s)
                                          \<lparr> tr_connections := c # tr_connections (transaction s) \<rparr> \<rparr>))))))))"


section \<open>Pending replies\<close>

definition pending_matches :: "32 word \<Rightarrow> conn \<Rightarrow> conn \<Rightarrow> BusPendingReply \<Rightarrow> bool" where
  "pending_matches serial getter replier p \<longleftrightarrow>
     pr_reply_serial p = serial \<and> will_get_reply p = getter \<and> will_send_reply p = Some replier"

definition pending_count :: "conn \<Rightarrow> BusPendingReply list \<Rightarrow> nat" where
  "pending_count getter ps = length (filter (\<lambda>p. will_get_reply p = getter) ps)"

text \<open>
  \<open>bus_connections_expect_reply\<close> records that \<open>replier\<close> may answer the message
  \<open>reply_to_this\<close> of \<open>getter\<close>.  The entry, the data of the hook and the list link
  are allocated before the cancel hook; when that fails the entry is removed.
\<close>

definition bus_connections_expect_reply :: "conn \<Rightarrow> conn \<Rightarrow> DBusMessage \<Rightarrow> unit bus" where
  "bus_connections_expect_reply getter replier reply_to_this =
     (if msg_no_reply reply_to_this then returnB ()
      else
        bindB (getsB pending_replies) (\<lambda>ps.
        thenB (unlessB (\<not> list_ex (pending_matches (msg_serial reply_to_this) getter replier) ps)
                 (BusError DBUS_ERROR_ACCESS_DENIED))
       (bindB (getsB (\<lambda>s. int (pending_count getter ps) \<ge> max_replies_per_connection (limits s))) (\<lambda>many.
        thenB (unlessB (\<not> many) (BusError DBUS_ERROR_LIMITS_EXCEEDED))
       (thenB allocB (thenB allocB (thenB allocB
       (bindB (getsB (\<lambda>s. \<lparr> pr_addr = next_addr s, will_get_reply = getter, will_send_reply = Some replier,
                            pr_reply_serial = msg_serial reply_to_this, pr_added = now s \<rparr>)) (\<lambda>p.
        thenB (modifyB (\<lambda>s. s \<lparr> pending_replies := p # pending_replies s, next_addr := next_addr s + 1 \<rparr>))
       (catchB (bus_transaction_add_cancel_hook (CancelPendingReply (pr_addr p)))
          (\<lambda>e. thenB (modifyB (\<lambda>s. s \<lparr> pending_replies := remove1 p (pending_replies s) \<rparr>)) (raiseB NoMemory))
          (\<lambda>_. returnB ())))))))))))"

text \<open>
  \<open>bus_connections_check_reply\<close> looks whether the reply was asked for, and
  takes the pending entry off the list; the hook puts it back.
\<close>

definition bus_connections_check_reply :: "conn \<Rightarrow> conn \<Rightarrow> DBusMessage \<Rightarrow> bool bus" where
  "bus_connections_check_reply sending_reply receiving_reply reply =
     bindB (getsB pending_replies) (\<lambda>ps.
       case find (pending_matches (msg_reply_serial reply) receiving_reply sending_reply) ps of
         None \<Rightarrow> returnB False
       | Some p \<Rightarrow>
           thenB allocB
          (thenB (bus_transaction_add_cancel_hook (CancelCheckPendingReply p))
          (thenB (modifyB (\<lambda>s. s \<lparr> pending_replies := remove1 p (pending_replies s) \<rparr>))
                 (returnB True))))"

text \<open>When a connection goes away: its calls are forgotten, the answers it owes expire at once.\<close>

definition drop_pending :: "conn \<Rightarrow> BusPendingReply list \<Rightarrow> BusPendingReply list" where
  "drop_pending c ps =
     map (\<lambda>p. if will_send_reply p = Some c then p \<lparr> will_send_reply := None, pr_added := 0 \<rparr> else p)
       (filter (\<lambda>p. will_get_reply p \<noteq> c) ps)"

definition bus_connection_drop_pending_replies :: "conn \<Rightarrow> unit bus" where
  "bus_connection_drop_pending_replies c =
     modifyB (\<lambda>s. s \<lparr> pending_replies := drop_pending c (pending_replies s) \<rparr>)"

section \<open>The security check\<close>

text \<open>The owners of a name, for the policies and the match rules.\<close>

definition registry_view_of :: "BusContext \<Rightarrow> registry_view" where
  "registry_view_of s name =
     (case service_hash s name of
        None \<Rightarrow> None
      | Some a \<Rightarrow>
          (case service_pool s a of
             None \<Rightarrow> None
           | Some service \<Rightarrow> Some (List.map_filter (\<lambda>o'. map_option bo_conn (owner_pool s o')) (bs_owners service))))"

definition check_requested_reply ::
  "conn \<Rightarrow> conn option \<Rightarrow> conn option \<Rightarrow> DBusMessage \<Rightarrow> bool bus" where
  "check_requested_reply sender addressed proposed m =
     (if msg_reply_serial m \<noteq> 0
      then (case (addressed, proposed) of
              (Some a, Some p) \<Rightarrow> (if a = p then bus_connections_check_reply sender a m else returnB False)
            | _ \<Rightarrow> returnB False)
      else returnB False)"

definition recipient_policy_of :: "conn option \<Rightarrow> conn option \<Rightarrow> BusClientPolicy option bus" where
  "recipient_policy_of sender proposed =
     (case proposed of
        None \<Rightarrow> returnB None
      | Some p \<Rightarrow>
          bindB (getsB (\<lambda>s. bus_connection_is_active s p)) (\<lambda>active.
            if active then bindB (bus_connection_get_policy p) (\<lambda>pol. returnB (Some pol))
            else if sender = None then returnB None
            else raiseB Abort))"

definition is_known_message_type :: "nat \<Rightarrow> bool" where
  "is_known_message_type t \<longleftrightarrow>
     t = DBUS_MESSAGE_TYPE_METHOD_CALL \<or> t = DBUS_MESSAGE_TYPE_SIGNAL \<or>
     t = DBUS_MESSAGE_TYPE_METHOD_RETURN \<or> t = DBUS_MESSAGE_TYPE_ERROR"

text \<open>
  The second half of the check, from the point where the policies are known:
  the rules of the sender and of the recipient, the size of the queue of the
  recipient, the reply to expect.
\<close>

definition check_policies_and_limits ::
  "BusClientPolicy option \<Rightarrow> BusClientPolicy option \<Rightarrow> bool \<Rightarrow> conn option \<Rightarrow> conn option \<Rightarrow> conn option
     \<Rightarrow> DBusMessage \<Rightarrow> unit bus" where
  "check_policies_and_limits sender_policy recipient_policy requested_reply sender addressed proposed m =
     bindB (getsB registry_view_of) (\<lambda>reg.
     thenB (case sender_policy of
              None \<Rightarrow> returnB ()
            | Some pol \<Rightarrow>
                unlessB (fst (bus_client_policy_check_can_send pol reg requested_reply proposed m False))
                  (BusError DBUS_ERROR_ACCESS_DENIED))
    (thenB (case recipient_policy of
              None \<Rightarrow> returnB ()
            | Some pol \<Rightarrow>
                unlessB (fst (bus_client_policy_check_can_receive pol reg requested_reply sender addressed proposed m))
                  (BusError DBUS_ERROR_ACCESS_DENIED))
    (thenB (case proposed of
              None \<Rightarrow> returnB ()
            | Some p \<Rightarrow>
                bindB (get_conn p) (\<lambda>d.
                bindB (getsB (\<lambda>s. env_outgoing_size (env s) (cd_outgoing d) > max_outgoing_bytes (limits s))) (\<lambda>full.
                unlessB (\<not> full) (BusError DBUS_ERROR_LIMITS_EXCEEDED))))
       (case (sender, addressed) of
          (Some sn, Some ad) \<Rightarrow>
            (if msg_type m = DBUS_MESSAGE_TYPE_METHOD_CALL \<and> addressed = proposed
             then bus_connections_expect_reply sn ad m else returnB ())
        | _ \<Rightarrow> returnB ()))))"

definition bus_context_check_security_policy ::
  "conn option \<Rightarrow> conn option \<Rightarrow> conn option \<Rightarrow> DBusMessage \<Rightarrow> unit bus" where
  "bus_context_check_security_policy sender addressed proposed m =
     bindB (getsB (\<lambda>s. msg_destination m \<noteq> None \<or> msg_type m = DBUS_MESSAGE_TYPE_SIGNAL \<or>
                        (sender = None \<and> (case proposed of None \<Rightarrow> False | Some p \<Rightarrow> \<not> bus_connection_is_active s p))))
       (\<lambda>dest_ok.
     thenB (assertB dest_ok)
    (thenB (assertB (msg_type m = DBUS_MESSAGE_TYPE_SIGNAL \<or> addressed \<noteq> None \<or>
                     msg_destination m = Some DBUS_SERVICE_DBUS))
    (thenB (unlessB (is_known_message_type (msg_type m)) (BusError DBUS_ERROR_ACCESS_DENIED))
       (case sender of
          Some sn \<Rightarrow>
            bindB (getsB (\<lambda>s. env_selinux_send (env s) sn proposed m)) (\<lambda>selinux_ok.
            thenB (unlessB selinux_ok (BusError DBUS_ERROR_ACCESS_DENIED))
           (bindB (getsB (\<lambda>s. bus_connection_is_active s sn)) (\<lambda>active.
              if active then
                bindB (bus_connection_get_policy sn) (\<lambda>sender_policy.
                bindB (check_requested_reply sn addressed proposed m) (\<lambda>requested_reply.
                bindB (recipient_policy_of sender proposed) (\<lambda>recipient_policy.
                check_policies_and_limits (Some sender_policy) recipient_policy requested_reply sender addressed
                  proposed m)))
              else
                unlessB (proposed = None \<and> dbus_message_is_method_call m DBUS_INTERFACE_DBUS (str ''Hello''))
                  (BusError DBUS_ERROR_ACCESS_DENIED))))
        | None \<Rightarrow>
            bindB (recipient_policy_of sender proposed) (\<lambda>recipient_policy.
            check_policies_and_limits None recipient_policy
              (addressed = proposed \<and> msg_reply_serial m \<noteq> 0) sender addressed proposed m)))))"

text \<open>
  \<open>bus_transaction_send_from_driver\<close>: the driver is the sender, the recipient
  the destination; a message that the policy rejects is dropped silently, as is
  one for which the check runs out of memory (its error pointer is NULL).
\<close>

definition bus_transaction_send_from_driver :: "conn \<Rightarrow> DBusMessage \<Rightarrow> unit bus" where
  "bus_transaction_send_from_driver c message =
     thenB allocB
    (bindB (getsB (\<lambda>s. bus_connection_is_active s c)) (\<lambda>active.
     bindB (if active then thenB allocB (bus_connection_get_name c) else returnB (msg_destination message)) (\<lambda>dest.
     let m = message \<lparr> msg_sender := Some DBUS_SERVICE_DBUS, msg_destination := dest, msg_no_reply := True \<rparr> in
     catchB (bus_context_check_security_policy None (Some c) (Some c) m)
       (\<lambda>e. returnB ())
       (\<lambda>_. bus_transaction_send c m))))"

text \<open>\<open>bus_transaction_send_error_reply\<close>; the text of the error message is not modelled.\<close>

definition bus_transaction_send_error_reply :: "conn \<Rightarrow> dbus_error_name \<Rightarrow> DBusMessage \<Rightarrow> unit bus" where
  "bus_transaction_send_error_reply c e in_reply_to =
     thenB allocB
       (bus_transaction_send_from_driver c (dbus_message_new_error in_reply_to (error_name_string e) None))"


section \<open>What sending keeps\<close>

text \<open>
  The part of the data of a connection that sending does not change, apart from
  the queue of the transaction.
\<close>

definition account_of ::
  "BusConnectionData \<Rightarrow> dbus_string option \<times> addr list \<times> int \<times> BusMatchRule list \<times> int \<times>
     DBusMessage list \<times> BusClientPolicy option" where
  "account_of d =
     (cd_name d, cd_services_owned d, cd_n_services_owned d, cd_match_rules d, cd_n_match_rules d,
      cd_transaction_messages d, cd_policy d)"

text \<open>
  A relation that the primitive steps of sending are in is kept by every
  operation that checks, queues or delivers messages.
\<close>

locale sending_frame = frame_relation +
  assumes prim_alloc [steps_intros]: "steps R allocB"
    and prim_update_conn: "(\<And>d. account_of (f d) = account_of d) \<Longrightarrow> steps R (update_conn c f)"
    and prim_transaction_send [steps_intros]: "steps R (bus_transaction_send c m)"
    and prim_add_cancel_hook [steps_intros]: "steps R (bus_transaction_add_cancel_hook h)"
    and prim_increment_stamp [steps_intros]: "steps R bus_connections_increment_stamp"
    and prim_pending_replies [steps_intros]: "steps R (modifyB (\<lambda>s. s \<lparr> pending_replies := g s \<rparr>))"
    and prim_new_pending_reply [steps_intros]:
      "steps R (modifyB (\<lambda>s. s \<lparr> pending_replies := g s, next_addr := next_addr s + 1 \<rparr>))"
begin

lemma keeps_get_conn [steps_intros]: "steps R (get_conn c)"
  by (simp add: get_conn_def steps_deref)

lemma keeps_get_name [steps_intros]: "steps R (bus_connection_get_name c)"
  unfolding bus_connection_get_name_def by (intro steps_intros)

lemma keeps_get_policy [steps_intros]: "steps R (bus_connection_get_policy c)"
  unfolding bus_connection_get_policy_def by (intro steps_intros)

lemma keeps_close [steps_intros]: "steps R (dbus_connection_close c)"
  by (simp add: dbus_connection_close_def prim_update_conn account_of_def)

lemma keeps_send_preallocated [steps_intros]: "steps R (dbus_connection_send_preallocated c m)"
  by (simp add: dbus_connection_send_preallocated_def prim_update_conn account_of_def)

lemma keeps_mark_stamp [steps_intros]: "steps R (bus_connection_mark_stamp c)"
  unfolding bus_connection_mark_stamp_def by (intro steps_intros prim_update_conn) (simp add: account_of_def)

lemma keeps_expect_reply [steps_intros]: "steps R (bus_connections_expect_reply g r m)"
  unfolding bus_connections_expect_reply_def by (intro steps_intros)

lemma keeps_check_reply [steps_intros]: "steps R (bus_connections_check_reply a b m)"
  unfolding bus_connections_check_reply_def by (intro steps_intros)

lemma keeps_check_requested_reply [steps_intros]: "steps R (check_requested_reply sn a p m)"
  unfolding check_requested_reply_def by (intro steps_intros)

lemma keeps_recipient_policy [steps_intros]: "steps R (recipient_policy_of sn p)"
  unfolding recipient_policy_of_def by (intro steps_intros)

lemma keeps_check_policies [steps_intros]: "steps R (check_policies_and_limits sp rp rr sn a p m)"
  unfolding check_policies_and_limits_def by (intro steps_intros)

lemma keeps_check_security_policy [steps_intros]: "steps R (bus_context_check_security_policy sn a p m)"
  unfolding bus_context_check_security_policy_def by (intro steps_intros)

lemma keeps_send_from_driver [steps_intros]: "steps R (bus_transaction_send_from_driver c m)"
  unfolding bus_transaction_send_from_driver_def by (intro steps_intros)

lemma keeps_send_error_reply [steps_intros]: "steps R (bus_transaction_send_error_reply c e m)"
  unfolding bus_transaction_send_error_reply_def by (intro steps_intros)

end

end
