(* ===== verification/Bus_Services.thy ===== *)
theory Bus_Services
  imports Bus_Matchmaker
begin

text \<open>
  Ownership of bus names (src/bus/services.c): a service is a name with the
  queue of its owners, the first of which is the primary owner.  Services and
  owners are counted objects; the cancel hooks of a transaction hold references
  to them.  The two calls into src/bus/activation.c that a change of ownership
  makes are part of this theory.  The code is taken as compiled with
  \<open>DBUS_CLEANUP_OLD_SERVICES\<close> (services.c, line 38), the Windows extension for
  names of the form \<open>name.unique-PID\<close>.
\<close>

definition DBUS_NAME_FLAG_ALLOW_REPLACEMENT :: "32 word" where "DBUS_NAME_FLAG_ALLOW_REPLACEMENT = 1"
definition DBUS_NAME_FLAG_REPLACE_EXISTING :: "32 word" where "DBUS_NAME_FLAG_REPLACE_EXISTING = 2"
definition DBUS_NAME_FLAG_DO_NOT_QUEUE :: "32 word" where "DBUS_NAME_FLAG_DO_NOT_QUEUE = 4"

definition DBUS_REQUEST_NAME_REPLY_PRIMARY_OWNER :: "32 word" where "DBUS_REQUEST_NAME_REPLY_PRIMARY_OWNER = 1"
definition DBUS_REQUEST_NAME_REPLY_IN_QUEUE :: "32 word" where "DBUS_REQUEST_NAME_REPLY_IN_QUEUE = 2"
definition DBUS_REQUEST_NAME_REPLY_EXISTS :: "32 word" where "DBUS_REQUEST_NAME_REPLY_EXISTS = 3"
definition DBUS_REQUEST_NAME_REPLY_ALREADY_OWNER :: "32 word" where "DBUS_REQUEST_NAME_REPLY_ALREADY_OWNER = 4"

definition DBUS_RELEASE_NAME_REPLY_RELEASED :: "32 word" where "DBUS_RELEASE_NAME_REPLY_RELEASED = 1"
definition DBUS_RELEASE_NAME_REPLY_NON_EXISTENT :: "32 word" where "DBUS_RELEASE_NAME_REPLY_NON_EXISTENT = 2"
definition DBUS_RELEASE_NAME_REPLY_NOT_OWNER :: "32 word" where "DBUS_RELEASE_NAME_REPLY_NOT_OWNER = 3"

definition allow_replacement_flag :: "32 word \<Rightarrow> bool" where
  "allow_replacement_flag flags \<longleftrightarrow> flags AND DBUS_NAME_FLAG_ALLOW_REPLACEMENT \<noteq> 0"

definition replace_existing_flag :: "32 word \<Rightarrow> bool" where
  "replace_existing_flag flags \<longleftrightarrow> flags AND DBUS_NAME_FLAG_REPLACE_EXISTING \<noteq> 0"

definition do_not_queue_flag :: "32 word \<Rightarrow> bool" where
  "do_not_queue_flag flags \<longleftrightarrow> flags AND DBUS_NAME_FLAG_DO_NOT_QUEUE \<noteq> 0"

section \<open>Services and owners as objects\<close>

definition get_service :: "addr \<Rightarrow> BusService bus" where
  "get_service a = derefB (\<lambda>s. service_pool s a)"

definition update_service :: "addr \<Rightarrow> (BusService \<Rightarrow> BusService) \<Rightarrow> unit bus" where
  "update_service a f = bindB (get_service a) (\<lambda>v. modifyB (\<lambda>s. s \<lparr> service_pool := (service_pool s)(a \<mapsto> f v) \<rparr>))"

definition get_owner :: "addr \<Rightarrow> BusOwner bus" where
  "get_owner a = derefB (\<lambda>s. owner_pool s a)"

definition update_owner :: "addr \<Rightarrow> (BusOwner \<Rightarrow> BusOwner) \<Rightarrow> unit bus" where
  "update_owner a f = bindB (get_owner a) (\<lambda>v. modifyB (\<lambda>s. s \<lparr> owner_pool := (owner_pool s)(a \<mapsto> f v) \<rparr>))"

definition set_owners :: "addr \<Rightarrow> (addr list \<Rightarrow> addr list) \<Rightarrow> unit bus" where
  "set_owners a f = update_service a (\<lambda>v. v \<lparr> bs_owners := f (bs_owners v) \<rparr>)"

fun find_owner_link_loop :: "conn \<Rightarrow> addr list \<Rightarrow> addr option bus" where
  "find_owner_link_loop c [] = returnB None"
| "find_owner_link_loop c (a # as) =
     bindB (get_owner a) (\<lambda>own. if bo_conn own = c then returnB (Some a) else find_owner_link_loop c as)"

definition bus_service_find_owner_link :: "addr \<Rightarrow> conn \<Rightarrow> addr option bus" where
  "bus_service_find_owner_link service c =
     bindB (get_service service) (\<lambda>v. find_owner_link_loop c (bs_owners v))"

definition owner_set_flags :: "32 word \<Rightarrow> BusOwner \<Rightarrow> BusOwner" where
  "owner_set_flags flags own =
     own \<lparr> bo_allow_replacement := allow_replacement_flag flags, bo_do_not_queue := do_not_queue_flag flags \<rparr>"

definition bus_owner_set_flags :: "addr \<Rightarrow> 32 word \<Rightarrow> unit bus" where
  "bus_owner_set_flags a flags = update_owner a (owner_set_flags flags)"

definition bus_owner_new :: "addr \<Rightarrow> conn \<Rightarrow> 32 word \<Rightarrow> addr bus" where
  "bus_owner_new service c flags =
     thenB allocB
    (bindB (getsB next_addr) (\<lambda>a.
     thenB (modifyB (\<lambda>s. s \<lparr> next_addr := next_addr s + 1,
                             owner_pool := (owner_pool s)(a \<mapsto>
                               \<lparr> bo_refcount = 1, bo_service = service, bo_conn = c,
                                 bo_allow_replacement = False, bo_do_not_queue = False \<rparr>) \<rparr>))
    (catchB (bus_connection_add_owned_service c service)
       (\<lambda>e. thenB (modifyB (\<lambda>s. s \<lparr> owner_pool := (owner_pool s)(a := None) \<rparr>)) (raiseB NoMemory))
       (\<lambda>_. thenB (bus_owner_set_flags a flags) (returnB a)))))"

definition bus_owner_ref :: "addr \<Rightarrow> unit bus" where
  "bus_owner_ref a =
     bindB (get_owner a) (\<lambda>own.
     thenB (assertB (bo_refcount own > 0))
           (update_owner a (\<lambda>own. own \<lparr> bo_refcount := bo_refcount own + 1 \<rparr>)))"

definition bus_owner_unref :: "addr \<Rightarrow> unit bus" where
  "bus_owner_unref a =
     bindB (get_owner a) (\<lambda>own.
     thenB (assertB (bo_refcount own > 0))
       (if bo_refcount own = 1
        then thenB (bus_connection_remove_owned_service (bo_conn own) (bo_service own))
                   (modifyB (\<lambda>s. s \<lparr> owner_pool := (owner_pool s)(a := None) \<rparr>))
        else update_owner a (\<lambda>own. own \<lparr> bo_refcount := bo_refcount own - 1 \<rparr>)))"

definition bus_service_ref :: "addr \<Rightarrow> unit bus" where
  "bus_service_ref a =
     bindB (get_service a) (\<lambda>v.
     thenB (assertB (bs_refcount v > 0))
           (update_service a (\<lambda>v. v \<lparr> bs_refcount := bs_refcount v + 1 \<rparr>)))"

definition bus_service_unref :: "addr \<Rightarrow> unit bus" where
  "bus_service_unref a =
     bindB (get_service a) (\<lambda>v.
     thenB (assertB (bs_refcount v > 0))
       (if bs_refcount v = 1
        then thenB (assertB (bs_owners v = []))
                   (modifyB (\<lambda>s. s \<lparr> service_pool := (service_pool s)(a := None) \<rparr>))
        else update_service a (\<lambda>v. v \<lparr> bs_refcount := bs_refcount v - 1 \<rparr>)))"

definition bus_registry_lookup :: "dbus_string \<Rightarrow> addr option bus" where
  "bus_registry_lookup service_name = getsB (\<lambda>s. service_hash s service_name)"

definition bus_service_get_primary_owner :: "addr \<Rightarrow> addr option bus" where
  "bus_service_get_primary_owner service =
     bindB (get_service service) (\<lambda>v. returnB (case bs_owners v of [] \<Rightarrow> None | o' # _ \<Rightarrow> Some o'))"

definition bus_service_get_primary_owners_connection :: "addr \<Rightarrow> conn option bus" where
  "bus_service_get_primary_owners_connection service =
     bindB (bus_service_get_primary_owner service) (\<lambda>p.
       case p of
         None \<Rightarrow> returnB None
       | Some a \<Rightarrow> bindB (get_owner a) (\<lambda>own. returnB (Some (bo_conn own))))"

definition bus_service_get_allow_replacement :: "addr \<Rightarrow> bool bus" where
  "bus_service_get_allow_replacement service =
     bindB (bus_service_get_primary_owner service) (\<lambda>p.
       case p of
         None \<Rightarrow> raiseB Abort
       | Some a \<Rightarrow> bindB (get_owner a) (\<lambda>own. returnB (bo_allow_replacement own)))"

definition bus_service_has_owner :: "addr \<Rightarrow> conn \<Rightarrow> bool bus" where
  "bus_service_has_owner service c =
     bindB (bus_service_find_owner_link service c) (\<lambda>link. returnB (link \<noteq> None))"

definition bus_service_unlink_owner :: "addr \<Rightarrow> addr \<Rightarrow> unit bus" where
  "bus_service_unlink_owner service owner =
     thenB (set_owners service (list_remove_last owner)) (bus_owner_unref owner)"

definition bus_service_unlink :: "addr \<Rightarrow> unit bus" where
  "bus_service_unlink service =
     bindB (get_service service) (\<lambda>v.
     thenB (assertB (bs_owners v = []))
    (thenB (modifyB (\<lambda>s. s \<lparr> service_hash := (service_hash s)(bs_name v := None) \<rparr>))
           (bus_service_unref service)))"

definition bus_service_relink :: "addr \<Rightarrow> unit bus" where
  "bus_service_relink service =
     bindB (get_service service) (\<lambda>v.
     thenB (assertB (bs_owners v = []))
    (thenB (modifyB (\<lambda>s. s \<lparr> service_hash := (service_hash s)(bs_name v \<mapsto> service) \<rparr>))
           (bus_service_ref service)))"

section \<open>Cancel hooks\<close>

definition cancel_ownership :: "addr \<Rightarrow> addr \<Rightarrow> unit bus" where
  "cancel_ownership owner service =
     thenB (bus_service_unlink_owner service owner)
    (bindB (get_service service) (\<lambda>v. whenB (bs_owners v = []) (bus_service_unlink service)))"

definition free_ownership_data :: "addr \<Rightarrow> addr \<Rightarrow> unit bus" where
  "free_ownership_data owner service = thenB (bus_owner_unref owner) (bus_service_unref service)"

definition add_cancel_ownership_to_transaction :: "addr \<Rightarrow> addr \<Rightarrow> unit bus" where
  "add_cancel_ownership_to_transaction service owner =
     thenB allocB
    (thenB (bus_transaction_add_cancel_hook (CancelOwnership owner service))
    (thenB (bus_service_ref service) (bus_owner_ref owner)))"

definition insert_before :: "'a option \<Rightarrow> 'a \<Rightarrow> 'a list \<Rightarrow> 'a list" where
  "insert_before before x xs =
     (case before of
        None \<Rightarrow> xs @ [x]
      | Some b \<Rightarrow> takeWhile (\<lambda>y. y \<noteq> b) xs @ x # dropWhile (\<lambda>y. y \<noteq> b) xs)"

text \<open>
  The data of the restore hook always has a preallocated hash entry when the
  hook runs, so the assertion of the branch for a service that still has owners
  (services.c, line 1111) fails.
\<close>

definition restore_ownership :: "addr \<Rightarrow> addr \<Rightarrow> addr option \<Rightarrow> unit bus" where
  "restore_ownership owner service before_owner =
     bindB (get_service service) (\<lambda>v.
     thenB (if bs_owners v = [] then bus_service_relink service else raiseB Abort)
    (thenB (set_owners service (insert_before before_owner owner))
    (bindB (get_owner owner) (\<lambda>own.
     bus_connection_add_owned_service_link (bo_conn own) service))))"

fun after_in_list :: "'a \<Rightarrow> 'a list \<Rightarrow> 'a option" where
  "after_in_list x [] = None"
| "after_in_list x (y # ys) = (if y = x then (case ys of [] \<Rightarrow> None | z # _ \<Rightarrow> Some z) else after_in_list x ys)"

text \<open>
  The links and the hash entry are allocated before the references are taken;
  when one of them or the hook fails, the references are given back.
\<close>

definition add_restore_ownership_to_transaction :: "addr \<Rightarrow> addr \<Rightarrow> unit bus" where
  "add_restore_ownership_to_transaction service owner =
     thenB allocB
    (bindB (tryB allocB) (\<lambda>service_link.
     bindB (tryB allocB) (\<lambda>owner_link.
     bindB (tryB allocB) (\<lambda>hash_entry.
     thenB (bus_service_ref service)
    (thenB (bus_owner_ref owner)
    (bindB (get_service service) (\<lambda>v.
     catchB (if isl service_link \<or> isl owner_link \<or> isl hash_entry then raiseB NoMemory
             else bus_transaction_add_cancel_hook
                    (RestoreOwnership owner service (after_in_list owner (bs_owners v))))
       (\<lambda>e. thenB (free_ownership_data owner service) (raiseB NoMemory))
       (\<lambda>_. returnB ()))))))))"


section \<open>Changing the queue\<close>

definition insert_second :: "'a \<Rightarrow> 'a list \<Rightarrow> 'a list" where
  "insert_second x xs = (case xs of [] \<Rightarrow> [x] | y # ys \<Rightarrow> y # x # ys)"

text \<open>The two halves of \<open>bus_service_add_owner\<close>: a new owner, and one that is in the queue already.\<close>

definition add_new_owner_to_queue :: "addr \<Rightarrow> conn \<Rightarrow> 32 word \<Rightarrow> unit bus" where
  "add_new_owner_to_queue service c flags =
     bindB (bus_owner_new service c flags) (\<lambda>owner.
     thenB (bus_owner_set_flags owner flags)
    (catchB allocB
       (\<lambda>e. thenB (bus_owner_unref owner) (raiseB NoMemory))
       (\<lambda>_. thenB (set_owners service (\<lambda>os. if \<not> replace_existing_flag flags \<or> os = [] then os @ [owner]
                                            else insert_second owner os))
                  (catchB (add_cancel_ownership_to_transaction service owner)
                     (\<lambda>e. thenB (bus_service_unlink_owner service owner) (raiseB NoMemory))
                     (\<lambda>_. returnB ())))))"

definition update_queued_owner :: "addr \<Rightarrow> addr \<Rightarrow> 32 word \<Rightarrow> unit bus" where
  "update_queued_owner service owner flags =
     thenB (if replace_existing_flag flags
            then bindB (get_service service) (\<lambda>v.
                 thenB (assertB (remove1 owner (bs_owners v) \<noteq> []))
                       (set_owners service (\<lambda>os. insert_second owner (remove1 owner os))))
            else returnB ())
           (bus_owner_set_flags owner flags)"

definition bus_service_add_owner :: "addr \<Rightarrow> conn \<Rightarrow> 32 word \<Rightarrow> unit bus" where
  "bus_service_add_owner service c flags =
     bindB (get_service service) (\<lambda>v.
     thenB (whenB (bs_owners v = []) (bus_driver_send_service_acquired c (bs_name v)))
    (bindB (bus_service_find_owner_link service c) (\<lambda>link.
       case link of
         None \<Rightarrow> add_new_owner_to_queue service c flags
       | Some owner \<Rightarrow> update_queued_owner service owner flags)))"

text \<open>The messages of a change of the primary owner to the second in the queue, shared by
  \<open>bus_service_swap_owner\<close> and \<open>bus_service_remove_owner\<close>.\<close>

definition announce_next_owner :: "addr \<Rightarrow> conn \<Rightarrow> unit bus" where
  "announce_next_owner service c =
     bindB (get_service service) (\<lambda>v.
       case bs_owners v of
         _ # next_owner # _ \<Rightarrow>
           bindB (get_owner next_owner) (\<lambda>own.
           bindB (bus_connection_get_name c) (\<lambda>old_name.
           bindB (bus_connection_get_name (bo_conn own)) (\<lambda>new_name.
           thenB (bus_driver_send_service_owner_changed (bs_name v) old_name new_name)
                 (bus_driver_send_service_acquired (bo_conn own) (bs_name v)))))
       | _ \<Rightarrow> raiseB Abort)"

definition swap_first_two :: "'a list \<Rightarrow> 'a list" where
  "swap_first_two xs = (case xs of x # y # zs \<Rightarrow> y # x # zs | _ \<Rightarrow> xs)"

definition bus_service_swap_owner :: "addr \<Rightarrow> conn \<Rightarrow> unit bus" where
  "bus_service_swap_owner service c =
     bindB (get_service service) (\<lambda>v.
     bindB (bus_service_get_primary_owner service) (\<lambda>p.
       case p of
         None \<Rightarrow> raiseB Abort
       | Some primary_owner \<Rightarrow>
           bindB (get_owner primary_owner) (\<lambda>own.
           thenB (assertB (bo_conn own = c))
          (thenB (bus_driver_send_service_lost c (bs_name v))
          (thenB (announce_next_owner service c)
          (thenB (add_restore_ownership_to_transaction service primary_owner)
                 (set_owners service swap_first_two)))))))"

text \<open>The two halves of \<open>bus_service_remove_owner\<close>: an owner that only waits in the queue, and the primary one.\<close>

definition remove_queued_owner :: "addr \<Rightarrow> conn \<Rightarrow> unit bus" where
  "remove_queued_owner service c =
     bindB (bus_service_find_owner_link service c) (\<lambda>link.
       case link of
         None \<Rightarrow> raiseB Abort
       | Some owner \<Rightarrow> thenB (set_owners service (remove1 owner)) (bus_owner_unref owner))"

definition announce_removal :: "addr \<Rightarrow> conn \<Rightarrow> unit bus" where
  "announce_removal service c =
     bindB (get_service service) (\<lambda>v.
       if length (bs_owners v) = 1
       then bindB (bus_connection_get_name c) (\<lambda>old_name.
            bus_driver_send_service_owner_changed (bs_name v) old_name None)
       else announce_next_owner service c)"

definition remove_primary_owner :: "addr \<Rightarrow> conn \<Rightarrow> addr \<Rightarrow> unit bus" where
  "remove_primary_owner service c primary_owner =
     bindB (get_service service) (\<lambda>v.
     thenB (bus_driver_send_service_lost c (bs_name v))
    (thenB (announce_removal service c)
    (thenB (add_restore_ownership_to_transaction service primary_owner)
    (thenB (bus_service_unlink_owner service primary_owner)
    (bindB (get_service service) (\<lambda>v. whenB (bs_owners v = []) (bus_service_unlink service)))))))"

definition bus_service_remove_owner :: "addr \<Rightarrow> conn \<Rightarrow> unit bus" where
  "bus_service_remove_owner service c =
     bindB (bus_service_get_primary_owner service) (\<lambda>p.
     bindB (case p of
              None \<Rightarrow> returnB False
            | Some a \<Rightarrow> bindB (get_owner a) (\<lambda>own. returnB (bo_conn own = c))) (\<lambda>is_primary.
       if is_primary then remove_primary_owner service c (the p) else remove_queued_owner service c))"

section \<open>Pending activations\<close>

text \<open>
  Pending activations are counted objects: the hash table \<open>pending_activations\<close>
  holds one reference, each hook of a transaction another.  Freeing one takes
  its entries off the number of requests that are pending (src/bus/activation.c).
  The timeout and the child process that belong to it are not part of the state.
\<close>

definition get_pending :: "addr \<Rightarrow> BusPendingActivation bus" where
  "get_pending a = derefB (\<lambda>s. pending_pool s a)"

definition update_pending :: "addr \<Rightarrow> (BusPendingActivation \<Rightarrow> BusPendingActivation) \<Rightarrow> unit bus" where
  "update_pending a f =
     bindB (get_pending a) (\<lambda>p. modifyB (\<lambda>s. s \<lparr> pending_pool := (pending_pool s)(a \<mapsto> f p) \<rparr>))"

definition bus_pending_activation_ref :: "addr \<Rightarrow> unit bus" where
  "bus_pending_activation_ref a =
     bindB (get_pending a) (\<lambda>p.
     thenB (assertB (pa_refcount p > 0))
           (update_pending a (\<lambda>p. p \<lparr> pa_refcount := pa_refcount p + 1 \<rparr>)))"

definition bus_pending_activation_unref :: "addr \<Rightarrow> unit bus" where
  "bus_pending_activation_unref a =
     bindB (get_pending a) (\<lambda>p.
     thenB (assertB (pa_refcount p > 0))
       (if pa_refcount p = 1
        then thenB (modifyB (\<lambda>s. s \<lparr> n_pending_activations := n_pending_activations s - pa_n_entries p \<rparr>))
            (bindB (getsB n_pending_activations) (\<lambda>n.
             thenB (assertB (n \<ge> 0))
                   (modifyB (\<lambda>s. s \<lparr> pending_pool := (pending_pool s)(a := None) \<rparr>))))
        else update_pending a (\<lambda>p. p \<lparr> pa_refcount := pa_refcount p - 1 \<rparr>)))"

text \<open>The hash table gives its reference back when an entry is removed or replaced.\<close>

definition pending_hash_remove :: "dbus_string \<Rightarrow> unit bus" where
  "pending_hash_remove name =
     bindB (getsB (\<lambda>s. pending_activations s name)) (\<lambda>found.
       case found of
         None \<Rightarrow> returnB ()
       | Some a \<Rightarrow>
           thenB (modifyB (\<lambda>s. s \<lparr> pending_activations := (pending_activations s)(name := None) \<rparr>))
                 (bus_pending_activation_unref a))"

definition pending_hash_insert :: "dbus_string \<Rightarrow> addr \<Rightarrow> unit bus" where
  "pending_hash_insert name a =
     bindB (getsB (\<lambda>s. pending_activations s name)) (\<lambda>found.
     thenB (case found of None \<Rightarrow> returnB () | Some old \<Rightarrow> bus_pending_activation_unref old)
           (modifyB (\<lambda>s. s \<lparr> pending_activations := (pending_activations s)(name \<mapsto> a) \<rparr>)))"

definition restore_pending :: "addr \<Rightarrow> unit bus" where
  "restore_pending a =
     bindB (get_pending a) (\<lambda>p.
     thenB (pending_hash_insert (pa_service_name p) a) (bus_pending_activation_ref a))"

definition add_restore_pending_to_transaction :: "addr \<Rightarrow> unit bus" where
  "add_restore_pending_to_transaction a =
     thenB allocB
    (bindB (tryB allocB) (\<lambda>hash_entry.
     thenB (bus_pending_activation_ref a)
    (catchB (if isl hash_entry then raiseB NoMemory else bus_transaction_add_cancel_hook (RestorePending a))
       (\<lambda>e. thenB (bus_pending_activation_unref a) (raiseB NoMemory))
       (\<lambda>_. returnB ()))))"

definition cancel_pending :: "addr \<Rightarrow> unit bus" where
  "cancel_pending a = bindB (get_pending a) (\<lambda>p. pending_hash_remove (pa_service_name p))"

definition add_cancel_pending_to_transaction :: "addr \<Rightarrow> unit bus" where
  "add_cancel_pending_to_transaction a =
     thenB (bus_transaction_add_cancel_hook (CancelPending a)) (bus_pending_activation_ref a)"

text \<open>
  \<open>bus_activation_service_created\<close> answers the callers of StartServiceByName,
  \<open>bus_activation_send_pending_auto_activation_messages\<close> delivers the messages
  that started the service.
\<close>

definition activation_reply :: "BusPendingActivationEntry \<Rightarrow> unit bus" where
  "activation_reply entry =
     bindB (getsB (\<lambda>s. case conns s (pe_connection entry) of None \<Rightarrow> False | Some d \<Rightarrow> cd_connected d)) (\<lambda>connected.
     whenB (connected \<and> \<not> pe_auto_activation entry)
       (thenB allocB (thenB allocB
          (bus_transaction_send_from_driver (pe_connection entry)
             (dbus_message_append_args (dbus_message_new_method_return (pe_message entry)) [Uint32Arg 1])))))"

definition bus_activation_service_created :: "dbus_string \<Rightarrow> unit bus" where
  "bus_activation_service_created service_name =
     bindB (getsB (\<lambda>s. pending_activations s service_name)) (\<lambda>pending.
       case pending of
         None \<Rightarrow> returnB ()
       | Some a \<Rightarrow> bindB (get_pending a) (\<lambda>p. foreachB activation_reply (pa_entries p)))"

definition send_auto_activation_message :: "addr \<Rightarrow> BusPendingActivationEntry \<Rightarrow> unit bus" where
  "send_auto_activation_message service entry =
     bindB (getsB (\<lambda>s. case conns s (pe_connection entry) of None \<Rightarrow> False | Some d \<Rightarrow> cd_connected d)) (\<lambda>connected.
       if pe_auto_activation entry \<and> connected
       then bindB (bus_service_get_primary_owners_connection service) (\<lambda>addressed.
            thenB (bus_context_check_security_policy (Some (pe_connection entry)) addressed addressed (pe_message entry))
              (case addressed of
                 None \<Rightarrow> raiseB Abort
               | Some c \<Rightarrow> bus_transaction_send c (pe_message entry)))
       else returnB ())"

definition bus_activation_send_pending_auto_activation_messages :: "addr \<Rightarrow> unit bus" where
  "bus_activation_send_pending_auto_activation_messages service =
     bindB (get_service service) (\<lambda>v.
     bindB (getsB (\<lambda>s. pending_activations s (bs_name v))) (\<lambda>pending.
       case pending of
         None \<Rightarrow> returnB ()
       | Some a \<Rightarrow>
           bindB (get_pending a) (\<lambda>p.
           thenB (foreachB (send_auto_activation_message service) (pa_entries p))
          (thenB (add_restore_pending_to_transaction a)
                 (pending_hash_remove (bs_name v))))))"

section \<open>The registry\<close>

definition bus_registry_ensure :: "dbus_string \<Rightarrow> conn \<Rightarrow> 32 word \<Rightarrow> addr bus" where
  "bus_registry_ensure service_name c flags =
     bindB (bus_registry_lookup service_name) (\<lambda>found.
       case found of
         Some a \<Rightarrow> returnB a
       | None \<Rightarrow>
           thenB allocB (thenB allocB
          (bindB (getsB next_addr) (\<lambda>a.
           thenB (modifyB (\<lambda>s. s \<lparr> next_addr := next_addr s + 1,
                                   service_pool := (service_pool s)(a \<mapsto>
                                     \<lparr> bs_refcount = 1, bs_name = service_name, bs_owners = [] \<rparr>) \<rparr>))
          (catchB (bindB (bus_connection_get_name c) (\<lambda>owner_name.
                        thenB (bus_driver_send_service_owner_changed service_name None owner_name)
                       (thenB (bus_activation_service_created service_name)
                              (bus_service_add_owner a c flags))))
             (\<lambda>e. thenB (bus_service_unref a) (raiseB e))
             (\<lambda>_.
                 thenB allocB
                (thenB (modifyB (\<lambda>s. s \<lparr> service_hash := (service_hash s)(service_name \<mapsto> a) \<rparr>))
                       (returnB a))))))))"

text \<open>
  \<open>_dbus_get_base_service_name_and_pid\<close>: the part of a name before the first
  \<open>.unique-\<close> and the number after it (\<open>atoi\<close>), when that is not 0.
\<close>

fun split_at_unique :: "dbus_string \<Rightarrow> (dbus_string \<times> dbus_string) option" where
  "split_at_unique [] = None"
| "split_at_unique (c # cs) =
     (if take 8 (c # cs) = str ''.unique-'' then Some ([], drop 8 (c # cs))
      else map_option (\<lambda>(before, rest). (c # before, rest)) (split_at_unique cs))"

definition atoi :: "dbus_string \<Rightarrow> int" where
  "atoi s =
     (let s1 = dropWhile is_space s;
          negative = (case s1 of c # _ \<Rightarrow> c = 45 | [] \<Rightarrow> False);
          s2 = (case s1 of c # cs \<Rightarrow> if c = 43 \<or> c = 45 then cs else s1 | [] \<Rightarrow> []);
          v = int (digits_value 10 0 (takeWhile (is_digit_in 10) s2))
      in if negative then - v else v)"

definition dbus_get_base_service_name_and_pid :: "dbus_string \<Rightarrow> (dbus_string \<times> int) option" where
  "dbus_get_base_service_name_and_pid name =
     (case split_at_unique name of
        None \<Rightarrow> None
      | Some (base, rest) \<Rightarrow> (let pid = atoi rest in if pid = 0 then None else Some (base, pid)))"

definition dbus_find_unique_pid :: "BusContext \<Rightarrow> dbus_string \<Rightarrow> int" where
  "dbus_find_unique_pid s name = (case unique_pid_hash s name of None \<Rightarrow> 0 | Some pid \<Rightarrow> pid)"

definition first_byte :: "dbus_string \<Rightarrow> byte" where
  "first_byte s = (case s of [] \<Rightarrow> 0 | c # _ \<Rightarrow> c)"

definition bus_registry_release_service :: "conn \<Rightarrow> dbus_string \<Rightarrow> 32 word bus" where
  "bus_registry_release_service c service_name =
     thenB (unlessB (validates dbus_validate_bus_name service_name) (BusError DBUS_ERROR_INVALID_ARGS))
    (thenB (unlessB (first_byte service_name \<noteq> COLON_CHAR) (BusError DBUS_ERROR_INVALID_ARGS))
    (thenB (unlessB (service_name \<noteq> DBUS_SERVICE_DBUS) (BusError DBUS_ERROR_INVALID_ARGS))
    (bindB (bus_registry_lookup service_name) (\<lambda>found.
     bindB (case found of
              None \<Rightarrow> returnB DBUS_RELEASE_NAME_REPLY_NON_EXISTENT
            | Some service \<Rightarrow>
                bindB (bus_service_has_owner service c) (\<lambda>owns.
                  if \<not> owns then returnB DBUS_RELEASE_NAME_REPLY_NOT_OWNER
                  else thenB (bus_service_remove_owner service c)
                      (bindB (bus_service_has_owner service c) (\<lambda>still.
                       thenB (assertB (\<not> still)) (returnB DBUS_RELEASE_NAME_REPLY_RELEASED))))) (\<lambda>result.
     thenB (modifyB (\<lambda>s. s \<lparr> unique_pid_hash := (unique_pid_hash s)(service_name := None) \<rparr>))
           (returnB result))))))"

definition release_old_service_if_unique :: "conn \<Rightarrow> dbus_string \<Rightarrow> int \<Rightarrow> unit bus" where
  "release_old_service_if_unique c base pid =
     bindB (getsB (\<lambda>s. dbus_find_unique_pid s base)) (\<lambda>old_pid.
     bindB (getsB (\<lambda>s. env_process_exists (env s) old_pid)) (\<lambda>exists.
       if pid = old_pid then returnB ()
       else if old_pid \<noteq> 0 \<and> exists then returnB ()
       else
         thenB (if old_pid \<noteq> 0
                then bindB (bus_registry_lookup base) (\<lambda>found.
                     bindB (case found of
                              None \<Rightarrow> returnB c
                            | Some service \<Rightarrow>
                                bindB (bus_service_get_primary_owners_connection service) (\<lambda>p.
                                  case p of None \<Rightarrow> raiseB Abort | Some c' \<Rightarrow> returnB c')) (\<lambda>to_release.
                     bindB (bus_registry_release_service to_release base) (\<lambda>_. returnB ())))
                else returnB ())
        (thenB allocB
               (modifyB (\<lambda>s. s \<lparr> unique_pid_hash := (unique_pid_hash s)(base \<mapsto> pid) \<rparr>)))))"


text \<open>The branch of \<open>bus_registry_acquire_service\<close> that depends on the queue (lines 689 to 763).\<close>

definition acquire_from_queue ::
  "addr \<Rightarrow> conn \<Rightarrow> 32 word \<Rightarrow> conn option \<Rightarrow> addr \<Rightarrow> 32 word bus" where
  "acquire_from_queue service c flags old_owner primary_owner =
     bindB (get_owner primary_owner) (\<lambda>primary.
       case old_owner of
         None \<Rightarrow>
           thenB (assertB (bo_conn primary = c)) (returnB DBUS_REQUEST_NAME_REPLY_PRIMARY_OWNER)
       | Some old_conn \<Rightarrow>
           (if old_conn = c
            then thenB (bus_owner_set_flags primary_owner flags) (returnB DBUS_REQUEST_NAME_REPLY_ALREADY_OWNER)
            else
              bindB (bus_service_get_allow_replacement service) (\<lambda>allow_replacement.
              if (do_not_queue_flag flags \<and> \<not> allow_replacement) \<or>
                 (do_not_queue_flag flags \<and> \<not> replace_existing_flag flags)
              then
                bindB (bus_service_find_owner_link service c) (\<lambda>link.
                thenB (case link of
                         None \<Rightarrow> returnB ()
                       | Some owner \<Rightarrow> thenB (set_owners service (remove1 owner)) (bus_owner_unref owner))
                      (returnB DBUS_REQUEST_NAME_REPLY_EXISTS))
              else if \<not> do_not_queue_flag flags \<and>
                      (\<not> replace_existing_flag flags \<or> \<not> allow_replacement)
              then
                thenB (bus_service_add_owner service c flags) (returnB DBUS_REQUEST_NAME_REPLY_IN_QUEUE)
              else
                thenB (bus_service_add_owner service c flags)
               (thenB (if bo_do_not_queue primary
                       then bus_service_remove_owner service old_conn
                       else bus_service_swap_owner service old_conn)
               (bindB (bus_service_get_primary_owners_connection service) (\<lambda>p.
                thenB (assertB (p = Some c)) (returnB DBUS_REQUEST_NAME_REPLY_PRIMARY_OWNER)))))))"

text \<open>The checks a request passes before the registry is touched (lines 578 to 670).\<close>

definition acquire_checks :: "conn \<Rightarrow> dbus_string \<Rightarrow> unit bus" where
  "acquire_checks c service_name =
     thenB (unlessB (validates dbus_validate_bus_name service_name) (BusError DBUS_ERROR_INVALID_ARGS))
    (thenB (unlessB (first_byte service_name \<noteq> COLON_CHAR) (BusError DBUS_ERROR_INVALID_ARGS))
    (thenB (unlessB (service_name \<noteq> DBUS_SERVICE_DBUS) (BusError DBUS_ERROR_INVALID_ARGS))
    (bindB (bus_connection_get_policy c) (\<lambda>policy.
     bindB (getsB (\<lambda>s. env_selinux_acquire (env s) c service_name)) (\<lambda>selinux_ok.
     thenB (unlessB selinux_ok (BusError DBUS_ERROR_ACCESS_DENIED))
    (thenB (unlessB (bus_client_policy_check_can_own policy service_name) (BusError DBUS_ERROR_ACCESS_DENIED))
    (bindB (get_conn c) (\<lambda>d.
     bindB (getsB (\<lambda>s. cd_n_services_owned d \<ge> max_services_per_connection (limits s))) (\<lambda>many.
     unlessB (\<not> many) (BusError DBUS_ERROR_LIMITS_EXCEEDED))))))))))"

text \<open>
  The part after the checks (lines 672 to 777).  A service without an owner makes
  the code return \<open>FALSE\<close> without setting the error, against which its caller
  asserts.
\<close>

definition acquire_checked :: "conn \<Rightarrow> dbus_string \<Rightarrow> 32 word \<Rightarrow> 32 word bus" where
  "acquire_checked c service_name flags =
     bindB (bus_registry_lookup service_name) (\<lambda>found.
     bindB (case found of
              None \<Rightarrow> returnB None
            | Some a \<Rightarrow> bus_service_get_primary_owners_connection a) (\<lambda>old_owner.
     bindB (case found of
              Some a \<Rightarrow> returnB a
            | None \<Rightarrow> bus_registry_ensure service_name c flags) (\<lambda>service.
     bindB (bus_service_get_primary_owner service) (\<lambda>primary.
       case primary of
         None \<Rightarrow> raiseB Abort
       | Some primary_owner \<Rightarrow>
           bindB (acquire_from_queue service c flags old_owner primary_owner) (\<lambda>result.
           thenB (bus_activation_send_pending_auto_activation_messages service)
                 (returnB result))))))"

definition bus_registry_acquire_service :: "conn \<Rightarrow> dbus_string \<Rightarrow> 32 word \<Rightarrow> 32 word bus" where
  "bus_registry_acquire_service c a_service_name flags =
     (let (service_name, unique) =
            (case dbus_get_base_service_name_and_pid a_service_name of
               None \<Rightarrow> (a_service_name, None)
             | Some (base, pid) \<Rightarrow> (base, Some pid)) in
      thenB (case unique of
               None \<Rightarrow> returnB ()
             | Some pid \<Rightarrow>
                 bindB (tryB (release_old_service_if_unique c service_name pid)) (\<lambda>_. returnB ()))
     (thenB (acquire_checks c service_name)
            (acquire_checked c service_name flags)))"

fun queued_owner_names :: "addr list \<Rightarrow> dbus_string option list bus" where
  "queued_owner_names [] = returnB []"
| "queued_owner_names (a # as) =
     bindB (get_owner a) (\<lambda>own.
     bindB (bus_connection_get_name (bo_conn own)) (\<lambda>name.
     thenB allocB
    (bindB (queued_owner_names as) (\<lambda>names. returnB (name # names)))))"

definition bus_service_list_queued_owners :: "addr \<Rightarrow> dbus_string option list bus" where
  "bus_service_list_queued_owners service =
     bindB (get_service service) (\<lambda>v.
     thenB (assertB (bs_owners v \<noteq> [])) (queued_owner_names (bs_owners v)))"

section \<open>Ending a transaction\<close>

definition run_cancel_hook :: "CancelHook \<Rightarrow> unit bus" where
  "run_cancel_hook h =
     (case h of
        CancelOwnership owner service \<Rightarrow> cancel_ownership owner service
      | RestoreOwnership owner service before_owner \<Rightarrow> restore_ownership owner service before_owner
      | CancelPendingReply a \<Rightarrow>
          bindB (getsB (\<lambda>s. list_ex (\<lambda>p. pr_addr p = a) (pending_replies s))) (\<lambda>found.
          thenB (assertB found)
                (modifyB (\<lambda>s. s \<lparr> pending_replies := filter (\<lambda>p. pr_addr p \<noteq> a) (pending_replies s) \<rparr>)))
      | CancelCheckPendingReply p \<Rightarrow> modifyB (\<lambda>s. s \<lparr> pending_replies := p # pending_replies s \<rparr>)
      | RestorePending a \<Rightarrow> restore_pending a
      | CancelPending a \<Rightarrow> cancel_pending a)"

definition free_cancel_hook :: "CancelHook \<Rightarrow> unit bus" where
  "free_cancel_hook h =
     (case h of
        CancelOwnership owner service \<Rightarrow> free_ownership_data owner service
      | RestoreOwnership owner service before_owner \<Rightarrow> free_ownership_data owner service
      | RestorePending a \<Rightarrow> bus_pending_activation_unref a
      | CancelPending a \<Rightarrow> bus_pending_activation_unref a
      | _ \<Rightarrow> returnB ())"

definition connection_cancel_transaction :: "conn \<Rightarrow> unit bus" where
  "connection_cancel_transaction c = update_conn c (\<lambda>d. d \<lparr> cd_transaction_messages := [] \<rparr>)"

definition bus_transaction_cancel_and_free :: "unit bus" where
  "bus_transaction_cancel_and_free =
     bindB (getsB transaction) (\<lambda>t.
     thenB (foreachB connection_cancel_transaction (tr_connections t))
    (thenB (foreachB run_cancel_hook (tr_cancel_hooks t))
    (thenB (foreachB free_cancel_hook (tr_cancel_hooks t))
           (modifyB (\<lambda>s. s \<lparr> transaction := \<lparr> tr_connections = [], tr_cancel_hooks = [] \<rparr> \<rparr>)))))"

text \<open>Messages were prepended; they are sent from the last to the first.\<close>

definition connection_execute_transaction :: "conn \<Rightarrow> unit bus" where
  "connection_execute_transaction c =
     bindB (get_conn c) (\<lambda>d.
     thenB (update_conn c (\<lambda>d. d \<lparr> cd_transaction_messages := [] \<rparr>))
           (foreachB (dbus_connection_send_preallocated c) (rev (cd_transaction_messages d))))"

definition bus_transaction_execute_and_free :: "unit bus" where
  "bus_transaction_execute_and_free =
     bindB (getsB transaction) (\<lambda>t.
     thenB (foreachB connection_execute_transaction (tr_connections t))
    (thenB (foreachB free_cancel_hook (tr_cancel_hooks t))
           (modifyB (\<lambda>s. s \<lparr> transaction := \<lparr> tr_connections = [], tr_cancel_hooks = [] \<rparr> \<rparr>))))"

section \<open>What the operations keep\<close>

text \<open>
  As for sending: a relation that the primitive changes are in is kept by the
  operations built from them.  First the operations on pending activations, then
  those on services and owners and the cancel hooks, none of which sends.
\<close>

locale pending_objects_frame = frame_relation +
  assumes prim_pending_activations [steps_intros]: "steps R (modifyB (\<lambda>s. s \<lparr> pending_activations := g1 s \<rparr>))"
    and prim_pending_pool [steps_intros]: "steps R (modifyB (\<lambda>s. s \<lparr> pending_pool := g2 s \<rparr>))"
    and prim_n_pending [steps_intros]: "steps R (modifyB (\<lambda>s. s \<lparr> n_pending_activations := g3 s \<rparr>))"
begin

lemma keeps_get_pending [steps_intros]: "steps R (get_pending a)"
  by (simp add: get_pending_def steps_deref)

lemma keeps_update_pending [steps_intros]: "steps R (update_pending a f)"
  unfolding update_pending_def by (intro steps_intros)

lemma keeps_pending_ref [steps_intros]: "steps R (bus_pending_activation_ref a)"
  unfolding bus_pending_activation_ref_def by (intro steps_intros)

lemma keeps_pending_unref [steps_intros]: "steps R (bus_pending_activation_unref a)"
  unfolding bus_pending_activation_unref_def by (intro steps_intros)

lemma keeps_pending_hash_remove [steps_intros]: "steps R (pending_hash_remove n)"
  unfolding pending_hash_remove_def by (intro steps_intros)

lemma keeps_pending_hash_insert [steps_intros]: "steps R (pending_hash_insert n a)"
  unfolding pending_hash_insert_def by (intro steps_intros)

lemma keeps_cancel_pending [steps_intros]: "steps R (cancel_pending a)"
  unfolding cancel_pending_def by (intro steps_intros)

lemma keeps_restore_pending [steps_intros]: "steps R (restore_pending a)"
  unfolding restore_pending_def by (intro steps_intros)

end

locale objects_frame = pending_objects_frame +
  assumes prim_update_owned:
      "(\<And>d. cd_name (f d) = cd_name d \<and> cd_policy (f d) = cd_policy d \<and>
             cd_transaction_messages (f d) = cd_transaction_messages d) \<Longrightarrow> steps R (update_conn c f)"
    and prim_service_pool [steps_intros]: "steps R (modifyB (\<lambda>s. s \<lparr> service_pool := g4 s \<rparr>))"
    and prim_owner_pool [steps_intros]: "steps R (modifyB (\<lambda>s. s \<lparr> owner_pool := g5 s \<rparr>))"
    and prim_service_hash [steps_intros]: "steps R (modifyB (\<lambda>s. s \<lparr> service_hash := g6 s \<rparr>))"
    and prim_hook_replies [steps_intros]: "steps R (modifyB (\<lambda>s. s \<lparr> pending_replies := g7 s \<rparr>))"
begin

lemma keeps_owned_get_conn [steps_intros]: "steps R (get_conn c)"
  by (simp add: get_conn_def steps_deref)

lemma keeps_get_service [steps_intros]: "steps R (get_service a)"
  by (simp add: get_service_def steps_deref)

lemma keeps_get_owner [steps_intros]: "steps R (get_owner a)"
  by (simp add: get_owner_def steps_deref)

lemma keeps_update_service [steps_intros]: "steps R (update_service a f)"
  unfolding update_service_def by (intro steps_intros)

lemma keeps_update_owner [steps_intros]: "steps R (update_owner a f)"
  unfolding update_owner_def by (intro steps_intros)

lemma keeps_set_owners [steps_intros]: "steps R (set_owners a f)"
  unfolding set_owners_def by (intro steps_intros)

lemma keeps_find_owner_link_loop [steps_intros]: "steps R (find_owner_link_loop c as)"
  by (induction as) (auto intro!: steps_intros)

lemma keeps_find_owner_link [steps_intros]: "steps R (bus_service_find_owner_link a c)"
  unfolding bus_service_find_owner_link_def by (intro steps_intros)

lemma keeps_set_flags [steps_intros]: "steps R (bus_owner_set_flags a fl)"
  unfolding bus_owner_set_flags_def by (intro steps_intros)

lemma keeps_add_owned_link [steps_intros]: "steps R (bus_connection_add_owned_service_link c a)"
  unfolding bus_connection_add_owned_service_link_def by (intro steps_intros prim_update_owned) simp

lemma keeps_remove_owned [steps_intros]: "steps R (bus_connection_remove_owned_service c a)"
  unfolding bus_connection_remove_owned_service_def by (intro steps_intros prim_update_owned) simp

lemma keeps_owner_ref [steps_intros]: "steps R (bus_owner_ref a)"
  unfolding bus_owner_ref_def by (intro steps_intros)

lemma keeps_owner_unref [steps_intros]: "steps R (bus_owner_unref a)"
  unfolding bus_owner_unref_def by (intro steps_intros)

lemma keeps_service_ref [steps_intros]: "steps R (bus_service_ref a)"
  unfolding bus_service_ref_def by (intro steps_intros)

lemma keeps_service_unref [steps_intros]: "steps R (bus_service_unref a)"
  unfolding bus_service_unref_def by (intro steps_intros)

lemma keeps_lookup [steps_intros]: "steps R (bus_registry_lookup n)"
  unfolding bus_registry_lookup_def by (intro steps_intros)

lemma keeps_primary_owner [steps_intros]: "steps R (bus_service_get_primary_owner a)"
  unfolding bus_service_get_primary_owner_def by (intro steps_intros)

lemma keeps_primary_connection [steps_intros]: "steps R (bus_service_get_primary_owners_connection a)"
  unfolding bus_service_get_primary_owners_connection_def by (intro steps_intros)

lemma keeps_allow_replacement [steps_intros]: "steps R (bus_service_get_allow_replacement a)"
  unfolding bus_service_get_allow_replacement_def by (intro steps_intros)

lemma keeps_has_owner [steps_intros]: "steps R (bus_service_has_owner a c)"
  unfolding bus_service_has_owner_def by (intro steps_intros)

lemma keeps_unlink_owner [steps_intros]: "steps R (bus_service_unlink_owner a b)"
  unfolding bus_service_unlink_owner_def by (intro steps_intros)

lemma keeps_unlink [steps_intros]: "steps R (bus_service_unlink a)"
  unfolding bus_service_unlink_def by (intro steps_intros)

lemma keeps_relink [steps_intros]: "steps R (bus_service_relink a)"
  unfolding bus_service_relink_def by (intro steps_intros)

lemma keeps_cancel_ownership [steps_intros]: "steps R (cancel_ownership a b)"
  unfolding cancel_ownership_def by (intro steps_intros)

lemma keeps_free_ownership [steps_intros]: "steps R (free_ownership_data a b)"
  unfolding free_ownership_data_def by (intro steps_intros)

lemma keeps_restore_ownership [steps_intros]: "steps R (restore_ownership a b c)"
  unfolding restore_ownership_def by (intro steps_intros)

lemma keeps_run_cancel_hook [steps_intros]: "steps R (run_cancel_hook h)"
  unfolding run_cancel_hook_def by (auto intro!: steps_intros split: CancelHook.split)

lemma keeps_free_cancel_hook [steps_intros]: "steps R (free_cancel_hook h)"
  unfolding free_cancel_hook_def by (auto intro!: steps_intros split: CancelHook.split)

end

text \<open>Operations that send as well.\<close>

locale activation_frame = sending_frame + pending_objects_frame
begin

lemma keeps_add_restore_pending [steps_intros]: "steps R (add_restore_pending_to_transaction a)"
  unfolding add_restore_pending_to_transaction_def by (intro steps_intros)

lemma keeps_add_cancel_pending [steps_intros]: "steps R (add_cancel_pending_to_transaction a)"
  unfolding add_cancel_pending_to_transaction_def by (intro steps_intros)

lemma keeps_activation_reply [steps_intros]: "steps R (activation_reply e)"
  unfolding activation_reply_def by (intro steps_intros)

lemma keeps_service_created [steps_intros]: "steps R (bus_activation_service_created n)"
  unfolding bus_activation_service_created_def by (intro steps_intros)

end

locale bus_frame = activation_frame + objects_frame +
  assumes prim_new_service [steps_intros]:
      "steps R (modifyB (\<lambda>s. s \<lparr> next_addr := next_addr s + 1, service_pool := g8 s \<rparr>))"
    and prim_new_owner [steps_intros]:
      "steps R (modifyB (\<lambda>s. s \<lparr> next_addr := next_addr s + 1, owner_pool := g9 s \<rparr>))"
    and prim_unique_pid_hash [steps_intros]: "steps R (modifyB (\<lambda>s. s \<lparr> unique_pid_hash := g10 s \<rparr>))"
begin

lemma keeps_add_owned [steps_intros]: "steps R (bus_connection_add_owned_service c a)"
  unfolding bus_connection_add_owned_service_def by (intro steps_intros prim_update_owned) simp

lemma keeps_owner_new [steps_intros]: "steps R (bus_owner_new a c fl)"
  unfolding bus_owner_new_def by (intro steps_intros)

lemma keeps_add_cancel_ownership [steps_intros]: "steps R (add_cancel_ownership_to_transaction a b)"
  unfolding add_cancel_ownership_to_transaction_def by (intro steps_intros)

lemma keeps_add_restore_ownership [steps_intros]: "steps R (add_restore_ownership_to_transaction a b)"
  unfolding add_restore_ownership_to_transaction_def by (intro steps_intros)

lemma keeps_add_new_owner [steps_intros]: "steps R (add_new_owner_to_queue a c fl)"
  unfolding add_new_owner_to_queue_def by (intro steps_intros)

lemma keeps_update_queued_owner [steps_intros]: "steps R (update_queued_owner a b fl)"
  unfolding update_queued_owner_def by (intro steps_intros)

lemma keeps_add_owner [steps_intros]: "steps R (bus_service_add_owner a c fl)"
  unfolding bus_service_add_owner_def by (intro steps_intros)

lemma keeps_announce_next [steps_intros]: "steps R (announce_next_owner a c)"
  unfolding announce_next_owner_def by (auto intro!: steps_intros split: list.split)

lemma keeps_swap_owner [steps_intros]: "steps R (bus_service_swap_owner a c)"
  unfolding bus_service_swap_owner_def by (intro steps_intros)

lemma keeps_remove_queued [steps_intros]: "steps R (remove_queued_owner a c)"
  unfolding remove_queued_owner_def by (intro steps_intros)

lemma keeps_announce_removal [steps_intros]: "steps R (announce_removal a c)"
  unfolding announce_removal_def by (intro steps_intros)

lemma keeps_remove_primary [steps_intros]: "steps R (remove_primary_owner a c b)"
  unfolding remove_primary_owner_def by (intro steps_intros)

lemma keeps_remove_owner [steps_intros]: "steps R (bus_service_remove_owner a c)"
  unfolding bus_service_remove_owner_def by (intro steps_intros)

lemma keeps_send_auto_activation [steps_intros]: "steps R (send_auto_activation_message a e)"
  unfolding send_auto_activation_message_def by (intro steps_intros)

lemma keeps_send_pending_auto [steps_intros]:
  "steps R (bus_activation_send_pending_auto_activation_messages a)"
  unfolding bus_activation_send_pending_auto_activation_messages_def by (intro steps_intros)

lemma keeps_ensure [steps_intros]: "steps R (bus_registry_ensure n c fl)"
  unfolding bus_registry_ensure_def by (intro steps_intros)

lemma keeps_release_service [steps_intros]: "steps R (bus_registry_release_service c n)"
  unfolding bus_registry_release_service_def by (intro steps_intros)

lemma keeps_release_old [steps_intros]: "steps R (release_old_service_if_unique c n p)"
  unfolding release_old_service_if_unique_def by (intro steps_intros)

lemma keeps_acquire_from_queue [steps_intros]: "steps R (acquire_from_queue a c fl old b)"
  unfolding acquire_from_queue_def by (intro steps_intros)

lemma keeps_acquire_checks [steps_intros]: "steps R (acquire_checks c n)"
  unfolding acquire_checks_def by (intro steps_intros)

lemma keeps_acquire_checked [steps_intros]: "steps R (acquire_checked c n fl)"
  unfolding acquire_checked_def by (intro steps_intros)

lemma keeps_acquire_service [steps_intros]: "steps R (bus_registry_acquire_service c n fl)"
  unfolding bus_registry_acquire_service_def by (intro steps_intros)

lemma keeps_queued_owner_names [steps_intros]: "steps R (queued_owner_names as)"
  by (induction as) (auto intro!: steps_intros)

lemma keeps_list_queued_owners [steps_intros]: "steps R (bus_service_list_queued_owners a)"
  unfolding bus_service_list_queued_owners_def by (intro steps_intros)

end

end
