(* ===== verification/Bus_Ownership.thy ===== *)
theory Bus_Ownership
  imports Bus_Services
begin

text \<open>
  Correctness of name ownership: the operations of src/bus/services.c refine an
  abstract registry in which every name has a queue of owners.  The abstraction
  forgets the reference counts, the addresses and the cancel hooks.
\<close>

section \<open>The registry without reference counts\<close>

type_synonym owner_info = "addr \<times> conn \<times> bool \<times> bool"

definition owner_info :: "BusOwner \<Rightarrow> owner_info" where
  "owner_info w = (bo_service w, bo_conn w, bo_allow_replacement w, bo_do_not_queue w)"

definition S_of :: "BusContext \<Rightarrow> addr \<rightharpoonup> dbus_string \<times> addr list" where
  "S_of s a = map_option (\<lambda>v. (bs_name v, bs_owners v)) (service_pool s a)"

definition O_of :: "BusContext \<Rightarrow> addr \<rightharpoonup> owner_info" where
  "O_of s a = map_option owner_info (owner_pool s a)"

definition same_registry :: "BusContext \<Rightarrow> BusContext \<Rightarrow> bool" where
  "same_registry s s' \<longleftrightarrow>
     service_hash s' = service_hash s \<and> S_of s' = S_of s \<and> O_of s' = O_of s \<and> next_addr s \<le> next_addr s'"

interpretation registry_base: frame_relation same_registry
  by unfold_locales (auto simp: same_registry_def)

lemma registry_update_conn [steps_intros]: "steps same_registry (update_conn c f)"
  by (auto simp: steps_def update_conn_def get_conn_def bindB_def derefB_def modifyB_def same_registry_def
      S_of_def O_of_def fun_eq_iff split: option.split)

lemma registry_modify:
  assumes "\<And>s. service_hash (g s) = service_hash s \<and> service_pool (g s) = service_pool s \<and>
      owner_pool (g s) = owner_pool s \<and> next_addr s \<le> next_addr (g s)"
  shows "steps same_registry (modifyB g)"
  using assms by (intro steps_modify) (simp add: same_registry_def S_of_def O_of_def fun_eq_iff)

lemma registry_alloc: "steps same_registry allocB"
  by (rule registry_base.steps_alloc) (simp add: same_registry_def S_of_def O_of_def fun_eq_iff)

interpretation registry_frame: activation_frame same_registry
proof
  show "steps same_registry (bus_transaction_send c m)" for c m
    unfolding bus_transaction_send_def get_conn_def
    by (intro steps_intros registry_update_conn registry_alloc registry_modify) simp
qed (auto simp: bus_transaction_add_cancel_hook_def bus_connections_increment_stamp_def
    intro!: steps_intros registry_modify registry_alloc)

lemma registry_get_service [steps_intros]: "steps same_registry (get_service a)"
  by (simp add: get_service_def steps_intros)

lemma registry_get_owner [steps_intros]: "steps same_registry (get_owner a)"
  by (simp add: get_owner_def steps_intros)

lemma registry_update_service:
  assumes "\<And>v. bs_name (f v) = bs_name v" and "\<And>v. bs_owners (f v) = bs_owners v"
  shows "steps same_registry (update_service a f)"
  using assms
  by (auto simp: steps_def update_service_def get_service_def bindB_def derefB_def modifyB_def same_registry_def
      S_of_def O_of_def fun_eq_iff split: option.split)

lemma registry_update_owner:
  assumes "\<And>v. owner_info (f v) = owner_info v"
  shows "steps same_registry (update_owner a f)"
  using assms
  by (auto simp: steps_def update_owner_def get_owner_def bindB_def derefB_def modifyB_def same_registry_def
      S_of_def O_of_def fun_eq_iff split: option.split)

lemma registry_service_ref [steps_intros]: "steps same_registry (bus_service_ref a)"
  by (auto simp: bus_service_ref_def intro!: steps_intros registry_update_service)

lemma registry_owner_ref [steps_intros]: "steps same_registry (bus_owner_ref a)"
  by (auto simp: bus_owner_ref_def owner_info_def intro!: steps_intros registry_update_owner)

lemma registry_add_owned [steps_intros]: "steps same_registry (bus_connection_add_owned_service c a)"
  unfolding bus_connection_add_owned_service_def
  by (intro steps_intros)

lemma registry_remove_owned [steps_intros]: "steps same_registry (bus_connection_remove_owned_service c a)"
  unfolding bus_connection_remove_owned_service_def
  by (intro steps_intros)

lemma registry_add_cancel_ownership [steps_intros]:
  "steps same_registry (add_cancel_ownership_to_transaction a b)"
  unfolding add_cancel_ownership_to_transaction_def
  by (intro steps_intros)

section \<open>Effects of the operations that succeed\<close>

lemma get_service_Inr:
  "get_service a s = (Inr v, s') \<longleftrightarrow> service_pool s a = Some v \<and> s' = s"
  by (simp add: get_service_def)

lemma get_owner_Inr:
  "get_owner a s = (Inr w, s') \<longleftrightarrow> owner_pool s a = Some w \<and> s' = s"
  by (simp add: get_owner_def)

lemma S_of_Some: "service_pool s a = Some v \<Longrightarrow> S_of s a = Some (bs_name v, bs_owners v)"
  by (simp add: S_of_def)

lemma O_of_Some: "owner_pool s a = Some w \<Longrightarrow> O_of s a = Some (owner_info w)"
  by (simp add: O_of_def)

lemma set_owners_Inr:
  assumes "set_owners a f s = (Inr u, s')"
  obtains n os where "S_of s a = Some (n, os)" and "S_of s' = (S_of s)(a \<mapsto> (n, f os))"
    and "O_of s' = O_of s" and "service_hash s' = service_hash s" and "next_addr s' = next_addr s"
  using assms
  by (auto simp: set_owners_def update_service_def get_service_def S_of_def O_of_def fun_eq_iff)

lemma set_flags_Inr:
  assumes "bus_owner_set_flags a flags s = (Inr u, s')"
  obtains sv c al dn where "O_of s a = Some (sv, c, al, dn)"
    and "O_of s' = (O_of s)(a \<mapsto> (sv, c, allow_replacement_flag flags, do_not_queue_flag flags))"
    and "S_of s' = S_of s" and "service_hash s' = service_hash s" and "next_addr s' = next_addr s"
  using assms
  by (auto simp: bus_owner_set_flags_def update_owner_def get_owner_def owner_set_flags_def owner_info_def
      S_of_def O_of_def fun_eq_iff)

lemma owner_new_Inr:
  assumes "bus_owner_new sv c flags s = (Inr a, s')"
  shows "next_addr s \<le> a" and "a < next_addr s'" and "S_of s' = S_of s" and "service_hash s' = service_hash s"
    and "O_of s' = (O_of s)(a \<mapsto> (sv, c, allow_replacement_flag flags, do_not_queue_flag flags))"
proof -
  from assms obtain s1 s2 s3 u r where alloc: "allocB s = (Inr u, s1)" and a: "a = next_addr s1"
    and s2: "s2 = s1 \<lparr> next_addr := a + 1,
                       owner_pool := (owner_pool s1)(a \<mapsto>
                         \<lparr> bo_refcount = 1, bo_service = sv, bo_conn = c,
                           bo_allow_replacement = False, bo_do_not_queue = False \<rparr>) \<rparr>"
    and add: "bus_connection_add_owned_service c sv s2 = (Inr r, s3)"
    and flags: "bus_owner_set_flags a flags s3 = (Inr (), s')"
    by (auto simp: bus_owner_new_def split: sum.splits)
  have 1: "same_registry s s1"
    by (rule stepsD [OF registry_alloc alloc])
  have 3: "same_registry s2 s3"
    by (rule stepsD [OF registry_add_owned add])
  have 2: "S_of s2 = S_of s1" "O_of s2 = (O_of s1)(a \<mapsto> (sv, c, False, False))"
    "service_hash s2 = service_hash s1" "next_addr s2 = a + 1"
    by (auto simp: s2 S_of_def O_of_def owner_info_def fun_eq_iff)
  from flags obtain sv' c' al dn where 4: "O_of s3 a = Some (sv', c', al, dn)"
    "O_of s' = (O_of s3)(a \<mapsto> (sv', c', allow_replacement_flag flags, do_not_queue_flag flags))"
    "S_of s' = S_of s3" "service_hash s' = service_hash s3" "next_addr s' = next_addr s3"
    by (rule set_flags_Inr)
  show "next_addr s \<le> a" "a < next_addr s'" "S_of s' = S_of s" "service_hash s' = service_hash s"
    "O_of s' = (O_of s)(a \<mapsto> (sv, c, allow_replacement_flag flags, do_not_queue_flag flags))"
    using 1 2 3 4 a by (auto simp: same_registry_def)
qed

lemma owner_unref_Inr:
  assumes "bus_owner_unref a s = (Inr u, s')"
  shows "S_of s' = S_of s" and "service_hash s' = service_hash s" and "next_addr s \<le> next_addr s'"
    and "O_of s' = O_of s \<or> O_of s' = (O_of s)(a := None)"
proof -
  have "steps same_registry (update_owner a (\<lambda>own. own \<lparr> bo_refcount := bo_refcount own - 1 \<rparr>))"
    by (rule registry_update_owner) (simp add: owner_info_def)
  moreover have "S_of (t \<lparr> owner_pool := p \<rparr>) = S_of t"
    "O_of (t \<lparr> owner_pool := (owner_pool t)(a := None) \<rparr>) = (O_of t)(a := None)" for t p
    by (auto simp: S_of_def O_of_def fun_eq_iff)
  ultimately show "S_of s' = S_of s" "service_hash s' = service_hash s" "next_addr s \<le> next_addr s'"
    "O_of s' = O_of s \<or> O_of s' = (O_of s)(a := None)"
    using assms
    by (auto simp: bus_owner_unref_def get_owner_def same_registry_def split: if_splits
        dest!: stepsD stepsD [OF registry_remove_owned])
qed

lemma service_unref_Inr:
  assumes "bus_service_unref a s = (Inr u, s')"
  shows "O_of s' = O_of s" and "service_hash s' = service_hash s" and "next_addr s \<le> next_addr s'"
    and "S_of s' = S_of s \<or> S_of s' = (S_of s)(a := None)"
proof -
  have "steps same_registry (update_service a (\<lambda>v. v \<lparr> bs_refcount := bs_refcount v - 1 \<rparr>))"
    by (rule registry_update_service) simp_all
  moreover have "O_of (t \<lparr> service_pool := p \<rparr>) = O_of t"
    "S_of (t \<lparr> service_pool := (service_pool t)(a := None) \<rparr>) = (S_of t)(a := None)" for t p
    by (auto simp: S_of_def O_of_def fun_eq_iff)
  ultimately show "O_of s' = O_of s" "service_hash s' = service_hash s" "next_addr s \<le> next_addr s'"
    "S_of s' = S_of s \<or> S_of s' = (S_of s)(a := None)"
    using assms
    by (auto simp: bus_service_unref_def get_service_def same_registry_def split: if_splits dest!: stepsD)
qed

text \<open>The connection of an owner, and the lookup in a queue.\<close>

definition conn_at :: "BusContext \<Rightarrow> addr \<Rightarrow> conn option" where
  "conn_at s a = map_option (\<lambda>(sv, c, al, dn). c) (O_of s a)"

lemma find_owner_link_loop_Inr:
  "find_owner_link_loop c os s = (Inr r, s') \<Longrightarrow> s' = s \<and> r = find (\<lambda>a. conn_at s a = Some c) os"
  by (induction os)
    (auto simp: get_owner_def conn_at_def O_of_def owner_info_def split: if_splits)

lemma find_owner_link_Inr:
  assumes "bus_service_find_owner_link a c s = (Inr r, s')"
  obtains n os where "s' = s" and "S_of s a = Some (n, os)" and "r = find (\<lambda>a. conn_at s a = Some c) os"
  using assms find_owner_link_loop_Inr
  by (fastforce simp: bus_service_find_owner_link_def get_service_def S_of_def)


section \<open>Well-formed registries and queues\<close>

text \<open>
  The pools are well formed when the owners of a service exist, point back to
  it, and are owners for different connections, and when addresses not yet
  handed out are unused.
\<close>

definition pools_ok :: "BusContext \<Rightarrow> bool" where
  "pools_ok s \<longleftrightarrow>
     (\<forall>a n os. S_of s a = Some (n, os) \<longrightarrow>
        distinct os \<and> distinct (map (conn_at s) os) \<and>
        (\<forall>x\<in>set os. \<exists>c al dn. O_of s x = Some (a, c, al, dn))) \<and>
     (\<forall>a. next_addr s \<le> a \<longrightarrow> S_of s a = None \<and> O_of s a = None)"

text \<open>An entry of a queue: connection, allows replacement, does not want to queue.\<close>

type_synonym queue_entry = "conn \<times> bool \<times> bool"

definition entry :: "BusContext \<Rightarrow> addr \<Rightarrow> queue_entry" where
  "entry s a = (case O_of s a of Some (sv, e) \<Rightarrow> e | None \<Rightarrow> (0, False, False))"

definition queue_at :: "BusContext \<Rightarrow> addr \<Rightarrow> queue_entry list" where
  "queue_at s a = (case S_of s a of None \<Rightarrow> [] | Some (n, os) \<Rightarrow> map (entry s) os)"

definition changes_only :: "addr \<Rightarrow> BusContext \<Rightarrow> BusContext \<Rightarrow> bool" where
  "changes_only a s s' \<longleftrightarrow>
     service_hash s' = service_hash s \<and> next_addr s \<le> next_addr s' \<and>
     (\<forall>b. b \<noteq> a \<longrightarrow> S_of s' b = S_of s b \<and> queue_at s' b = queue_at s b) \<and>
     map_option fst (S_of s' a) = map_option fst (S_of s a)"

lemma changes_only_trans: "changes_only a s t \<Longrightarrow> changes_only a t u \<Longrightarrow> changes_only a s u"
  by (auto simp: changes_only_def)

lemma entry_cong: "O_of s' = O_of s \<Longrightarrow> entry s' = entry s \<and> conn_at s' = conn_at s"
  by (simp add: fun_eq_iff entry_def conn_at_def)

lemma same_registry_changes:
  assumes "same_registry s s'"
  shows "changes_only a s s'" and "queue_at s' a = queue_at s a" and "pools_ok s \<Longrightarrow> pools_ok s'"
  using assms entry_cong [of s' s]
  by (auto simp: changes_only_def queue_at_def same_registry_def pools_ok_def split: option.split)

lemma pools_okD:
  assumes "pools_ok s" and "S_of s a = Some (n, os)"
  shows "distinct os" and "distinct (map (conn_at s) os)"
    and "x \<in> set os \<Longrightarrow> \<exists>c al dn. O_of s x = Some (a, c, al, dn)"
  using assms by (auto simp: pools_ok_def)

lemma pools_ok_fresh: "pools_ok s \<Longrightarrow> next_addr s \<le> a \<Longrightarrow> S_of s a = None \<and> O_of s a = None"
  by (simp add: pools_ok_def)

lemma conn_at_entry:
  assumes "pools_ok s" and "S_of s a = Some (n, os)" and "x \<in> set os"
  shows "conn_at s x = Some (fst (entry s x))"
  using pools_okD(3) [OF assms] by (auto simp: conn_at_def entry_def)

text \<open>
  The step all changes of a queue come down to: the list of one service gets a
  new value, and only owners of that service, or new ones, are written to.
\<close>

lemma queue_update:
  assumes ok: "pools_ok s" and S: "S_of s a = Some (n, os)" and S': "S_of s' = (S_of s)(a \<mapsto> (n, os'))"
    and hash: "service_hash s' = service_hash s" and mono: "next_addr s \<le> next_addr s'"
    and others: "\<And>x sv e. O_of s x = Some (sv, e) \<Longrightarrow> sv \<noteq> a \<Longrightarrow> O_of s' x = O_of s x"
    and fresh: "\<And>x. next_addr s' \<le> x \<Longrightarrow> O_of s' x = None"
    and owners: "distinct os'" "distinct (map (conn_at s') os')"
      "\<And>x. x \<in> set os' \<Longrightarrow> \<exists>c al dn. O_of s' x = Some (a, c, al, dn)"
  shows "pools_ok s'" and "changes_only a s s'" and "queue_at s' a = map (entry s') os'"
proof -
  have a: "a < next_addr s'"
    using ok S mono by (metis leI le_trans option.distinct(1) pools_ok_fresh)
  have other: "O_of s' x = O_of s x" if "S_of s b = Some (m, xs)" "b \<noteq> a" "x \<in> set xs" for b m xs x
    using pools_okD(3) [OF ok that(1,3)] that(2) others by fastforce
  then have conn: "map (conn_at s') xs = map (conn_at s) xs" "map (entry s') xs = map (entry s) xs"
    if "S_of s b = Some (m, xs)" "b \<noteq> a" for b m xs
    using that by (auto simp: conn_at_def entry_def)
  show "queue_at s' a = map (entry s') os'"
    by (simp add: queue_at_def S')
  show "changes_only a s s'"
    using hash mono S S' conn(2) by (auto simp: changes_only_def queue_at_def split: option.split)
  show "pools_ok s'"
    unfolding pools_ok_def
  proof (intro conjI allI impI)
    fix b m xs
    assume b: "S_of s' b = Some (m, xs)"
    show "distinct xs" "distinct (map (conn_at s') xs)"
      using b S' owners(1,2) pools_okD(1,2) [OF ok] conn(1) [of b m xs] by (auto simp del: map_eq_conv split: if_splits)
    show "\<forall>x\<in>set xs. \<exists>c al dn. O_of s' x = Some (b, c, al, dn)"
      using b S' owners(3) pools_okD(3) [OF ok] other by (auto split: if_splits)
  next
    fix x
    assume x: "next_addr s' \<le> x"
    then have "next_addr s \<le> x" and "x \<noteq> a"
      using a mono by auto
    then show "S_of s' x = None" "O_of s' x = None"
      using ok fresh x by (auto simp: S' pools_ok_fresh)
  qed
qed


section \<open>The abstract operations on a queue\<close>

definition new_entry :: "conn \<Rightarrow> 32 word \<Rightarrow> queue_entry" where
  "new_entry c flags = (c, allow_replacement_flag flags, do_not_queue_flag flags)"

definition without :: "conn \<Rightarrow> queue_entry list \<Rightarrow> queue_entry list" where
  "without c q = filter (\<lambda>e. fst e \<noteq> c) q"

text \<open>
  Queueing: a connection that wants to replace the owner goes to the second
  place, any other one to the end, unless it is in the queue already.
\<close>

definition enqueue :: "conn \<Rightarrow> 32 word \<Rightarrow> queue_entry list \<Rightarrow> queue_entry list" where
  "enqueue c flags q =
     (if replace_existing_flag flags then insert_second (new_entry c flags) (without c q)
      else if c \<in> fst ` set q then map (\<lambda>e. if fst e = c then new_entry c flags else e) q
      else q @ [new_entry c flags])"

text \<open>RequestName and ReleaseName on the queue of the name.\<close>

definition request_name :: "conn \<Rightarrow> 32 word \<Rightarrow> queue_entry list \<Rightarrow> queue_entry list \<times> 32 word" where
  "request_name c flags q =
     (case q of
        [] \<Rightarrow> ([new_entry c flags], DBUS_REQUEST_NAME_REPLY_PRIMARY_OWNER)
      | (p, replaceable, no_queue) # rest \<Rightarrow>
          (if p = c then (new_entry c flags # rest, DBUS_REQUEST_NAME_REPLY_ALREADY_OWNER)
           else if replace_existing_flag flags \<and> replaceable
                then (new_entry c flags # (if no_queue then [] else [(p, replaceable, no_queue)]) @ without c rest,
                      DBUS_REQUEST_NAME_REPLY_PRIMARY_OWNER)
           else if do_not_queue_flag flags then (without c q, DBUS_REQUEST_NAME_REPLY_EXISTS)
           else (enqueue c flags q, DBUS_REQUEST_NAME_REPLY_IN_QUEUE)))"

definition release_name :: "conn \<Rightarrow> queue_entry list \<Rightarrow> queue_entry list \<times> 32 word" where
  "release_name c q =
     (if q = [] then (q, DBUS_RELEASE_NAME_REPLY_NON_EXISTENT)
      else if c \<notin> fst ` set q then (q, DBUS_RELEASE_NAME_REPLY_NOT_OWNER)
      else (without c q, DBUS_RELEASE_NAME_REPLY_RELEASED))"

section \<open>From addresses to entries\<close>

lemma map_insert_second: "map f (insert_second x xs) = insert_second (f x) (map f xs)"
  by (cases xs) (simp_all add: insert_second_def)

lemma set_insert_second [simp]: "set (insert_second x xs) = insert x (set xs)"
  by (cases xs) (auto simp: insert_second_def)

lemma distinct_insert_second [simp]: "distinct (insert_second x xs) \<longleftrightarrow> x \<notin> set xs \<and> distinct xs"
  by (cases xs) (auto simp: insert_second_def)

lemma queue_at_Some: "S_of s a = Some (n, os) \<Longrightarrow> queue_at s a = map (entry s) os"
  by (simp add: queue_at_def)

lemma conn_in_queue:
  assumes "pools_ok s" and "S_of s a = Some (n, os)" and "x \<in> set os"
  shows "conn_at s x = Some c \<longleftrightarrow> fst (entry s x) = c"
  using conn_at_entry [OF assms] by simp

lemma find_conn_None:
  assumes "pools_ok s" and "S_of s a = Some (n, os)"
  shows "find (\<lambda>x. conn_at s x = Some c) os = None \<longleftrightarrow> c \<notin> fst ` set (queue_at s a)"
  using conn_in_queue [OF assms] by (auto simp: find_None_iff queue_at_Some [OF assms(2)])

lemma find_conn_Some:
  assumes "pools_ok s" and "S_of s a = Some (n, os)" and "find (\<lambda>x. conn_at s x = Some c) os = Some x"
  shows "x \<in> set os" and "fst (entry s x) = c" and "c \<in> fst ` set (queue_at s a)"
    and "y \<in> set os \<Longrightarrow> fst (entry s y) = c \<longleftrightarrow> y = x"
proof -
  show x: "x \<in> set os" and c: "fst (entry s x) = c"
    using assms(3) conn_in_queue [OF assms(1,2)] by (auto simp: find_Some_iff)
  then show "c \<in> fst ` set (queue_at s a)"
    by (auto simp: queue_at_Some [OF assms(2)])
  have "inj_on (conn_at s) (set os)"
    using pools_okD(2) [OF assms(1,2)] by (simp add: distinct_map)
  then show "fst (entry s y) = c \<longleftrightarrow> y = x" if "y \<in> set os"
    using that x c conn_at_entry [OF assms(1,2)] by (metis inj_onD)
qed

lemma remove1_filter: "distinct xs \<Longrightarrow> remove1 x xs = filter (\<lambda>y. y \<noteq> x) xs"
  by (induction xs) (auto simp: remove1_idem)

lemma map_entry_remove1:
  assumes "pools_ok s" and "S_of s a = Some (n, os)" and "find (\<lambda>x. conn_at s x = Some c) os = Some x"
  shows "map (entry s) (remove1 x os) = without c (queue_at s a)"
proof -
  have "remove1 x os = filter (\<lambda>y. fst (entry s y) \<noteq> c) os"
    using pools_okD(1) [OF assms(1,2)] find_conn_Some(4) [OF assms]
    by (auto simp: remove1_filter intro!: filter_cong)
  then show ?thesis
    by (simp add: without_def queue_at_Some [OF assms(2)] filter_map comp_def)
qed

lemma without_absent: "c \<notin> fst ` set q \<Longrightarrow> without c q = q"
  by (auto simp: without_def filter_id_conv)


lemma entry_upd: "O_of s' = (O_of s)(x \<mapsto> (sv, c, al, dn)) \<Longrightarrow> entry s' = (entry s)(x := (c, al, dn))"
  by (simp add: fun_eq_iff entry_def)

lemma conn_at_upd: "O_of s' = (O_of s)(x \<mapsto> (sv, c, al, dn)) \<Longrightarrow> conn_at s' = (conn_at s)(x := Some c)"
  by (simp add: fun_eq_iff conn_at_def)

text \<open>A new owner at a fresh address, put somewhere into the queue of its service.\<close>

lemma add_new_owner:
  assumes ok: "pools_ok s" and S: "S_of s a = Some (n, os)" and x: "O_of s x = None"
    and absent: "c \<notin> fst ` set (queue_at s a)"
    and S': "S_of s' = (S_of s)(a \<mapsto> (n, os'))" and O': "O_of s' = (O_of s)(x \<mapsto> (a, c, al, dn))"
    and os': "set os' = insert x (set os)" "distinct os'"
    and hash: "service_hash s' = service_hash s" and mono: "next_addr s \<le> next_addr s'" "x < next_addr s'"
  shows "pools_ok s'" and "changes_only a s s'" and "queue_at s' a = map ((entry s)(x := (c, al, dn))) os'"
proof -
  have notin: "x \<notin> set os"
    using pools_okD(3) [OF ok S] x by fastforce
  have "inj_on (conn_at s) (set os)"
    using pools_okD(2) [OF ok S] by (simp add: distinct_map)
  moreover have "conn_at s y \<noteq> Some c" if "y \<in> set os" for y
    using absent that conn_in_queue [OF ok S that] by (auto simp: queue_at_Some [OF S])
  ultimately have "inj_on (conn_at s') (set os')"
    using notin unfolding conn_at_upd [OF O'] os' inj_on_def by (metis fun_upd_apply insert_iff)
  then have distinct: "distinct (map (conn_at s') os')"
    using os' by (simp add: distinct_map)
  have owners: "\<exists>c al dn. O_of s' y = Some (a, c, al, dn)" if "y \<in> set os'" for y
    using that pools_okD(3) [OF ok S] by (auto simp: O' os')
  have others: "O_of s' y = O_of s y" if "O_of s y = Some (sv, e)" "sv \<noteq> a" for y sv e
    using that x by (auto simp: O')
  have fresh: "O_of s' y = None" if "next_addr s' \<le> y" for y
    using that mono pools_ok_fresh [OF ok] by (simp add: O')
  note upd = queue_update [OF ok S S' hash mono(1) others fresh os'(2) distinct owners]
  show "pools_ok s'" "changes_only a s s'" "queue_at s' a = map ((entry s)(x := (c, al, dn))) os'"
    using upd by (simp_all add: entry_upd [OF O'])
qed

text \<open>An owner of the service gets new flags, and the queue may be reordered.\<close>

lemma update_owner_in_queue:
  assumes ok: "pools_ok s" and S: "S_of s a = Some (n, os)"
    and x: "find (\<lambda>y. conn_at s y = Some c) os = Some x"
    and S': "S_of s' = (S_of s)(a \<mapsto> (n, os'))" and O': "O_of s' = (O_of s)(x \<mapsto> (a, c, al, dn))"
    and os': "set os' = set os" "distinct os'"
    and hash: "service_hash s' = service_hash s" and mono: "next_addr s \<le> next_addr s'"
  shows "pools_ok s'" and "changes_only a s s'" and "queue_at s' a = map ((entry s)(x := (c, al, dn))) os'"
proof -
  have mem: "x \<in> set os" and c: "conn_at s x = Some c"
    using find_conn_Some(1,2) [OF ok S x] conn_at_entry [OF ok S] by auto
  then have same: "conn_at s' = conn_at s"
    by (simp add: conn_at_upd [OF O'] fun_upd_idem)
  then have distinct: "distinct (map (conn_at s') os')"
    using pools_okD(2) [OF ok S] os' by (simp add: distinct_map)
  obtain al0 dn0 where x0: "O_of s x = Some (a, c, al0, dn0)"
    using pools_okD(3) [OF ok S mem] c by (auto simp: conn_at_def)
  have owners: "\<exists>c al dn. O_of s' y = Some (a, c, al, dn)" if "y \<in> set os'" for y
    using that pools_okD(3) [OF ok S] by (auto simp: O' os')
  have others: "O_of s' y = O_of s y" if "O_of s y = Some (sv, e)" "sv \<noteq> a" for y sv e
    using that x0 by (auto simp: O')
  have fresh: "O_of s' y = None" if "next_addr s' \<le> y" for y
    using that mono pools_ok_fresh [OF ok, of y] x0 by (auto simp: O')
  note upd = queue_update [OF ok S S' hash mono others fresh os'(2) distinct owners]
  show "pools_ok s'" "changes_only a s s'" "queue_at s' a = map ((entry s)(x := (c, al, dn))) os'"
    using upd by (simp_all add: entry_upd [OF O'])
qed

text \<open>Owners leave the queue; their objects may live on or be freed.\<close>

lemma remove_owner_from_queue:
  assumes ok: "pools_ok s" and S: "S_of s a = Some (n, os)" and x: "x \<in> set os"
    and S': "S_of s' = (S_of s)(a \<mapsto> (n, remove1 x os))"
    and O': "O_of s' = O_of s \<or> O_of s' = (O_of s)(x := None)"
    and hash: "service_hash s' = service_hash s" and mono: "next_addr s \<le> next_addr s'"
  shows "pools_ok s'" and "changes_only a s s'" and "queue_at s' a = map (entry s) (remove1 x os)"
proof -
  have dist: "distinct os" "distinct (remove1 x os)" "x \<notin> set (remove1 x os)"
    using pools_okD(1) [OF ok S] by (simp_all add: distinct_remove1)
  obtain c al dn where x0: "O_of s x = Some (a, c, al, dn)"
    using pools_okD(3) [OF ok S x] by auto
  have same: "O_of s' y = O_of s y" if "y \<noteq> x" for y
    using O' that by auto
  have eq: "conn_at s' y = conn_at s y" "entry s' y = entry s y" if "y \<in> set (remove1 x os)" for y
    using same [of y] dist(3) that by (cases "y = x"; simp add: conn_at_def entry_def)+
  have "distinct (map (conn_at s) (remove1 x os))"
    using pools_okD(2) [OF ok S] dist(2)
    by (auto simp: distinct_map dest: inj_on_subset [OF _ set_remove1_subset])
  then have distinct: "distinct (map (conn_at s') (remove1 x os))"
    using eq(1) by (metis map_cong)
  have owners: "\<exists>c al dn. O_of s' y = Some (a, c, al, dn)" if "y \<in> set (remove1 x os)" for y
    using that same dist(3) pools_okD(3) [OF ok S] notin_set_remove1 by metis
  have others: "O_of s' y = O_of s y" if "O_of s y = Some (sv, e)" "sv \<noteq> a" for y sv e
    using that x0 same [of y] by (cases "y = x") auto
  have fresh: "O_of s' y = None" if "next_addr s' \<le> y" for y
    using that mono pools_ok_fresh [OF ok, of y] x0 O' by auto
  note upd = queue_update [OF ok S S' hash mono others fresh dist(2) distinct owners]
  show "pools_ok s'" "changes_only a s s'" "queue_at s' a = map (entry s) (remove1 x os)"
    using upd eq(2) by (auto cong: map_cong)
qed


section \<open>Refinement of the operations on one service\<close>

lemma whenB_Inr: "whenB b m s = (Inr u, s') \<Longrightarrow> steps same_registry m \<Longrightarrow> same_registry s s'"
  by (auto simp: whenB_def registry_base.R_refl split: if_splits dest: stepsD)

lemma add_new_owner_Inr:
  assumes run: "add_new_owner_to_queue a c flags s = (Inr u, s')" and ok: "pools_ok s"
    and S: "S_of s a = Some (n, os)" and absent: "c \<notin> fst ` set (queue_at s a)"
  shows "pools_ok s' \<and> changes_only a s s' \<and> queue_at s' a = enqueue c flags (queue_at s a)"
proof -
  let ?place = "\<lambda>x os. if \<not> replace_existing_flag flags \<or> os = [] then os @ [x] else insert_second x os"
  from run obtain x s2 s3 s4 s5 where new: "bus_owner_new a c flags s = (Inr x, s2)"
    and flags: "bus_owner_set_flags x flags s2 = (Inr (), s3)" and alloc: "allocB s3 = (Inr (), s4)"
    and place: "set_owners a (?place x) s4 = (Inr (), s5)"
    and hook: "add_cancel_ownership_to_transaction a x s5 = (Inr (), s')"
    by (auto simp: add_new_owner_to_queue_def)
  note new' = owner_new_Inr [OF new]
  from flags obtain sv c' al dn where f: "O_of s2 x = Some (sv, c', al, dn)"
    "O_of s3 = (O_of s2)(x \<mapsto> (sv, c', allow_replacement_flag flags, do_not_queue_flag flags))"
    "S_of s3 = S_of s2" "service_hash s3 = service_hash s2" "next_addr s3 = next_addr s2"
    by (rule set_flags_Inr)
  from place obtain n' os' where p: "S_of s4 a = Some (n', os')" "S_of s5 = (S_of s4)(a \<mapsto> (n', ?place x os'))"
    "O_of s5 = O_of s4" "service_hash s5 = service_hash s4" "next_addr s5 = next_addr s4"
    by (rule set_owners_Inr)
  have r: "same_registry s3 s4" "same_registry s5 s'"
    using stepsD [OF registry_alloc alloc] stepsD [OF registry_add_cancel_ownership hook] by auto
  have x: "O_of s x = None"
    using pools_ok_fresh [OF ok new'(1)] by simp
  then have notin: "x \<notin> set os"
    using pools_okD(3) [OF ok S] by fastforce
  have S': "S_of s' = (S_of s)(a \<mapsto> (n, ?place x os))"
    using S new'(3) f(3) p(1,2) r by (auto simp: same_registry_def)
  have O': "O_of s' = (O_of s)(x \<mapsto> (a, c, allow_replacement_flag flags, do_not_queue_flag flags))"
    using new'(5) f(1,2) p(3) r by (auto simp: same_registry_def)
  have misc: "service_hash s' = service_hash s" "next_addr s \<le> next_addr s'" "x < next_addr s'"
    using new'(1,2,4) f(4,5) p(4,5) r by (auto simp: same_registry_def)
  have "map ((entry s)(x := new_entry c flags)) (?place x os) = enqueue c flags (queue_at s a)"
    using absent notin
    by (auto simp: enqueue_def queue_at_Some [OF S] without_absent insert_second_def split: list.split)
  moreover have "set (?place x os) = insert x (set os)" "distinct (?place x os)"
    using notin pools_okD(1) [OF ok S] by auto
  ultimately show ?thesis
    using add_new_owner [OF ok S x absent S' O' _ _ misc] by (simp add: new_entry_def)
qed

lemma update_queued_owner_Inr:
  assumes run: "update_queued_owner a x flags s = (Inr u, s')" and ok: "pools_ok s"
    and S: "S_of s a = Some (n, os)" and x: "find (\<lambda>y. conn_at s y = Some c) os = Some x"
  shows "pools_ok s' \<and> changes_only a s s' \<and> queue_at s' a = enqueue c flags (queue_at s a)"
proof -
  let ?os = "if replace_existing_flag flags then insert_second x (remove1 x os) else os"
  note found = find_conn_Some [OF ok S x]
  obtain al0 dn0 where x0: "O_of s x = Some (a, c, al0, dn0)"
    using pools_okD(3) [OF ok S found(1)] found(2) by (auto simp: entry_def)
  from run obtain s1 where reorder: "S_of s1 = (S_of s)(a \<mapsto> (n, ?os))" "O_of s1 = O_of s"
      "service_hash s1 = service_hash s" "next_addr s1 = next_addr s"
    and flags: "bus_owner_set_flags x flags s1 = (Inr (), s')"
    using S
    by (fastforce simp: update_queued_owner_def get_service_def fun_upd_idem split: if_splits elim!: set_owners_Inr)
  from flags obtain sv c' al dn where f: "O_of s1 x = Some (sv, c', al, dn)"
    "O_of s' = (O_of s1)(x \<mapsto> (sv, c', allow_replacement_flag flags, do_not_queue_flag flags))"
    "S_of s' = S_of s1" "service_hash s' = service_hash s1" "next_addr s' = next_addr s1"
    by (rule set_flags_Inr)
  have "map ((entry s)(x := new_entry c flags)) ?os = enqueue c flags (queue_at s a)"
    using found map_entry_remove1 [OF ok S x] pools_okD(1) [OF ok S]
    by (auto simp: enqueue_def map_insert_second queue_at_Some [OF S]
        intro!: arg_cong [where f = "insert_second _"])
  moreover have "set ?os = set os" "distinct ?os"
    using found(1) pools_okD(1) [OF ok S] by auto
  ultimately show ?thesis
    using update_owner_in_queue [OF ok S x, of s' ?os] reorder f x0 by (simp add: new_entry_def)
qed

lemma add_owner_Inr:
  assumes run: "bus_service_add_owner a c flags s = (Inr u, s')" and ok: "pools_ok s"
  shows "pools_ok s' \<and> changes_only a s s' \<and> queue_at s' a = enqueue c flags (queue_at s a)"
proof -
  from run obtain v s1 r where v: "service_pool s a = Some v"
    and send: "whenB (bs_owners v = []) (bus_driver_send_service_acquired c (bs_name v)) s = (Inr (), s1)"
    and find: "bus_service_find_owner_link a c s1 = (Inr r, s1)"
    and rest: "(case r of None \<Rightarrow> add_new_owner_to_queue a c flags
                | Some x \<Rightarrow> update_queued_owner a x flags) s1 = (Inr u, s')"
    by (auto simp: bus_service_add_owner_def get_service_def elim: find_owner_link_Inr)
  have s1: "same_registry s s1"
    by (rule whenB_Inr [OF send]) (rule steps_intros)
  have ok1: "pools_ok s1" and q1: "queue_at s1 a = queue_at s a" and ch1: "changes_only a s s1"
    using same_registry_changes [OF s1] ok by auto
  obtain n os where S: "S_of s1 a = Some (n, os)" and r: "r = find (\<lambda>y. conn_at s1 y = Some c) os"
    using find by (rule find_owner_link_Inr)
  have "pools_ok s' \<and> changes_only a s1 s' \<and> queue_at s' a = enqueue c flags (queue_at s1 a)"
  proof (cases r)
    case None
    have "c \<notin> fst ` set (queue_at s1 a)"
      using find_conn_None [OF ok1 S, of c] r None by simp
    then show ?thesis
      using rest None by (auto dest: add_new_owner_Inr [OF _ ok1 S])
  next
    case (Some x)
    then show ?thesis
      using rest update_queued_owner_Inr [OF _ ok1 S, of x flags u s' c] r by simp
  qed
  then show ?thesis
    using q1 ch1 by (auto intro: changes_only_trans)
qed

lemma list_remove_last_distinct: "distinct xs \<Longrightarrow> list_remove_last x xs = remove1 x xs"
  by (simp add: list_remove_last_def remove1_filter rev_filter)

text \<open>An owner is taken out of the queue and loses the reference the queue held.\<close>

lemma drop_owner_Inr:
  assumes set: "set_owners a f s = (Inr u, t)" and unref: "bus_owner_unref x t = (Inr u', s')" and ok: "pools_ok s"
    and S: "S_of s a = Some (n, os)" and x: "x \<in> set os" and f: "f os = remove1 x os"
  shows "pools_ok s'" and "changes_only a s s'" and "queue_at s' a = map (entry s) (remove1 x os)"
    and "S_of s' a = Some (n, remove1 x os)"
proof -
  from set S f have t: "S_of t = (S_of s)(a \<mapsto> (n, remove1 x os))" "O_of t = O_of s"
    "service_hash t = service_hash s" "next_addr t = next_addr s"
    by (auto elim!: set_owners_Inr)
  note s' = owner_unref_Inr [OF unref]
  have O': "O_of s' = O_of s \<or> O_of s' = (O_of s)(x := None)"
    using s'(4) t by simp
  show "pools_ok s'" "changes_only a s s'" "queue_at s' a = map (entry s) (remove1 x os)"
    "S_of s' a = Some (n, remove1 x os)"
    using remove_owner_from_queue [OF ok S x _ O'] s' t by simp_all
qed

lemma unlink_owner_Inr:
  assumes run: "bus_service_unlink_owner a x s = (Inr u, s')" and ok: "pools_ok s"
    and S: "S_of s a = Some (n, os)" and x: "x \<in> set os"
  shows "pools_ok s'" and "changes_only a s s'" and "queue_at s' a = map (entry s) (remove1 x os)"
    and "S_of s' a = Some (n, remove1 x os)"
proof -
  have "list_remove_last x os = remove1 x os"
    using pools_okD(1) [OF ok S] by (rule list_remove_last_distinct)
  then show "pools_ok s'" "changes_only a s s'" "queue_at s' a = map (entry s) (remove1 x os)"
    "S_of s' a = Some (n, remove1 x os)"
    using run drop_owner_Inr [OF _ _ ok S x, of "list_remove_last x"]
    by (auto simp: bus_service_unlink_owner_def)
qed

lemma add_restore_Inr:
  assumes "add_restore_ownership_to_transaction a x s = (Inr u, s')"
  shows "same_registry s s'"
proof -
  have tries: "steps same_registry (tryB allocB)"
    by (intro steps_intros)
  from assms show ?thesis
    unfolding add_restore_ownership_to_transaction_def
    by (auto split: if_splits simp: get_service_Inr dest!: stepsD [OF tries] stepsD [OF registry_alloc] steps_result [OF registry_alloc]
        stepsD [OF registry_service_ref] stepsD [OF registry_owner_ref] stepsD [OF registry_frame.prim_add_cancel_hook])
      (auto simp: same_registry_def)
qed

lemma announce_registry [steps_intros]: "steps same_registry (announce_next_owner a c)"
  unfolding announce_next_owner_def
  by (auto intro!: steps_intros split: list.split)

lemma announce_removal_registry [steps_intros]: "steps same_registry (announce_removal a c)"
  unfolding announce_removal_def
  by (auto intro!: steps_intros)

lemma get_primary_owner_Inr:
  "bus_service_get_primary_owner a s = (Inr p, s') \<longleftrightarrow>
     s' = s \<and> (\<exists>v. service_pool s a = Some v \<and> p = (if bs_owners v = [] then None else Some (hd (bs_owners v))))"
  by (cases "service_pool s a"; cases "bs_owners (the (service_pool s a))")
    (auto simp: bus_service_get_primary_owner_def get_service_Inr)

lemma swap_owner_Inr:
  assumes run: "bus_service_swap_owner a c s = (Inr u, s')" and ok: "pools_ok s"
    and two: "2 \<le> length (queue_at s a)"
  shows "pools_ok s' \<and> changes_only a s s' \<and> queue_at s' a = swap_first_two (queue_at s a)"
proof -
  from run obtain v x t1 t2 t3 where v: "service_pool s a = Some v"
    and lost: "bus_driver_send_service_lost c (bs_name v) s = (Inr (), t1)"
    and next_owner: "announce_next_owner a c t1 = (Inr (), t2)"
    and hook: "add_restore_ownership_to_transaction a x t2 = (Inr (), t3)"
    and swap: "set_owners a swap_first_two t3 = (Inr (), s')"
    by (auto simp: bus_service_swap_owner_def get_primary_owner_Inr get_service_Inr get_owner_Inr split: if_splits)
  have same: "same_registry s t3"
    using stepsD [OF registry_frame.keeps_service_lost lost] stepsD [OF announce_registry next_owner] add_restore_Inr [OF hook]
    by (auto simp: same_registry_def)
  obtain os where S: "S_of s a = Some (bs_name v, os)"
    using v by (simp add: S_of_def)
  then obtain x y zs where os: "os = x # y # zs"
    using two by (auto simp: queue_at_Some Suc_le_length_iff numeral_2_eq_2)
  have S': "S_of s' = (S_of s)(a \<mapsto> (bs_name v, swap_first_two os))" and O': "O_of s' = O_of s"
    "service_hash s' = service_hash s" "next_addr s \<le> next_addr s'"
    using swap S same by (auto simp: same_registry_def elim!: set_owners_Inr)
  have "distinct (swap_first_two os)" "distinct (map (conn_at s') (swap_first_two os))" "set (swap_first_two os) = set os"
    using pools_okD(1,2) [OF ok S] entry_cong [OF O'(1)] by (auto simp: os swap_first_two_def)
  then show ?thesis
    using queue_update [OF ok S S' O'(2,3)] O' pools_okD(3) [OF ok S] pools_ok_fresh [OF ok] entry_cong [OF O'(1)]
    by (auto simp: queue_at_Some [OF S] os swap_first_two_def)
qed

lemma without_hd:
  assumes "pools_ok s" and "S_of s a = Some (n, x # xs)"
  shows "without (fst (entry s x)) (queue_at s a) = map (entry s) xs"
proof -
  have "fst (entry s y) \<noteq> fst (entry s x)" if "y \<in> set xs" for y
    using pools_okD(2) [OF assms] that conn_at_entry [OF assms] by (auto simp: image_iff)
  then show ?thesis
    by (auto simp: queue_at_Some [OF assms(2)] without_def filter_map comp_def filter_id_conv)
qed

lemma remove_queued_owner_Inr:
  assumes run: "remove_queued_owner a c s = (Inr u, s')" and ok: "pools_ok s"
  shows "pools_ok s' \<and> changes_only a s s' \<and> queue_at s' a = without c (queue_at s a) \<and> c \<in> fst ` set (queue_at s a)"
proof -
  from run obtain r t where find: "bus_service_find_owner_link a c s = (Inr r, t)"
    and rest: "(case r of None \<Rightarrow> raiseB Abort
                | Some x \<Rightarrow> thenB (set_owners a (remove1 x)) (bus_owner_unref x)) t = (Inr u, s')"
    by (auto simp: remove_queued_owner_def)
  obtain n os where t: "t = s" and S: "S_of s a = Some (n, os)" and r: "r = find (\<lambda>y. conn_at s y = Some c) os"
    using find by (rule find_owner_link_Inr)
  obtain x where x: "r = Some x"
    using rest by (cases r) auto
  note find = x [unfolded r]
  obtain t' where "set_owners a (remove1 x) s = (Inr (), t')" "bus_owner_unref x t' = (Inr (), s')"
    using rest x t by auto
  note drop = drop_owner_Inr [OF this ok S find_conn_Some(1) [OF ok S find] refl]
  show ?thesis
    using drop map_entry_remove1 [OF ok S find] find_conn_Some(3) [OF ok S find] by simp
qed

lemma service_unlink_Inr:
  assumes "bus_service_unlink a s = (Inr u, s')" and "S_of s a = Some (n, os)"
  shows "service_hash s' = (service_hash s)(n := None)" and "O_of s' = O_of s" and "next_addr s \<le> next_addr s'"
    and "S_of s' = S_of s \<or> S_of s' = (S_of s)(a := None)"
proof -
  from assms(1) obtain v where v: "service_pool s a = Some v"
    and unref: "bus_service_unref a (s \<lparr> service_hash := (service_hash s)(bs_name v := None) \<rparr>) = (Inr (), s')"
    by (auto simp: bus_service_unlink_def get_service_Inr)
  have "n = bs_name v"
    using v assms(2) by (simp add: S_of_def)
  moreover have "S_of (s \<lparr> service_hash := h \<rparr>) = S_of s" "O_of (s \<lparr> service_hash := h \<rparr>) = O_of s" for h
    by (auto simp: S_of_def O_of_def)
  ultimately show "service_hash s' = (service_hash s)(n := None)" "O_of s' = O_of s" "next_addr s \<le> next_addr s'"
    "S_of s' = S_of s \<or> S_of s' = (S_of s)(a := None)"
    using service_unref_Inr [OF unref] by auto
qed

lemma remove_primary_owner_Inr:
  assumes run: "remove_primary_owner a c x s = (Inr u, s')" and ok: "pools_ok s"
    and S: "S_of s a = Some (n, x # xs)"
  obtains t where "pools_ok t" and "changes_only a s t" and "queue_at t a = map (entry s) xs"
    and "S_of t a = Some (n, xs)" and "if xs = [] then bus_service_unlink a t = (Inr (), s') else s' = t"
proof -
  obtain v u1 t1 u2 t2 u3 t3 u4 t v' where "service_pool s a = Some v" and
    lost: "bus_driver_send_service_lost c (bs_name v) s = (Inr u1, t1)"
    and announce: "announce_removal a c t1 = (Inr u2, t2)"
    and hook: "add_restore_ownership_to_transaction a x t2 = (Inr u3, t3)"
    and unlink: "bus_service_unlink_owner a x t3 = (Inr u4, t)" and v': "service_pool t a = Some v'"
    and rest: "whenB (bs_owners v' = []) (bus_service_unlink a) t = (Inr u, s')"
    using run unfolding remove_primary_owner_def bindB_Inr thenB_Inr get_service_Inr by blast
  have same: "same_registry s t3"
    using stepsD [OF registry_frame.keeps_service_lost lost] stepsD [OF announce_removal_registry announce] add_restore_Inr [OF hook]
    by (auto simp: same_registry_def)
  have S3: "S_of t3 a = Some (n, x # xs)" and ok3: "pools_ok t3"
    using same S same_registry_changes(3) [OF same] ok by (auto simp: same_registry_def)
  have e: "entry t3 = entry s"
    using same entry_cong [of t3 s] by (simp add: same_registry_def)
  note t = unlink_owner_Inr [OF unlink ok3 S3 list.set_intros(1)]
  have "changes_only a s t"
    by (rule changes_only_trans [OF same_registry_changes(1) [OF same] t(2)])
  moreover have "if xs = [] then bus_service_unlink a t = (Inr (), s') else s' = t"
    using rest v' t(4) by (simp add: S_of_def whenB_def split: if_splits)
  ultimately show ?thesis
    using that [of t] t(1,3,4) e by simp
qed

section \<open>Refinement at the level of names\<close>

text \<open>The queue of a name, and the invariant of the registry between two operations.\<close>

definition queue :: "BusContext \<Rightarrow> dbus_string \<Rightarrow> queue_entry list" where
  "queue s n = (case service_hash s n of None \<Rightarrow> [] | Some a \<Rightarrow> queue_at s a)"

definition wf_registry :: "BusContext \<Rightarrow> bool" where
  "wf_registry s \<longleftrightarrow>
     pools_ok s \<and> (\<forall>n a. service_hash s n = Some a \<longrightarrow> (\<exists>os. S_of s a = Some (n, os) \<and> os \<noteq> []))"

text \<open>One name gets a new queue, all others keep theirs.\<close>

definition queue_becomes :: "dbus_string \<Rightarrow> queue_entry list \<Rightarrow> BusContext \<Rightarrow> BusContext \<Rightarrow> bool" where
  "queue_becomes n q s s' \<longleftrightarrow> wf_registry s' \<and> queue s' n = q \<and> (\<forall>m. m \<noteq> n \<longrightarrow> queue s' m = queue s m)"

lemma wf_registryD:
  assumes "wf_registry s" and "service_hash s n = Some a"
  obtains x xs where "pools_ok s" and "S_of s a = Some (n, x # xs)"
proof -
  have "pools_ok s" "\<exists>os. S_of s a = Some (n, os) \<and> os \<noteq> []"
    using assms by (simp_all add: wf_registry_def)
  then show ?thesis
    using that by (auto simp: neq_Nil_conv)
qed

lemma hash_inj:
  assumes "wf_registry s" and "service_hash s n = Some a" and "service_hash s m = Some a"
  shows "m = n"
proof -
  obtain x xs where "S_of s a = Some (n, x # xs)"
    using assms(1,2) by (rule wf_registryD)
  moreover obtain y ys where "S_of s a = Some (m, y # ys)"
    using assms(1,3) by (rule wf_registryD)
  ultimately show ?thesis
    by simp
qed

lemma changes_onlyD:
  assumes "changes_only a s s'"
  shows "service_hash s' = service_hash s" and "next_addr s \<le> next_addr s'"
    and "map_option fst (S_of s' a) = map_option fst (S_of s a)"
    and "b \<noteq> a \<Longrightarrow> S_of s' b = S_of s b" and "b \<noteq> a \<Longrightarrow> queue_at s' b = queue_at s b"
  using assms by (simp_all add: changes_only_def)

lemma queue_Some: "service_hash s n = Some a \<Longrightarrow> queue s n = queue_at s a"
  by (simp add: queue_def)

lemma changes_only_becomes:
  assumes wf: "wf_registry s" and hash: "service_hash s n = Some a"
    and ok: "pools_ok s'" and ch: "changes_only a s s'" and q: "queue_at s' a \<noteq> []"
  shows "queue_becomes n (queue_at s' a) s s'"
proof -
  have inj: "b \<noteq> a" if "service_hash s m = Some b" "m \<noteq> n" for m b
    using hash_inj [OF wf hash] that by auto
  note ch' = changes_onlyD [OF ch]
  have names: "\<exists>os. S_of s b = Some (m, os) \<and> os \<noteq> []" if "service_hash s m = Some b" for m b
    using wf that by (simp add: wf_registry_def)
  have "map_option fst (S_of s' a) = Some n"
    using names [OF hash] ch'(3) by auto
  then have "\<exists>os. S_of s' a = Some (n, os) \<and> os \<noteq> []"
    using q by (auto simp: queue_at_def)
  then have "\<exists>os. S_of s' b = Some (m, os) \<and> os \<noteq> []" if "service_hash s m = Some b" for m b
    using names [OF that] that hash ch'(4) [OF inj [OF that]] by (cases "m = n") simp_all
  then have "wf_registry s'"
    using ok ch'(1) by (simp add: wf_registry_def)
  moreover have "queue s' m = queue s m" if "m \<noteq> n" for m
    using that inj ch'(1,5) by (auto simp: queue_def split: option.split)
  ultimately show ?thesis
    using hash ch'(1) by (simp add: queue_becomes_def queue_def)
qed

lemma unlinked_becomes:
  assumes wf: "wf_registry s" and hash: "service_hash s n = Some a"
    and ok: "pools_ok t" and ch: "changes_only a s t" and empty: "S_of t a = Some (n, [])"
    and s': "service_hash s' = (service_hash t)(n := None)" "O_of s' = O_of t" "next_addr t \<le> next_addr s'"
      "S_of s' = S_of t \<or> S_of s' = (S_of t)(a := None)"
  shows "queue_becomes n [] s s'"
proof -
  have inj: "b \<noteq> a" if "service_hash s m = Some b" "m \<noteq> n" for m b
    using hash_inj [OF wf hash] that by auto
  note e = entry_cong [OF s'(2)] and ch' = changes_onlyD [OF ch]
  have "pools_ok s'"
    using ok s'(2,3,4) e by (auto simp: pools_ok_def split: if_split_asm)
  have S': "S_of s' b = S_of s b" if "b \<noteq> a" for b
    using that s'(4) ch'(4) by auto
  have q: "queue_at s' b = queue_at s b" if "b \<noteq> a" for b
  proof -
    have "queue_at s' b = queue_at t b"
      using that s'(4) e by (auto simp: queue_at_def split: option.split)
    then show ?thesis
      using that ch'(5) by simp
  qed
  have "\<exists>os. S_of s' b = Some (m, os) \<and> os \<noteq> []" if "service_hash s' m = Some b" for m b
  proof -
    have "m \<noteq> n" "service_hash s m = Some b"
      using that s'(1) ch'(1) by (auto split: if_splits)
    then show ?thesis
      using wf S' [OF inj] by (simp add: wf_registry_def)
  qed
  then have "wf_registry s'"
    using \<open>pools_ok s'\<close> by (simp add: wf_registry_def)
  moreover have "queue s' m = queue s m" if "m \<noteq> n" for m
    using that inj q ch'(1) s'(1) by (auto simp: queue_def split: option.split)
  ultimately show ?thesis
    using s'(1) by (simp add: queue_becomes_def queue_def)
qed

lemma remove_owner_Inr:
  assumes run: "bus_service_remove_owner a c s = (Inr u, s')" and wf: "wf_registry s"
    and hash: "service_hash s n = Some a"
  shows "queue_becomes n (without c (queue s n)) s s'"
proof -
  obtain x xs where ok: "pools_ok s" and S: "S_of s a = Some (n, x # xs)"
    using wf hash by (rule wf_registryD)
  obtain al dn c' where x: "O_of s x = Some (a, c', al, dn)"
    using pools_okD(3) [OF ok S, of x] by auto
  have "(if c' = c then remove_primary_owner a c x else remove_queued_owner a c) s = (Inr u, s')"
    using run S x by (auto simp: bus_service_remove_owner_def get_primary_owner_Inr get_owner_Inr S_of_def O_of_def
        owner_info_def)
  then consider (primary) "c' = c" "remove_primary_owner a c x s = (Inr u, s')"
    | (queued) "c' \<noteq> c" "remove_queued_owner a c s = (Inr u, s')"
    by (auto split: if_splits)
  then show ?thesis
  proof cases
    case queued
    note r = remove_queued_owner_Inr [OF queued(2) ok]
    have "queue_at s' a \<noteq> []"
      using r x queued(1) by (auto simp: queue_at_Some [OF S] without_def entry_def)
    then show ?thesis
      using changes_only_becomes [OF wf hash, of s'] r by (simp add: queue_Some [OF hash])
  next
    case primary
    have q: "without c (queue s n) = map (entry s) xs"
      using without_hd [OF ok S] x primary(1) by (simp add: queue_Some [OF hash] entry_def)
    from primary(2) ok S obtain t where t: "pools_ok t" "changes_only a s t" "queue_at t a = map (entry s) xs"
      "S_of t a = Some (n, xs)" "if xs = [] then bus_service_unlink a t = (Inr (), s') else s' = t"
      by (rule remove_primary_owner_Inr)
    show ?thesis
    proof (cases "xs = []")
      case True
      then show ?thesis
        using unlinked_becomes [OF wf hash t(1,2)] service_unlink_Inr [of a t "()" s'] t(4,5) q by simp
    next
      case False
      then show ?thesis
        using changes_only_becomes [OF wf hash t(1,2)] t(3,5) q by simp
    qed
  qed
qed

lemma queue_becomes_trans:
  "queue_becomes n p s t \<Longrightarrow> queue_becomes n q t u \<Longrightarrow> queue_becomes n q s u"
  by (simp add: queue_becomes_def)

lemma same_registry_becomes:
  assumes "wf_registry s" and same: "same_registry s s'"
  shows "queue_becomes n (queue s n) s s'"
proof -
  have "queue s' = queue s" "service_hash s' = service_hash s" "S_of s' = S_of s"
    using same_registry_changes(2) [OF same] same
    by (auto simp: queue_def same_registry_def fun_eq_iff split: option.split)
  then show ?thesis
    using assms same_registry_changes(3) [OF same] by (simp add: queue_becomes_def wf_registry_def)
qed

lemma enqueue_Nil: "enqueue c flags [] = [new_entry c flags]"
  by (simp add: enqueue_def without_def insert_second_def)

lemma pools_ok_new_service:
  assumes "pools_ok s" and "next_addr s \<le> a" and "S_of s' = (S_of s)(a \<mapsto> (n, []))" and "O_of s' = O_of s"
    and "a < next_addr s'"
  shows "pools_ok s'" and "queue_at s' a = []" and "b \<noteq> a \<Longrightarrow> queue_at s' b = queue_at s b"
  using assms entry_cong [OF assms(4)] by (auto simp: pools_ok_def queue_at_def split: option.split)

lemma registered_becomes:
  assumes wf: "wf_registry s" and none: "service_hash s n = None" and new: "S_of s a = None"
    and ok: "pools_ok s'" and hash: "service_hash s' = (service_hash s)(n \<mapsto> a)"
    and S: "S_of s' a = Some (n, os)" and q: "queue_at s' a \<noteq> []"
    and others: "\<And>b. b \<noteq> a \<Longrightarrow> S_of s' b = S_of s b \<and> queue_at s' b = queue_at s b"
  shows "queue_becomes n (queue_at s' a) s s'"
proof -
  have a: "b \<noteq> a \<and> (\<exists>os. S_of s b = Some (m, os) \<and> os \<noteq> [])" if "service_hash s m = Some b" for m b
    using wf that new unfolding wf_registry_def by (metis option.distinct(1))
  have "\<exists>os. S_of s' b = Some (m, os) \<and> os \<noteq> []" if "service_hash s' m = Some b" for m b
  proof (cases "m = n")
    case True
    then show ?thesis
      using that S q hash by (auto simp: queue_at_Some)
  next
    case False
    then show ?thesis
      using that a [of m b] others [of b] hash by simp
  qed
  then have "wf_registry s'"
    using ok by (simp add: wf_registry_def)
  moreover have "queue s' m = queue s m" if "m \<noteq> n" for m
    using that hash a others by (auto simp: queue_def split: option.split)
  ultimately show ?thesis
    using hash by (simp add: queue_becomes_def queue_def)
qed

lemma S_O_service_hash_upd [simp]:
  "S_of (s \<lparr> service_hash := h \<rparr>) = S_of s" "O_of (s \<lparr> service_hash := h \<rparr>) = O_of s"
  by (simp_all add: S_of_def O_of_def fun_eq_iff)

lemma entry_service_hash_upd [simp]:
  "entry (s \<lparr> service_hash := h \<rparr>) = entry s" "conn_at (s \<lparr> service_hash := h \<rparr>) = conn_at s"
  using entry_cong [of "s \<lparr> service_hash := h \<rparr>" s] by simp_all

lemma pools_service_hash_upd [simp]:
  "queue_at (s \<lparr> service_hash := h \<rparr>) = queue_at s" "pools_ok (s \<lparr> service_hash := h \<rparr>) = pools_ok s"
  by (simp_all add: queue_at_def pools_ok_def fun_eq_iff split: option.split)

lemma ensure_Inr:
  assumes run: "bus_registry_ensure n c flags s = (Inr a, s')" and wf: "wf_registry s"
    and none: "service_hash s n = None"
  shows "queue_becomes n [new_entry c flags] s s'" and "service_hash s' n = Some a"
proof -
  let ?new = "\<lambda>s. s \<lparr> next_addr := next_addr s + 1, service_pool := (service_pool s)(a \<mapsto>
                       \<lparr> bs_refcount = 1, bs_name = n, bs_owners = [] \<rparr>) \<rparr>"
  obtain u1 s1 u2 s2 name s3 u3 s4 u4 s5 u6 s6 u7 s7 where allocs: "allocB s = (Inr u1, s1)" "allocB s1 = (Inr u2, s2)"
    and a: "a = next_addr s2" and name: "bus_connection_get_name c (?new s2) = (Inr name, s3)"
    and changed: "bus_driver_send_service_owner_changed n None name s3 = (Inr u3, s4)"
    and created: "bus_activation_service_created n s4 = (Inr u4, s5)"
    and add: "bus_service_add_owner a c flags s5 = (Inr u6, s6)" and alloc: "allocB s6 = (Inr u7, s7)"
    and s': "s' = s7 \<lparr> service_hash := (service_hash s7)(n \<mapsto> a) \<rparr>"
    using run none by (auto simp: bus_registry_ensure_def bus_registry_lookup_def)
  note frames = stepsD [OF registry_alloc allocs(1)] stepsD [OF registry_alloc allocs(2)]
    stepsD [OF registry_frame.keeps_get_name name] stepsD [OF registry_frame.keeps_owner_changed changed]
    stepsD [OF registry_frame.keeps_service_created created] stepsD [OF registry_alloc alloc]
  have new: "S_of (?new s2) = (S_of s2)(a \<mapsto> (n, []))" "O_of (?new s2) = O_of s2"
    "service_hash (?new s2) = service_hash s2" "next_addr (?new s2) = next_addr s2 + 1"
    by (auto simp: S_of_def O_of_def fun_eq_iff)
  have ok: "pools_ok s" and fresh: "S_of s a = None"
    using wf frames(1,2) a by (auto simp: wf_registry_def same_registry_def pools_ok_fresh)
  have s5: "S_of s5 = (S_of s)(a \<mapsto> (n, []))" "O_of s5 = O_of s" "service_hash s5 = service_hash s"
      "next_addr s \<le> a" "a < next_addr s5"
    using frames new a by (auto simp: same_registry_def)
  note s5' = pools_ok_new_service [OF ok s5(4,1,2,5)]
  have s6: "pools_ok s6" "changes_only a s5 s6" "queue_at s6 a = [new_entry c flags]"
    using add_owner_Inr [OF add s5'(1)] by (simp_all add: s5'(2) enqueue_Nil)
  note ch = changes_onlyD [OF s6(2)] and s7 = same_registry_changes [OF frames(6)]
  have eq: "queue_at s' b = queue_at s6 b" "S_of s' b = S_of s6 b" for b
    using s7(2) frames(6) by (simp_all add: s' same_registry_def)
  have ok': "pools_ok s'"
    using s7(3) s6(1) by (simp add: s')
  have hash: "service_hash s' = (service_hash s)(n \<mapsto> a)"
    using frames(6) ch(1) s5(3) by (simp add: s' same_registry_def)
  obtain os where "S_of s' a = Some (n, os)"
    using ch(3) s5(1) eq(2) by auto
  then show "queue_becomes n [new_entry c flags] s s'"
    using registered_becomes [OF wf none fresh ok' hash] eq s6(3) ch(4,5) s5(1) s5'(3) by simp
  show "service_hash s' n = Some a"
    by (simp add: hash)
qed

text \<open>The four outcomes for a name that has an owner already.\<close>

lemma set_primary_flags_Inr:
  assumes run: "bus_owner_set_flags x flags s = (Inr u, s')" and wf: "wf_registry s"
    and hash: "service_hash s n = Some a" and S: "S_of s a = Some (n, x # xs)"
    and x: "entry s x = (c, al, dn)"
  shows "queue_becomes n (new_entry c flags # tl (queue s n)) s s'"
proof -
  have ok: "pools_ok s"
    using wf by (simp add: wf_registry_def)
  have find: "find (\<lambda>y. conn_at s y = Some c) (x # xs) = Some x"
    using conn_in_queue [OF ok S, of x c] x by simp
  have notin: "x \<notin> set xs"
    using pools_okD(1) [OF ok S] by simp
  obtain c' al' dn' where x': "O_of s x = Some (a, c', al', dn')"
    using pools_okD(3) [OF ok S, of x] by auto
  then have "c' = c"
    using x by (simp add: entry_def)
  from run x' this have "O_of s' = (O_of s)(x \<mapsto> (a, c, allow_replacement_flag flags, do_not_queue_flag flags))"
    "S_of s' = (S_of s)(a \<mapsto> (n, x # xs))" "service_hash s' = service_hash s" "next_addr s' = next_addr s"
    using S by (auto elim!: set_flags_Inr simp: fun_upd_idem)
  then have "pools_ok s'" "changes_only a s s'"
      "queue_at s' a = map ((entry s)(x := new_entry c flags)) (x # xs)"
    using update_owner_in_queue [OF ok S find, of s'] pools_okD(1) [OF ok S] by (simp_all add: new_entry_def)
  moreover from this have "queue_at s' a = new_entry c flags # tl (queue s n)"
    using notin by (auto simp: queue_Some [OF hash] queue_at_Some [OF S])
  ultimately show ?thesis
    using changes_only_becomes [OF wf hash, of s'] by simp
qed

lemma leave_queue_Inr:
  assumes run: "(case link of None \<Rightarrow> returnB ()
                 | Some owner \<Rightarrow> thenB (set_owners a (remove1 owner)) (bus_owner_unref owner)) s = (Inr u, s')"
    and link: "link = find (\<lambda>y. conn_at s y = Some c) os" and S: "S_of s a = Some (n, os)"
    and wf: "wf_registry s" and hash: "service_hash s n = Some a" and other: "fst (hd (queue s n)) \<noteq> c"
  shows "queue_becomes n (without c (queue s n)) s s'"
proof -
  obtain x xs where ok: "pools_ok s" and S': "S_of s a = Some (n, x # xs)"
    using wf hash by (rule wf_registryD)
  show ?thesis
  proof (cases link)
    case None
    then have "without c (queue s n) = queue s n"
      using find_conn_None [OF ok S, of c] link by (simp add: queue_Some [OF hash] without_absent)
    then show ?thesis
      using None run same_registry_becomes [OF wf registry_base.R_refl] by simp
  next
    case (Some y)
    note find = Some [unfolded link]
    obtain t where "set_owners a (remove1 y) s = (Inr (), t)" "bus_owner_unref y t = (Inr (), s')"
      using run Some by auto
    note drop = drop_owner_Inr [OF this ok S find_conn_Some(1) [OF ok S find] refl]
    have q: "queue_at s' a = without c (queue s n)"
      using drop(3) map_entry_remove1 [OF ok S find] by (simp add: queue_Some [OF hash])
    then have "queue_at s' a \<noteq> []"
      using other by (auto simp: queue_Some [OF hash] queue_at_Some [OF S'] without_def)
    then show ?thesis
      using changes_only_becomes [OF wf hash drop(1,2)] q by simp
  qed
qed

lemma enqueue_Inr:
  assumes run: "bus_service_add_owner a c flags s = (Inr u, s')" and wf: "wf_registry s"
    and hash: "service_hash s n = Some a"
  shows "queue_becomes n (enqueue c flags (queue s n)) s s'" and "service_hash s' = service_hash s"
proof -
  have add: "pools_ok s'" "changes_only a s s'" "queue_at s' a = enqueue c flags (queue s n)"
    using add_owner_Inr [OF run] wf by (simp_all add: wf_registry_def queue_Some [OF hash])
  have "enqueue c flags (queue s n) \<noteq> []"
    using wf hash
    by (auto elim!: wf_registryD simp: enqueue_def insert_second_def queue_def queue_at_Some split: list.split)
  then show "queue_becomes n (enqueue c flags (queue s n)) s s'"
    using changes_only_becomes [OF wf hash add(1,2)] add(3) by simp
  show "service_hash s' = service_hash s"
    by (rule changes_onlyD(1) [OF add(2)])
qed

lemma replace_owner_Inr:
  assumes run: "thenB (if dn then bus_service_remove_owner a p else bus_service_swap_owner a p) k s = (Inr r, s')"
    and k: "\<And>t t' r. k t = (Inr r, t') \<Longrightarrow> t' = t"
    and wf: "wf_registry s" and hash: "service_hash s n = Some a"
    and q: "queue s n = (p, e) # f # fs" and p: "p \<noteq> fst f" "p \<notin> fst ` set fs"
  shows "queue_becomes n (f # (if dn then [] else [(p, e)]) @ fs) s s'"
proof -
  obtain u where step: "(if dn then bus_service_remove_owner a p else bus_service_swap_owner a p) s = (Inr u, s')"
    using run k by auto
  show ?thesis
  proof (cases dn)
    case True
    have "without p (queue s n) = f # fs"
      using p q by (simp add: without_def) (auto simp: filter_id_conv)
    then show ?thesis
      using remove_owner_Inr [OF _ wf hash, of p u s'] step True by simp
  next
    case False
    have ok: "pools_ok s"
      using wf by (simp add: wf_registry_def)
    have "pools_ok s'" "changes_only a s s'" "queue_at s' a = f # (p, e) # fs"
      using swap_owner_Inr [of a p s u s'] step False ok q by (simp_all add: queue_Some [OF hash] swap_first_two_def)
    then show ?thesis
      using changes_only_becomes [OF wf hash, of s'] False by simp
  qed
qed

lemma acquire_from_queue_Inr:
  assumes run: "acquire_from_queue a c flags (Some p) x s = (Inr r, s')" and wf: "wf_registry s"
    and hash: "service_hash s n = Some a" and S: "S_of s a = Some (n, x # xs)" and x: "entry s x = (p, al, dn)"
  shows "queue_becomes n (fst (request_name c flags (queue s n))) s s' \<and> r = snd (request_name c flags (queue s n))"
proof -
  have ok: "pools_ok s"
    using wf by (simp add: wf_registry_def)
  have q: "queue s n = (p, al, dn) # map (entry s) xs"
    using x by (simp add: queue_Some [OF hash] queue_at_Some [OF S])
  have notin: "p \<notin> fst ` set (map (entry s) xs)"
    using without_hd [OF ok S] x q
    by (auto simp: queue_Some [OF hash, symmetric] without_def filter_id_conv map_eq_conv)
  obtain w where w: "owner_pool s x = Some w" "bo_conn w = p" "bo_allow_replacement w = al" "bo_do_not_queue w = dn"
    using pools_okD(3) [OF ok S, of x] x by (auto simp: O_of_def owner_info_def entry_def)
  obtain v where v: "service_pool s a = Some v" "bs_owners v = x # xs"
    using S by (auto simp: S_of_def)
  have allow: "bus_service_get_allow_replacement a s = (Inr al, s)"
    using v w by (simp add: bus_service_get_allow_replacement_def get_primary_owner_Inr get_owner_Inr)
  consider "p = c" | "p \<noteq> c" "replace_existing_flag flags \<and> al"
    | "p \<noteq> c" "\<not> (replace_existing_flag flags \<and> al)" "do_not_queue_flag flags"
    | "p \<noteq> c" "\<not> (replace_existing_flag flags \<and> al)" "\<not> do_not_queue_flag flags"
    by blast
  then show ?thesis
  proof cases
    case 1
    then show ?thesis
      using run w x set_primary_flags_Inr [OF _ wf hash S, of flags "()" s'] q
      by (auto simp: acquire_from_queue_def get_owner_Inr request_name_def)
  next
    case 2
    let ?k = "bindB (bus_service_get_primary_owners_connection a) (\<lambda>p.
                thenB (assertB (p = Some c)) (returnB DBUS_REQUEST_NAME_REPLY_PRIMARY_OWNER))"
    obtain u t where add: "bus_service_add_owner a c flags s = (Inr u, t)"
      and rest: "thenB (if dn then bus_service_remove_owner a p else bus_service_swap_owner a p) ?k t = (Inr r, s')"
      using run w allow 2 by (auto simp: acquire_from_queue_def get_owner_Inr)
    note t = enqueue_Inr [OF add wf hash]
    have q': "queue t n = (p, al, dn) # new_entry c flags # without c (map (entry s) xs)"
      using t(1) 2 q by (simp add: queue_becomes_def enqueue_def without_def insert_second_def)
    have "queue_becomes n (new_entry c flags # (if dn then [] else [(p, al, dn)]) @ without c (map (entry s) xs)) t s'"
    proof (rule replace_owner_Inr [OF rest])
      show "t' = t" if "?k t = (Inr r, t')" for t t' r
        using that by (auto simp: bus_service_get_primary_owners_connection_def get_primary_owner_Inr get_owner_Inr
            split: if_splits)
    qed (use t hash q' notin 2 in \<open>auto simp: queue_becomes_def new_entry_def without_def\<close>)
    from queue_becomes_trans [OF t(1) this] have "queue_becomes n (fst (request_name c flags (queue s n))) s s'"
      using 2 q by (simp add: request_name_def split: if_splits)
    then show ?thesis
      using rest 2 q by (auto simp: request_name_def)
  next
    case 3
    obtain link t u where find: "bus_service_find_owner_link a c s = (Inr link, t)"
      and rest: "(case link of None \<Rightarrow> returnB ()
                 | Some owner \<Rightarrow> thenB (set_owners a (remove1 owner)) (bus_owner_unref owner)) t = (Inr u, s')"
      and r: "r = DBUS_REQUEST_NAME_REPLY_EXISTS"
      using run w allow 3 by (auto simp: acquire_from_queue_def get_owner_Inr)
    have "t = s" "link = find (\<lambda>y. conn_at s y = Some c) (x # xs)"
      using find S by (auto elim!: find_owner_link_Inr)
    then show ?thesis
      using leave_queue_Inr [OF rest, of c "x # xs" n] S wf hash 3 q r by (auto simp: request_name_def)
  next
    case 4
    then show ?thesis
      using run w allow enqueue_Inr(1) [OF _ wf hash] q
      by (auto simp: acquire_from_queue_def get_owner_Inr request_name_def)
  qed
qed

section \<open>RequestName and ReleaseName\<close>

lemma registry_primary_connection [steps_intros]: "steps same_registry (bus_service_get_primary_owners_connection a)"
  unfolding bus_service_get_primary_owners_connection_def bus_service_get_primary_owner_def
  by (auto intro!: steps_intros split: option.split)

lemma registry_auto_activation [steps_intros]:
  "steps same_registry (bus_activation_send_pending_auto_activation_messages a)"
proof -
  have "steps same_registry (send_auto_activation_message a e)" for e
    unfolding send_auto_activation_message_def
    by (auto intro!: steps_intros split: option.split)
  then show ?thesis
    unfolding bus_activation_send_pending_auto_activation_messages_def
    by (auto intro!: steps_intros split: option.split)
qed

lemma acquire_checked_Inr:
  assumes run: "acquire_checked c n flags s = (Inr r, s')" and wf: "wf_registry s"
  shows "queue_becomes n (fst (request_name c flags (queue s n))) s s' \<and> r = snd (request_name c flags (queue s n))"
proof -
  let ?done = "\<lambda>t. queue_becomes n (fst (request_name c flags (queue s n))) s t \<and> r = snd (request_name c flags (queue s n))"
  have finish: ?thesis if "?done t" "bus_activation_send_pending_auto_activation_messages a t = (Inr u, s')" for t a u
    using that same_registry_becomes [OF _ stepsD [OF registry_auto_activation that(2)], of n]
      queue_becomes_trans [of n _ s t _ s'] by (auto simp: queue_becomes_def)
  show ?thesis
  proof (cases "service_hash s n")
    case None
    then obtain a t u x t' u' where ensure: "bus_registry_ensure n c flags s = (Inr a, t)"
      and acquire: "acquire_from_queue a c flags None x t = (Inr r, t')"
      and rest: "bus_activation_send_pending_auto_activation_messages a t' = (Inr u', s')"
      using run by (auto simp: acquire_checked_def bus_registry_lookup_def get_primary_owner_Inr split: if_splits)
    have "t' = t" "r = DBUS_REQUEST_NAME_REPLY_PRIMARY_OWNER"
      using acquire by (auto simp: acquire_from_queue_def get_owner_Inr)
    then have "?done t'"
      using ensure_Inr(1) [OF ensure wf None] None by (simp add: queue_def request_name_def)
    then show ?thesis
      using finish rest by blast
  next
    case (Some a)
    obtain x xs where ok: "pools_ok s" and S: "S_of s a = Some (n, x # xs)"
      using wf Some by (rule wf_registryD)
    obtain p al dn where x: "O_of s x = Some (a, p, al, dn)"
      using pools_okD(3) [OF ok S, of x] by auto
    obtain t u where acquire: "acquire_from_queue a c flags (Some p) x s = (Inr r, t)"
      and rest: "bus_activation_send_pending_auto_activation_messages a t = (Inr u, s')"
      using run Some S x
      by (auto simp: acquire_checked_def bus_registry_lookup_def bus_service_get_primary_owners_connection_def
          get_primary_owner_Inr get_owner_Inr S_of_def O_of_def owner_info_def)
    then show ?thesis
      using finish acquire_from_queue_Inr [OF acquire wf Some S] x by (auto simp: entry_def)
  qed
qed

lemma acquire_service_Inr:
  assumes run: "bus_registry_acquire_service c n flags s = (Inr r, s')"
    and plain: "dbus_get_base_service_name_and_pid n = None" and wf: "wf_registry s"
  shows "queue_becomes n (fst (request_name c flags (queue s n))) s s' \<and> r = snd (request_name c flags (queue s n))"
proof -
  from run plain obtain t where checks: "acquire_checks c n s = (Inr (), t)"
    and rest: "acquire_checked c n flags t = (Inr r, s')"
    by (auto simp: bus_registry_acquire_service_def)
  have "t = s"
    using checks by (auto simp: acquire_checks_def bus_connection_get_policy_def get_conn_def split: option.splits)
  then show ?thesis
    using acquire_checked_Inr [OF rest] wf by simp
qed

lemma has_owner_Inr:
  assumes run: "bus_service_has_owner a c s = (Inr b, s')" and wf: "wf_registry s" and hash: "service_hash s n = Some a"
  shows "s' = s" and "b \<longleftrightarrow> c \<in> fst ` set (queue s n)"
proof -
  obtain r where find: "bus_service_find_owner_link a c s = (Inr r, s')" and b: "b \<longleftrightarrow> r \<noteq> None"
    using run by (auto simp: bus_service_has_owner_def)
  obtain m os where "s' = s" and S: "S_of s a = Some (m, os)" and r: "r = find (\<lambda>y. conn_at s y = Some c) os"
    using find by (rule find_owner_link_Inr)
  then show "s' = s" "b \<longleftrightarrow> c \<in> fst ` set (queue s n)"
    using find_conn_None [OF _ S, of c] wf b by (auto simp: wf_registry_def queue_Some [OF hash])
qed

lemma release_service_Inr:
  assumes run: "bus_registry_release_service c n s = (Inr r, s')" and wf: "wf_registry s"
  shows "queue_becomes n (fst (release_name c (queue s n))) s s' \<and> r = snd (release_name c (queue s n))"
proof -
  have forget: "same_registry t (t \<lparr> unique_pid_hash := h \<rparr>)" for t h
    by (simp add: same_registry_def S_of_def O_of_def fun_eq_iff)
  have finish: "queue_becomes n q s (t \<lparr> unique_pid_hash := h \<rparr>)" if "queue_becomes n q s t" for t h q
    using that same_registry_becomes [OF _ forget, of t n h] queue_becomes_trans by (auto simp: queue_becomes_def)
  have stay: "queue_becomes n (queue s n) s s"
    by (rule same_registry_becomes [OF wf registry_base.R_refl])
  show ?thesis
  proof (cases "service_hash s n")
    case None
    then show ?thesis
      using run finish [OF stay]
      by (auto simp: bus_registry_release_service_def bus_registry_lookup_def queue_def release_name_def)
  next
    case (Some a)
    have ne: "queue s n \<noteq> []"
      using wf Some by (auto elim!: wf_registryD simp: queue_def queue_at_Some)
    obtain owns t h where owner: "bus_service_has_owner a c s = (Inr owns, s)" and s': "s' = t \<lparr> unique_pid_hash := h \<rparr>"
      and rest: "if owns then r = DBUS_RELEASE_NAME_REPLY_RELEASED \<and> (\<exists>u. bus_service_remove_owner a c s = (Inr u, t))
                 else r = DBUS_RELEASE_NAME_REPLY_NOT_OWNER \<and> t = s"
      using run Some has_owner_Inr(1) [OF _ wf Some]
      by (auto simp: bus_registry_release_service_def bus_registry_lookup_def split: if_splits)
        (auto simp: bus_service_has_owner_def elim!: find_owner_link_Inr)
    show ?thesis
    proof (cases owns)
      case True
      then show ?thesis
        using rest remove_owner_Inr [OF _ wf Some] has_owner_Inr(2) [OF owner wf Some] ne s' finish
        by (auto simp: release_name_def)
    next
      case False
      then show ?thesis
        using rest has_owner_Inr(2) [OF owner wf Some] ne s' finish [OF stay] by (simp add: release_name_def)
    qed
  qed
qed

end
