(* ===== verification/Bus_Registry.thy ===== *)
theory Bus_Registry
  imports Bus_Ownership
begin

text \<open>
  What RequestName and ReleaseName promise (src/bus/services.c): stated over the
  abstract registry of \<open>Bus_Ownership\<close>, for single requests and for sequences
  of them, with a small bus on which the operations run.
\<close>

section \<open>A bus with two clients\<close>

text \<open>No limits are reached, every memory allocation succeeds, and the policy allows all names.\<close>

definition permissive_rules :: BusClientPolicy where
  "permissive_rules = [\<lparr> rule_allow = True, rule_d = OwnData None \<rparr>]"

definition demo_connection :: "string \<Rightarrow> BusConnectionData" where
  "demo_connection name =
     \<lparr> cd_name = Some (str name), cd_services_owned = [], cd_n_services_owned = 0, cd_match_rules = [],
       cd_n_match_rules = 0, cd_transaction_messages = [], cd_policy = Some permissive_rules, cd_stamp = 0,
       cd_unix_user = None, cd_connected = True, cd_outgoing = [], cd_connect_time = 0, cd_oom_message = None \<rparr>"

definition demo_bus :: BusContext where
  "demo_bus =
     \<lparr> env = \<lparr> env_users = \<lparr> groups_from_uid = (\<lambda>_. Some []), user_is_at_console = (\<lambda>_. Some False),
                              user_is_process_owner = (\<lambda>_. False) \<rparr>,
               env_selinux_acquire = (\<lambda>_ _. True), env_selinux_send = (\<lambda>_ _ _. True),
               env_process_exists = (\<lambda>_. True), env_oob = 0, env_outgoing_size = (\<lambda>ms. int (length ms)),
               env_hash_order = (\<lambda>_. []), env_service_file = (\<lambda>_. None), env_activatable = [],
               env_spawn = (\<lambda>_ _. None), env_unix_process_id = (\<lambda>_. None), env_windows_user = (\<lambda>_. None),
               env_adt_audit_data = (\<lambda>_. None), env_selinux_id = (\<lambda>_. None), env_servicehelper = None,
               env_bus_type = None, env_bus_address = [], env_bus_id = [], env_reload_config = Inl DBUS_ERROR_FAILED,
               env_environment = (\<lambda>_. None) \<rparr>,
       oom = [], now = 0,
       limits = \<lparr> auth_timeout = 5000, reply_timeout = 60000, max_outgoing_bytes = 1000,
                  max_completed_connections = 10, max_incomplete_connections = 10, max_connections_per_user = 10,
                  max_pending_activations = 10, max_services_per_connection = 10,
                  max_match_rules_per_connection = 10, max_replies_per_connection = 10 \<rparr>,
       bus_policy = bus_policy_new, next_addr = 0, owner_pool = (\<lambda>_. None), service_pool = (\<lambda>_. None),
       service_hash = (\<lambda>_. None), unique_pid_hash = (\<lambda>_. None),
       conns = (\<lambda>c. if c = 1 then Some (demo_connection '':1.1'')
                     else if c = 2 then Some (demo_connection '':1.2'') else None),
       completed = [1, 2], n_completed = 2, incomplete = [], n_incomplete = 0,
       completed_by_user = (\<lambda>_. None), stamp = 0, pending_replies = [], all_rules = [],
       pending_activations = (\<lambda>_. None), pending_pool = (\<lambda>_. None), n_pending_activations = 0,
       act_environment = (\<lambda>_. None), next_major_number = 1, next_minor_number = 3,
       transaction = \<lparr> tr_connections = [], tr_cancel_hooks = [] \<rparr> \<rparr>"

lemma wf_demo_bus: "wf_registry demo_bus"
  by (simp add: demo_bus_def wf_registry_def pools_ok_def S_of_def O_of_def)

text \<open>The bus after client 1 has taken a name that others may take over.\<close>

definition demo_owned :: BusContext where
  "demo_owned = demo_bus
     \<lparr> next_addr := 2, service_hash := [str ''a.b'' \<mapsto> 0],
       service_pool := [0 \<mapsto> \<lparr> bs_refcount = 1, bs_name = str ''a.b'', bs_owners = [1] \<rparr>],
       owner_pool := [1 \<mapsto> \<lparr> bo_refcount = 1, bo_service = 0, bo_conn = 1, bo_allow_replacement = True,
                               bo_do_not_queue = False \<rparr>],
       conns := (conns demo_bus)(1 \<mapsto> demo_connection '':1.1'' \<lparr> cd_services_owned := [0], cd_n_services_owned := 1 \<rparr>) \<rparr>"

lemma wf_demo_owned: "wf_registry demo_owned"
  by (auto simp: demo_owned_def demo_bus_def wf_registry_def pools_ok_def S_of_def O_of_def owner_info_def
      split: if_splits)

section \<open>Single requests\<close>



text \<open>
  C7: A ReleaseName that is answered takes the connection out of the queue of
  the name and nothing else, with the reply code of \<open>release_name\<close>; the next in
  the queue, if there is one, becomes the owner.
\<close>

theorem release_name_refines:
  assumes "wf_registry s" and "bus_registry_release_service c name s = (Inr reply, s')"
  shows "wf_registry s' \<and> (queue s' name, reply) = release_name c (queue s name) \<and>
    (\<forall>other. other \<noteq> name \<longrightarrow> queue s' other = queue s other)"
  using release_service_Inr [OF assms(2,1)] by (auto simp: queue_becomes_def prod_eq_iff)

theorem release_name_refines_witness:
  "let (r, s') = bus_registry_release_service 1 (str ''a.b'') demo_owned
   in r = Inr DBUS_RELEASE_NAME_REPLY_RELEASED \<and> queue s' (str ''a.b'') = []"
proof -
  let ?run = "bus_registry_release_service 1 (str ''a.b'') demo_owned"
  have ok: "fst ?run = Inr DBUS_RELEASE_NAME_REPLY_RELEASED"
    by code_simp
  then have run: "?run = (Inr DBUS_RELEASE_NAME_REPLY_RELEASED, snd ?run)"
    by (simp add: prod_eq_iff)
  have spec: "fst (release_name 1 (queue demo_owned (str ''a.b''))) = []"
    by code_simp
  show ?thesis
    using release_name_refines [OF wf_demo_owned run] spec ok by (simp add: Let_def case_prod_beta prod_eq_iff)
qed

text \<open>The reasons to refuse a request, in the order in which they are looked for.\<close>

definition request_refused :: "BusContext \<Rightarrow> conn \<Rightarrow> BusConnectionData \<Rightarrow> BusClientPolicy \<Rightarrow> dbus_string \<Rightarrow>
    dbus_error_name option" where
  "request_refused s c d policy name =
     (if \<not> validates dbus_validate_bus_name name \<or> first_byte name = COLON_CHAR \<or> name = DBUS_SERVICE_DBUS
      then Some DBUS_ERROR_INVALID_ARGS
      else if \<not> env_selinux_acquire (env s) c name \<or> \<not> bus_client_policy_check_can_own policy name
      then Some DBUS_ERROR_ACCESS_DENIED
      else if cd_n_services_owned d \<ge> max_services_per_connection (limits s)
      then Some DBUS_ERROR_LIMITS_EXCEEDED
      else None)"




section \<open>Sequences of requests\<close>

datatype name_request = RequestName conn dbus_string "32 word" | ReleaseName conn dbus_string

fun serve :: "name_request \<Rightarrow> 32 word bus" where
  "serve (RequestName c name flags) = bus_registry_acquire_service c name flags"
| "serve (ReleaseName c name) = bus_registry_release_service c name"

fun serve_all :: "name_request list \<Rightarrow> 32 word list bus" where
  "serve_all [] = returnB []"
| "serve_all (r # rs) = bindB (serve r) (\<lambda>x. bindB (serve_all rs) (\<lambda>xs. returnB (x # xs)))"

text \<open>The same on the abstract registry, a map from names to queues.\<close>

type_synonym registry = "dbus_string \<Rightarrow> queue_entry list"

fun spec_serve :: "name_request \<Rightarrow> registry \<Rightarrow> 32 word \<times> registry" where
  "spec_serve (RequestName c name flags) g =
     (let (q, reply) = request_name c flags (g name) in (reply, g(name := q)))"
| "spec_serve (ReleaseName c name) g =
     (let (q, reply) = release_name c (g name) in (reply, g(name := q)))"

fun spec_serve_all :: "name_request list \<Rightarrow> registry \<Rightarrow> 32 word list \<times> registry" where
  "spec_serve_all [] g = ([], g)"
| "spec_serve_all (r # rs) g =
     (let (x, g1) = spec_serve r g; (xs, g2) = spec_serve_all rs g1 in (x # xs, g2))"

fun plain_name :: "name_request \<Rightarrow> bool" where
  "plain_name (RequestName c name flags) \<longleftrightarrow> dbus_get_base_service_name_and_pid name = None"
| "plain_name (ReleaseName c name) \<longleftrightarrow> True"

lemma serve_refines:
  assumes "wf_registry s" and "plain_name r" and "serve r s = (Inr x, s')"
  shows "wf_registry s' \<and> spec_serve r (queue s) = (x, queue s')"
proof -
  have upd: "(queue s)(n := queue s' n) = queue s'" if "queue_becomes n q s s'" for n q
    using that by (auto simp: queue_becomes_def fun_eq_iff)
  show ?thesis
  proof (cases r)
    case (RequestName c n flags)
    then have step: "queue_becomes n (fst (request_name c flags (queue s n))) s s'"
        "x = snd (request_name c flags (queue s n))"
      using acquire_service_Inr [of c n flags s x s'] assms by auto
    then show ?thesis
      using upd [OF step(1)] by (simp add: RequestName queue_becomes_def case_prod_beta Let_def)
  next
    case (ReleaseName c n)
    then have step: "queue_becomes n (fst (release_name c (queue s n))) s s'" "x = snd (release_name c (queue s n))"
      using release_service_Inr [of c n s x s'] assms by auto
    then show ?thesis
      using upd [OF step(1)] by (simp add: ReleaseName queue_becomes_def case_prod_beta Let_def)
  qed
qed



lemma entries_distinct:
  assumes "wf_registry s"
  shows "distinct (map fst (queue s n))"
proof (cases "service_hash s n")
  case None
  then show ?thesis
    by (simp add: queue_def)
next
  case (Some a)
  obtain x xs where ok: "pools_ok s" and S: "S_of s a = Some (n, x # xs)"
    using assms Some by (rule wf_registryD)
  have "map (conn_at s) (x # xs) = map Some (map fst (map (entry s) (x # xs)))"
    using conn_at_entry [OF ok S] by simp
  then have "distinct (map Some (map fst (map (entry s) (x # xs))))"
    using pools_okD(2) [OF ok S] by (simp only:)
  then show ?thesis
    unfolding queue_Some [OF Some] queue_at_Some [OF S] by (subst (asm) distinct_map) simp
qed



end
