(* ===== verification/Dbus_Shell.thy ===== *)
theory Dbus_Shell
  imports Dbus_Prelude
begin

text \<open>
  Command lines of service files (src/dbus/dbus-shell.c): removal of quotes, the
  split into words, and \<open>_dbus_shell_parse_argv\<close>.  Strings are C strings: the
  list ends where the terminating zero stands.  Allocation is taken to succeed;
  a word whose quotes cannot be removed is reported as lack of memory, as the
  code does.

  The lemmas show that words quoted for the shell come back unchanged, and where
  the split differs from the rules quoted in the source.
\<close>

definition SINGLE_QUOTE :: byte where "SINGLE_QUOTE = 39"
definition DOUBLE_QUOTE :: byte where "DOUBLE_QUOTE = 34"
definition BACKSLASH :: byte where "BACKSLASH = 92"
definition HASH :: byte where "HASH = 35"
definition NEWLINE :: byte where "NEWLINE = 10"
definition BLANK :: byte where "BLANK = 32"
definition TAB :: byte where "TAB = 9"

lemmas shell_chars =
  SINGLE_QUOTE_def DOUBLE_QUOTE_def BACKSLASH_def HASH_def NEWLINE_def BLANK_def TAB_def

section \<open>Removal of quotes\<close>

definition escapable_in_double_quotes :: "byte \<Rightarrow> bool" where
  "escapable_in_double_quotes c \<longleftrightarrow> c = DOUBLE_QUOTE \<or> c = BACKSLASH \<or> c = 96 \<or> c = 36 \<or> c = NEWLINE"

text \<open>The two loops of \<open>unquote_string_inplace\<close>, after the opening quote: the text and what follows the closing quote.\<close>

fun unquote_double :: "dbus_string \<Rightarrow> (dbus_string \<times> dbus_string) option" where
  "unquote_double [] = None"
| "unquote_double (c # cs) =
     (if c = DOUBLE_QUOTE then Some ([], cs)
      else if c = BACKSLASH
      then (case cs of
              x # xs \<Rightarrow>
                if escapable_in_double_quotes x then map_option (\<lambda>(t, rest). (x # t, rest)) (unquote_double xs)
                else map_option (\<lambda>(t, rest). (BACKSLASH # t, rest)) (unquote_double cs)
            | [] \<Rightarrow> None)
      else map_option (\<lambda>(t, rest). (c # t, rest)) (unquote_double cs))"

fun unquote_single :: "dbus_string \<Rightarrow> (dbus_string \<times> dbus_string) option" where
  "unquote_single [] = None"
| "unquote_single (c # cs) =
     (if c = SINGLE_QUOTE then Some ([], cs)
      else map_option (\<lambda>(t, rest). (c # t, rest)) (unquote_single cs))"

definition unquote_string_inplace :: "dbus_string \<Rightarrow> (dbus_string \<times> dbus_string) option" where
  "unquote_string_inplace s =
     (case s of
        [] \<Rightarrow> None
      | c # cs \<Rightarrow> if c = DOUBLE_QUOTE then unquote_double cs
                  else if c = SINGLE_QUOTE then unquote_single cs
                  else None)"

lemma unquote_double_cases:
  assumes "unquote_double (c # cs) = Some (t, rest)"
  obtains "rest = cs"
    | x xs t' where "cs = x # xs" and "unquote_double xs = Some (t', rest)"
    | t' where "unquote_double cs = Some (t', rest)"
  using assms
  by (subst (asm) unquote_double.simps) (auto simp del: unquote_double.simps split: if_splits list.splits)

lemma unquote_double_length: "unquote_double cs = Some (t, rest) \<Longrightarrow> length rest < length cs"
proof (induction cs arbitrary: t rule: length_induct)
  case (1 cs)
  then obtain c cs' where cs: "cs = c # cs'"
    by (cases cs) auto
  from 1(2) [unfolded cs] show ?case
  proof (cases rule: unquote_double_cases)
    case (2 x xs t')
    then show ?thesis using 1(1) [rule_format, of xs t'] cs by simp
  next
    case (3 t')
    then show ?thesis using 1(1) cs by fastforce
  qed (simp add: cs)
qed

lemma unquote_single_length: "unquote_single cs = Some (t, rest) \<Longrightarrow> length rest < length cs"
  by (induction cs arbitrary: t rest) (fastforce split: if_splits)+

lemma unquote_inplace_length: "unquote_string_inplace s = Some (t, rest) \<Longrightarrow> length rest < length s"
  by (auto simp: unquote_string_inplace_def split: list.splits if_splits
      dest!: unquote_double_length unquote_single_length)

function dbus_shell_unquote :: "dbus_string \<Rightarrow> dbus_string option" where
  "dbus_shell_unquote [] = Some []"
| "dbus_shell_unquote (c # cs) =
     (if c = DOUBLE_QUOTE \<or> c = SINGLE_QUOTE
      then (case unquote_string_inplace (c # cs) of
              None \<Rightarrow> None
            | Some (t, rest) \<Rightarrow> map_option ((@) t) (dbus_shell_unquote rest))
      else if c = BACKSLASH
      then (case cs of
              [] \<Rightarrow> Some []
            | x # xs \<Rightarrow> if x = NEWLINE then dbus_shell_unquote xs
                        else map_option ((#) x) (dbus_shell_unquote xs))
      else map_option ((#) c) (dbus_shell_unquote cs))"
  by pat_completeness auto
termination
  by (relation "measure length") (auto dest: unquote_inplace_length)

section \<open>Words\<close>

lemma dropWhile_Cons_length: "dropWhile P xs = y # ys \<Longrightarrow> length ys < length xs"
  by (metis length_Cons length_dropWhile_le less_eq_Suc_le)

text \<open>
  The loop of \<open>tokenize_command_line\<close>: the quote that is open (0 for none, a
  backslash or a hash included), whether an odd number of backslashes has just
  been read, the current word, and the words so far.
\<close>

function command_line_loop ::
  "dbus_string \<Rightarrow> byte \<Rightarrow> bool \<Rightarrow> dbus_string \<Rightarrow> dbus_string list \<Rightarrow> byte \<times> dbus_string \<times> dbus_string list" where
  "command_line_loop [] quote quoted token tokens = (quote, token, tokens)"
| "command_line_loop (c # cs) quote quoted token tokens =
     (let quoted' = (if c \<noteq> BACKSLASH then False else \<not> quoted) in
      if quote = BACKSLASH
      then command_line_loop cs 0 quoted' (if c = NEWLINE then token else token @ [BACKSLASH, c]) tokens
      else if quote = HASH
      then (case dropWhile (\<lambda>b. b \<noteq> NEWLINE) (c # cs) of
              [] \<Rightarrow> (0, token, tokens)
            | _ # rest \<Rightarrow> command_line_loop rest 0 False token tokens)
      else if quote \<noteq> 0
      then command_line_loop cs (if c = quote \<and> \<not> (quote = DOUBLE_QUOTE \<and> quoted) then 0 else quote)
             quoted' (token @ [c]) tokens
      else if c = NEWLINE then command_line_loop cs 0 quoted' [] (tokens @ [token])
      else if c = BLANK \<or> c = TAB
      then (if token \<noteq> [] then command_line_loop cs 0 quoted' [] (tokens @ [token])
            else command_line_loop cs 0 quoted' token tokens)
      else if c = SINGLE_QUOTE \<or> c = DOUBLE_QUOTE then command_line_loop cs c quoted' (token @ [c]) tokens
      else if c = HASH \<or> c = BACKSLASH then command_line_loop cs c quoted' token tokens
      else command_line_loop cs 0 quoted' (token @ [c]) tokens)"
  by pat_completeness auto
termination
  by (relation "measure (\<lambda>(cs, _). length cs)") (auto simp del: dropWhile.simps dest!: dropWhile_Cons_length)

datatype shell_error = UnclosedQuotes | NoTokens | ShellNoMemory

definition tokenize_command_line :: "dbus_string \<Rightarrow> shell_error + dbus_string list" where
  "tokenize_command_line command_line =
     (let (quote, token, tokens) = command_line_loop command_line 0 False [] [];
          retval = tokens @ [token]
      in if quote \<noteq> 0 then Inl UnclosedQuotes
         else if retval = [] then Inl NoTokens
         else Inr retval)"

fun unquote_all :: "dbus_string list \<Rightarrow> shell_error + dbus_string list" where
  "unquote_all [] = Inr []"
| "unquote_all (t # ts) =
     (case dbus_shell_unquote t of
        None \<Rightarrow> Inl ShellNoMemory
      | Some arg \<Rightarrow> (case unquote_all ts of Inl e \<Rightarrow> Inl e | Inr args \<Rightarrow> Inr (arg # args)))"

definition dbus_shell_parse_argv :: "dbus_string \<Rightarrow> shell_error + dbus_string list" where
  "dbus_shell_parse_argv command_line =
     (case tokenize_command_line command_line of
        Inl e \<Rightarrow> Inl e
      | Inr tokens \<Rightarrow> unquote_all tokens)"

section \<open>Quoting for the shell\<close>

text \<open>A word in single quotes; a single quote in it is written outside of them with a backslash.\<close>

definition quote_char :: "byte \<Rightarrow> dbus_string" where
  "quote_char c = (if c = SINGLE_QUOTE then [SINGLE_QUOTE, BACKSLASH, SINGLE_QUOTE, SINGLE_QUOTE] else [c])"

definition shell_quote :: "dbus_string \<Rightarrow> dbus_string" where
  "shell_quote arg = SINGLE_QUOTE # concat (map quote_char arg) @ [SINGLE_QUOTE]"

lemma shell_chars_distinct [simp]:
  "SINGLE_QUOTE \<noteq> BACKSLASH" "BACKSLASH \<noteq> SINGLE_QUOTE" "SINGLE_QUOTE \<noteq> HASH" "HASH \<noteq> SINGLE_QUOTE"
  "SINGLE_QUOTE \<noteq> 0" "SINGLE_QUOTE \<noteq> NEWLINE" "SINGLE_QUOTE \<noteq> BLANK" "SINGLE_QUOTE \<noteq> TAB"
  "SINGLE_QUOTE \<noteq> DOUBLE_QUOTE" "BACKSLASH \<noteq> NEWLINE" "BACKSLASH \<noteq> BLANK" "BACKSLASH \<noteq> TAB"
  "BACKSLASH \<noteq> DOUBLE_QUOTE" "BACKSLASH \<noteq> HASH" "BACKSLASH \<noteq> 0" "HASH \<noteq> BACKSLASH" "BLANK \<noteq> NEWLINE"
  "BLANK \<noteq> BACKSLASH" "(0::byte) \<noteq> BACKSLASH" "(0::byte) \<noteq> HASH"
  by (simp_all add: shell_chars)

text \<open>Inside single quotes the split copies the quoted characters and stays inside.\<close>

lemma tokenize_quoted_chars:
  "\<exists>quoted'. command_line_loop (concat (map quote_char arg) @ cs) SINGLE_QUOTE quoted token tokens =
     command_line_loop cs SINGLE_QUOTE quoted' (token @ concat (map quote_char arg)) tokens"
proof (induction arg arbitrary: quoted token)
  case (Cons c arg)
  have "\<exists>q. command_line_loop (quote_char c @ concat (map quote_char arg) @ cs) SINGLE_QUOTE quoted token tokens =
      command_line_loop (concat (map quote_char arg) @ cs) SINGLE_QUOTE q (token @ quote_char c) tokens"
    by (cases "c = SINGLE_QUOTE") (auto simp: quote_char_def Let_def)
  then obtain q where "command_line_loop (quote_char c @ concat (map quote_char arg) @ cs) SINGLE_QUOTE quoted token tokens =
      command_line_loop (concat (map quote_char arg) @ cs) SINGLE_QUOTE q (token @ quote_char c) tokens" ..
  then show ?case
    using Cons.IH [of q "token @ quote_char c"] by simp
qed auto

lemma tokenize_quote:
  "command_line_loop (shell_quote arg @ cs) 0 quoted token tokens =
     command_line_loop cs 0 False (token @ shell_quote arg) tokens"
  using tokenize_quoted_chars [of arg "SINGLE_QUOTE # cs" False "token @ [SINGLE_QUOTE]" tokens]
  by (auto simp: shell_quote_def Let_def)

lemma shell_quote_not_Nil [simp]: "shell_quote arg \<noteq> []"
  by (simp add: shell_quote_def)

lemma tokenize_quoted_words:
  "command_line_loop (join BLANK (map shell_quote (arg # args))) 0 quoted [] tokens =
     (0, shell_quote (last (arg # args)), tokens @ map shell_quote (butlast (arg # args)))"
proof (induction args arbitrary: arg quoted tokens)
  case Nil
  show ?case
    using tokenize_quote [of arg "[]" quoted "[]" tokens] by simp
next
  case (Cons a args)
  show ?case
    using Cons.IH [of a False "tokens @ [shell_quote arg]"]
      tokenize_quote [of arg "BLANK # join BLANK (map shell_quote (a # args))" quoted "[]" tokens]
    by (simp add: Let_def)
qed

lemma unquote_single_quoted:
  "SINGLE_QUOTE \<notin> set pre \<Longrightarrow>
     unquote_single (concat (map quote_char pre) @ SINGLE_QUOTE # cs) = Some (pre, cs)"
  by (induction pre) (auto simp: quote_char_def)

lemma unquote_quote: "dbus_shell_unquote (shell_quote arg) = Some arg"
proof (induction "length arg" arbitrary: arg rule: less_induct)
  case less
  show ?case
  proof (cases "SINGLE_QUOTE \<in> set arg")
    case False
    then show ?thesis
      using unquote_single_quoted [of arg "[]"] by (simp add: unquote_string_inplace_def shell_quote_def)
  next
    case True
    then obtain pre post where arg: "arg = pre @ SINGLE_QUOTE # post" and pre: "SINGLE_QUOTE \<notin> set pre"
      by (meson split_list_first)
    have "shell_quote arg = SINGLE_QUOTE # concat (map quote_char pre) @ SINGLE_QUOTE # BACKSLASH # SINGLE_QUOTE #
        shell_quote post"
      by (simp add: arg shell_quote_def quote_char_def)
    then show ?thesis
      using unquote_single_quoted [OF pre, of "BACKSLASH # SINGLE_QUOTE # shell_quote post"] less [of post] arg
      by (simp add: unquote_string_inplace_def)
  qed
qed

lemma unquote_all_quoted: "unquote_all (map shell_quote args) = Inr args"
  by (induction args) (simp_all add: unquote_quote)

section \<open>Properties\<close>

text \<open>
  C34: Words that were quoted for the shell and joined with blanks come back from
  \<open>_dbus_shell_parse_argv\<close> unchanged, whatever bytes they hold.
\<close>

theorem parse_argv_quoted:
  assumes "args \<noteq> []"
  shows "dbus_shell_parse_argv (join BLANK (map shell_quote args)) = Inr args"
proof -
  obtain arg rest where args: "args = arg # rest"
    using assms by (cases args) auto
  have "tokenize_command_line (join BLANK (map shell_quote args)) =
      Inr (map shell_quote (butlast args) @ [shell_quote (last args)])"
    using tokenize_quoted_words [of arg rest False "[]"]
    by (simp only: tokenize_command_line_def args) (simp del: list.map last.simps butlast.simps)
  also have "map shell_quote (butlast args) @ [shell_quote (last args)] = map shell_quote args"
    using append_butlast_last_id [OF assms] by (metis list.map(2) list.simps(8) map_append)
  finally show ?thesis
    by (simp add: dbus_shell_parse_argv_def unquote_all_quoted)
qed

theorem parse_argv_quoted_witness:
  "dbus_shell_parse_argv (SINGLE_QUOTE # str ''a b'' @ [SINGLE_QUOTE, BLANK, SINGLE_QUOTE, SINGLE_QUOTE]) =
     Inr [str ''a b'', []]"
proof -
  have "join BLANK (map shell_quote [str ''a b'', []]) =
      SINGLE_QUOTE # str ''a b'' @ [SINGLE_QUOTE, BLANK, SINGLE_QUOTE, SINGLE_QUOTE]"
    by (simp add: shell_quote_def quote_char_def shell_chars)
  then show ?thesis
    using parse_argv_quoted [of "[str ''a b'', []]"] by (simp del: str_Cons)
qed

text \<open>
  The split departs from the rules the source quotes.  A trailing blank adds
  an empty argument, an empty command line gives one empty argument instead of an
  error, a hash inside a word starts a comment and the newline that ends it joins
  the next line to the word, and a hash at the very end counts as an open quote.
\<close>

theorem tokenizer_departs_from_rules:
  "dbus_shell_parse_argv (str ''daemon '') = Inr [str ''daemon'', []] \<and>
   dbus_shell_parse_argv [] = Inr [[]] \<and>
   dbus_shell_parse_argv (str ''a#b'' @ NEWLINE # str ''c'') = Inr [str ''ac''] \<and>
   dbus_shell_parse_argv (str ''a #'') = Inl UnclosedQuotes"
  by code_simp

end
