(* ===== verification/Bus_Activation.thy ===== *)
theory Bus_Activation
  imports Bus_Registry Dbus_Shell
begin

text \<open>
  Starting of services (src/bus/activation.c): requests for a name nobody owns
  are collected in a pending activation while the program of its service file
  runs; they are answered when the name appears (in \<open>Bus_Services\<close>), when the
  program exits, or after a timeout.

  The service files on disk and the cache of them, the environment a child
  inherits and the child processes are the parameters \<open>env_service_file\<close>,
  \<open>env_activatable\<close> and \<open>env_spawn\<close> of the state.  Waiting for memory
  (\<open>_dbus_wait_for_memory\<close>) is a retry, and every failed attempt has consumed a
  failing allocation; \<open>retryB\<close> tries once more than the list of outcomes is long.
\<close>

section \<open>Retrying when memory is short\<close>

fun retry_loop :: "nat \<Rightarrow> unit bus \<Rightarrow> unit bus" where
  "retry_loop 0 m = raiseB Abort"
| "retry_loop (Suc n) m = catchB m (\<lambda>e. retry_loop n m) returnB"

definition retryB :: "unit bus \<Rightarrow> unit bus" where
  "retryB m = bindB (getsB (\<lambda>s. length (oom s))) (\<lambda>n. retry_loop (Suc n) m)"

section \<open>Requests\<close>

definition DBUS_START_REPLY_ALREADY_RUNNING :: "32 word" where "DBUS_START_REPLY_ALREADY_RUNNING = 2"

definition hash_keys :: "BusContext \<Rightarrow> (dbus_string \<rightharpoonup> 'a) \<Rightarrow> dbus_string list" where
  "hash_keys s m = env_hash_order (env s) (\<lambda>k. m k \<noteq> None)"

definition activation_find_entry :: "dbus_string \<Rightarrow> BusActivationEntry bus" where
  "activation_find_entry service_name =
     bindB (getsB (\<lambda>s. env_service_file (env s) service_name)) (\<lambda>service_file.
       case service_file of
         None \<Rightarrow> raiseB (BusError DBUS_ERROR_SERVICE_UNKNOWN)
       | Some e \<Rightarrow> returnB e)"

definition bus_activation_set_environment_variable :: "dbus_string \<Rightarrow> dbus_string \<Rightarrow> unit bus" where
  "bus_activation_set_environment_variable key val =
     thenB allocB (thenB allocB (thenB allocB
       (modifyB (\<lambda>s. s \<lparr> act_environment := (act_environment s)(key \<mapsto> val) \<rparr>))))"

definition add_bus_environment :: "unit bus" where
  "add_bus_environment =
     bindB (getsB (\<lambda>s. (env_bus_address (env s), env_bus_type (env s)))) (\<lambda>(address, ty).
     thenB (bus_activation_set_environment_variable (str ''DBUS_STARTER_ADDRESS'') address)
       (case ty of
          None \<Rightarrow> returnB ()
        | Some t \<Rightarrow>
            thenB (bus_activation_set_environment_variable (str ''DBUS_STARTER_BUS_TYPE'') t)
              (if t = str ''session''
               then bus_activation_set_environment_variable (str ''DBUS_SESSION_BUS_ADDRESS'') address
               else if t = str ''system''
               then bus_activation_set_environment_variable (str ''DBUS_SYSTEM_BUS_ADDRESS'') address
               else returnB ())))"

text \<open>
  \<open>bus_activation_activate_service\<close>, lines 1657 to 1791: the request joins the
  pending activation of its name, or makes a new one.  The result says whether
  the program is running already, also on behalf of another name with the same
  command line.  A new pending activation takes an allocation for itself, its
  two strings, its timeout (two) and its first entry.
\<close>

definition new_pending_activation ::
  "BusActivationEntry \<Rightarrow> dbus_string \<Rightarrow> BusPendingActivationEntry \<Rightarrow> (addr \<times> bool) bus" where
  "new_pending_activation service_file service_name request =
     thenB (foreachB (\<lambda>_. allocB) [1 :: nat ..< 7])
    (bindB (getsB next_addr) (\<lambda>a.
     thenB (modifyB (\<lambda>s. s \<lparr> next_addr := next_addr s + 1,
                             pending_pool := (pending_pool s)(a \<mapsto>
                               \<lparr> pa_refcount = 1, pa_service_name = service_name, pa_exec = ae_exec service_file,
                                 pa_entries = [request], pa_n_entries = 1, pa_babysitter = False \<rparr>),
                             n_pending_activations := n_pending_activations s + 1 \<rparr>))
    (bindB (getsB (\<lambda>s. list_ex (\<lambda>n. case pending_activations s n of
                                     None \<Rightarrow> False
                                   | Some b \<Rightarrow> (case pending_pool s b of
                                                  None \<Rightarrow> False
                                                | Some p \<Rightarrow> pa_exec p = ae_exec service_file))
                         (hash_keys s (pending_activations s)))) (\<lambda>activated.
     catchB allocB
       (\<lambda>e. thenB (bus_pending_activation_unref a) (raiseB NoMemory))
       (\<lambda>_. thenB (pending_hash_insert service_name a) (returnB (a, activated)))))))"

definition join_pending_activation ::
  "BusActivationEntry \<Rightarrow> dbus_string \<Rightarrow> BusPendingActivationEntry \<Rightarrow> (addr \<times> bool) bus" where
  "join_pending_activation service_file service_name request =
     thenB allocB
    (bindB (getsB (\<lambda>s. pending_activations s service_name)) (\<lambda>pending.
       case pending of
         Some a \<Rightarrow>
           thenB allocB
          (thenB (update_pending a (\<lambda>p. p \<lparr> pa_entries := pa_entries p @ [request],
                                              pa_n_entries := pa_n_entries p + 1 \<rparr>))
          (thenB (modifyB (\<lambda>s. s \<lparr> n_pending_activations := n_pending_activations s + 1 \<rparr>))
                 (returnB (a, True))))
       | None \<Rightarrow> new_pending_activation service_file service_name request))"

text \<open>
  Lines 1806 to 1917: the command line, its words, the environment, the child
  process and its watches.  Only the error of the command line takes the pending
  activation off the table again.
\<close>

definition shell_failure :: "shell_error \<Rightarrow> bus_error" where
  "shell_failure e = (case e of ShellNoMemory \<Rightarrow> NoMemory | _ \<Rightarrow> BusError DBUS_ERROR_INVALID_ARGS)"

definition service_command :: "BusActivationEntry \<Rightarrow> dbus_string \<Rightarrow> dbus_string bus" where
  "service_command service_file service_name =
     thenB allocB
    (bindB (getsB (\<lambda>s. env_servicehelper (env s))) (\<lambda>helper.
       case helper of
         None \<Rightarrow> thenB allocB (returnB (ae_exec service_file))
       | Some h \<Rightarrow>
           thenB (unlessB (ae_user service_file \<noteq> None) (BusError DBUS_ERROR_SPAWN_FILE_INVALID))
          (thenB allocB (thenB allocB (thenB allocB
             (returnB (h @ BLANK # service_name)))))))"

definition start_service_process :: "BusActivationEntry \<Rightarrow> dbus_string \<Rightarrow> addr \<Rightarrow> unit bus" where
  "start_service_process service_file service_name a =
     bindB (service_command service_file service_name) (\<lambda>command.
       case dbus_shell_parse_argv command of
         Inl e \<Rightarrow> thenB (pending_hash_remove service_name) (raiseB (shell_failure e))
       | Inr argv \<Rightarrow>
           thenB add_bus_environment
          (thenB allocB
          (bindB (getsB (\<lambda>s. env_spawn (env s) argv (act_environment s))) (\<lambda>spawned.
             case spawned of
               Some e \<Rightarrow> raiseB (BusError e)
             | None \<Rightarrow>
                 thenB (update_pending a (\<lambda>p. p \<lparr> pa_babysitter := True \<rparr>)) allocB))))"

definition bus_activation_activate_service ::
  "conn \<Rightarrow> bool \<Rightarrow> DBusMessage \<Rightarrow> dbus_string \<Rightarrow> unit bus" where
  "bus_activation_activate_service c auto_activation activation_message service_name =
     bindB (getsB (\<lambda>s. n_pending_activations s \<ge> max_pending_activations (limits s))) (\<lambda>full.
     thenB (unlessB (\<not> full) (BusError DBUS_ERROR_LIMITS_EXCEEDED))
    (bindB (activation_find_entry service_name) (\<lambda>service_file.
     bindB (if auto_activation then returnB None else bus_registry_lookup service_name) (\<lambda>running.
       case running of
         Some _ \<Rightarrow>
           thenB allocB (thenB allocB
             (bus_transaction_send_from_driver c
                (dbus_message_append_args (dbus_message_new_method_return activation_message)
                   [Uint32Arg DBUS_START_REPLY_ALREADY_RUNNING])))
       | None \<Rightarrow>
           bindB (join_pending_activation service_file service_name
                    \<lparr> pe_message = activation_message, pe_connection = c, pe_auto_activation = auto_activation \<rparr>)
             (\<lambda>(a, activated).
           catchB (add_cancel_pending_to_transaction a)
             (\<lambda>e. thenB (pending_hash_remove service_name) (raiseB NoMemory))
             (\<lambda>_. if activated then returnB () else start_service_process service_file service_name a))))))"

definition bus_activation_list_services :: "dbus_string list bus" where
  "bus_activation_list_services =
     bindB (getsB (\<lambda>s. env_activatable (env s))) (\<lambda>names.
     thenB allocB (thenB (foreachB (\<lambda>_. allocB) names) (returnB names)))"

section \<open>Failure of an activation\<close>

definition send_activation_failure :: "dbus_error_name \<Rightarrow> BusPendingActivationEntry \<Rightarrow> unit bus" where
  "send_activation_failure how request =
     bindB (getsB (\<lambda>s. case conns s (pe_connection request) of None \<Rightarrow> False | Some d \<Rightarrow> cd_connected d)) (\<lambda>connected.
     whenB connected (bus_transaction_send_error_reply (pe_connection request) how (pe_message request)))"

definition try_send_activation_failure :: "addr \<Rightarrow> dbus_error_name \<Rightarrow> unit bus" where
  "try_send_activation_failure a how =
     thenB bus_transaction_new
    (bindB (get_pending a) (\<lambda>p.
     catchB (foreachB (send_activation_failure how) (pa_entries p))
       (\<lambda>e. thenB bus_transaction_cancel_and_free (raiseB e))
       (\<lambda>_. bus_transaction_execute_and_free)))"

definition pending_activation_failed :: "addr \<Rightarrow> dbus_error_name \<Rightarrow> unit bus" where
  "pending_activation_failed a how =
     thenB (retryB (try_send_activation_failure a how))
    (bindB (get_pending a) (\<lambda>p. pending_hash_remove (pa_service_name p)))"

text \<open>Exit codes of the launch helper (src/bus/activation-exit-codes.h).\<close>

definition handle_activation_exit_error :: "int \<Rightarrow> dbus_error_name" where
  "handle_activation_exit_error exit_code =
     (if exit_code = 2 then DBUS_ERROR_NO_MEMORY
      else if exit_code = 4 then DBUS_ERROR_SPAWN_SETUP_FAILED
      else if exit_code = 5 then DBUS_ERROR_SPAWN_SERVICE_INVALID
      else if exit_code = 6 then DBUS_ERROR_SPAWN_SERVICE_NOT_FOUND
      else if exit_code = 7 then DBUS_ERROR_SPAWN_PERMISSIONS_INVALID
      else if exit_code = 8 then DBUS_ERROR_SPAWN_PERMISSIONS_INVALID
      else if exit_code = 9 then DBUS_ERROR_SPAWN_EXEC_FAILED
      else if exit_code = 10 then DBUS_ERROR_INVALID_ARGS
      else if exit_code = 11 then DBUS_ERROR_SPAWN_CHILD_SIGNALED
      else DBUS_ERROR_SPAWN_CHILD_EXITED)"

text \<open>
  \<open>babysitter_watch_callback\<close> when the child has exited with the error the
  babysitter reports and possibly an exit status: all pending activations with
  the same command line fail.
\<close>

definition fail_if_same_exec :: "addr \<Rightarrow> dbus_string \<Rightarrow> dbus_error_name \<Rightarrow> dbus_string \<Rightarrow> unit bus" where
  "fail_if_same_exec a exec how name =
     bindB (getsB (\<lambda>s. pending_activations s name)) (\<lambda>found.
       case found of
         None \<Rightarrow> returnB ()
       | Some b \<Rightarrow>
           bindB (get_pending b) (\<lambda>p.
             whenB (b \<noteq> a \<and> pa_exec p = exec) (pending_activation_failed b how)))"

definition babysitter_watch_callback :: "addr \<Rightarrow> dbus_error_name \<Rightarrow> int option \<Rightarrow> unit bus" where
  "babysitter_watch_callback a child_error exit_status =
     (let how = (if child_error = DBUS_ERROR_SPAWN_CHILD_EXITED
                 then (case exit_status of None \<Rightarrow> child_error | Some code \<Rightarrow> handle_activation_exit_error code)
                 else child_error) in
      bindB (get_pending a) (\<lambda>p.
      bindB (getsB (\<lambda>s. hash_keys s (pending_activations s))) (\<lambda>names.
      thenB (foreachB (fail_if_same_exec a (pa_exec p) how) names)
            (pending_activation_failed a how))))"

definition pending_activation_timed_out :: "addr \<Rightarrow> unit bus" where
  "pending_activation_timed_out a = pending_activation_failed a DBUS_ERROR_TIMED_OUT"

section \<open>Requests that cannot be started\<close>

lemma alloc_succeeds: "oom s = [] \<Longrightarrow> allocB s = (Inr (), s)"
  by (simp add: allocB_def)

lemma add_bus_environment_succeeds:
  "oom s = [] \<Longrightarrow> \<exists>e. add_bus_environment s = (Inr (), s \<lparr> act_environment := e \<rparr>)"
  by (cases "env_bus_type (env s)")
    (auto simp: add_bus_environment_def bus_activation_set_environment_variable_def bus_op_defs alloc_succeeds
      simp del: str_Cons)

lemma list_ex_never [simp]: "\<not> list_ex (\<lambda>n. False) xs"
  by (induction xs) simp_all

definition with_request :: "BusActivationEntry \<Rightarrow> dbus_string \<Rightarrow> BusPendingActivationEntry \<Rightarrow> BusContext \<Rightarrow> BusContext" where
  "with_request f name request s =
     s \<lparr> next_addr := next_addr s + 1,
         n_pending_activations := n_pending_activations s + 1,
         pending_activations := [name \<mapsto> next_addr s],
         transaction := (transaction s) \<lparr> tr_cancel_hooks := CancelPending (next_addr s) # tr_cancel_hooks (transaction s) \<rparr>,
         pending_pool := (pending_pool s)(next_addr s \<mapsto>
           \<lparr> pa_refcount = Suc (Suc 0), pa_service_name = name, pa_exec = ae_exec f, pa_entries = [request],
             pa_n_entries = 1, pa_babysitter = False \<rparr>) \<rparr>"

lemma first_request:
  assumes "oom s = []" "n_pending_activations s < max_pending_activations (limits s)"
    "env_service_file (env s) name = Some f" "pending_activations s = Map.empty"
  shows "bus_activation_activate_service c True m name s =
    start_service_process f name (next_addr s)
      (with_request f name \<lparr> pe_message = m, pe_connection = c, pe_auto_activation = True \<rparr> s)"
  using assms
  by (simp add: bus_activation_activate_service_def join_pending_activation_def new_pending_activation_def with_request_def
      activation_find_entry_def add_cancel_pending_to_transaction_def bus_transaction_add_cancel_hook_def
      alloc_succeeds pending_hash_insert_def bus_pending_activation_ref_def update_pending_def get_pending_def bus_op_defs upt_rec)

lemma joining_request:
  assumes "oom s = []" "n_pending_activations s < max_pending_activations (limits s)"
    "env_service_file (env s) name = Some f" "pending_activations s name = Some a" "pending_pool s a = Some p"
    "0 < pa_refcount p"
  shows "\<exists>s'. bus_activation_activate_service c True m name s = (Inr (), s')"
  using assms
  by (simp add: bus_activation_activate_service_def join_pending_activation_def
      activation_find_entry_def add_cancel_pending_to_transaction_def bus_transaction_add_cancel_hook_def
      alloc_succeeds bus_pending_activation_ref_def update_pending_def get_pending_def bus_op_defs)

text \<open>
  C35: When the process of a service cannot be started, the caller gets the error,
  but the activation stays pending: the next request for the name is accepted
  and waits for a process that does not exist, until the activation times out.
\<close>

theorem failed_spawn_stays_pending:
  assumes memory: "oom s = []" and room: "n_pending_activations s + 1 < max_pending_activations (limits s)"
    and service: "env_service_file (env s) name = Some f" and no_helper: "env_servicehelper (env s) = None"
    and words: "dbus_shell_parse_argv (ae_exec f) = Inr argv"
    and fails: "\<And>e. env_spawn (env s) argv e = Some reason" and none: "pending_activations s = Map.empty"
  shows "\<exists>s'. bus_activation_activate_service c True m name s = (Inl (BusError reason), s') \<and>
    pending_activations s' name \<noteq> None \<and>
    (\<exists>s''. bus_activation_activate_service c' True m' name s' = (Inr (), s''))"
proof -
  let ?t = "with_request f name \<lparr> pe_message = m, pe_connection = c, pe_auto_activation = True \<rparr> s"
  have t: "oom ?t = []" "env ?t = env s" "limits ?t = limits s" "pending_activations ?t name = Some (next_addr s)"
    "n_pending_activations ?t = n_pending_activations s + 1" "\<exists>p. pending_pool ?t (next_addr s) = Some p \<and> 0 < pa_refcount p"
    using memory by (simp_all add: with_request_def)
  obtain e where "add_bus_environment ?t = (Inr (), ?t \<lparr> act_environment := e \<rparr>)"
    using add_bus_environment_succeeds [OF t(1)] by blast
  then have "start_service_process f name (next_addr s) ?t = (Inl (BusError reason), ?t \<lparr> act_environment := e \<rparr>)"
    using t no_helper words fails
    by (simp add: start_service_process_def service_command_def bus_op_defs alloc_succeeds)
  moreover have "\<exists>s''. bus_activation_activate_service c' True m' name (?t \<lparr> act_environment := e \<rparr>) = (Inr (), s'')"
    using t room service by (elim exE conjE) (rule joining_request, simp_all)
  ultimately show ?thesis
    using first_request [of s name f] memory room service none t(4) by simp
qed

definition demo_broken_service :: BusContext where
  "demo_broken_service = demo_bus
     \<lparr> env := (env demo_bus) \<lparr> env_service_file := (\<lambda>_. Some \<lparr> ae_exec = str ''prog'', ae_user = None \<rparr>),
                                env_spawn := (\<lambda>_ _. Some DBUS_ERROR_SPAWN_EXEC_FAILED) \<rparr> \<rparr>"

theorem failed_spawn_stays_pending_witness:
  "\<exists>s'. bus_activation_activate_service 1 True (dbus_message_new 1) (str ''a.b'') demo_broken_service =
       (Inl (BusError DBUS_ERROR_SPAWN_EXEC_FAILED), s') \<and>
     pending_activations s' (str ''a.b'') \<noteq> None \<and>
     (\<exists>s''. bus_activation_activate_service 2 True (dbus_message_new 1) (str ''a.b'') s' = (Inr (), s''))"
proof (rule failed_spawn_stays_pending)
  show "dbus_shell_parse_argv (ae_exec \<lparr> ae_exec = str ''prog'', ae_user = None \<rparr>) = Inr [str ''prog'']"
    by code_simp
qed (simp_all add: demo_broken_service_def demo_bus_def)

end
