(* ===== verification/Bus_Driver.thy ===== *)
theory Bus_Driver
  imports Bus_Activation Dbus_Types
begin

text \<open>
  The bus driver (src/bus/driver.c): the methods of \<open>org.freedesktop.DBus\<close>.  A
  handler takes the connection that called and the message, answers through the
  transaction and returns the message, to which Hello adds the sender.  The
  handlers run after the signature of the call has been compared with the table
  \<open>message_handlers\<close>, so that the arguments have the types they expect; the
  branch for other arguments is the error of \<open>dbus_message_get_args\<close>.
\<close>

section \<open>Unique names\<close>

definition unique_name :: "32 word \<Rightarrow> 32 word \<Rightarrow> dbus_string" where
  "unique_name major minor = str '':'' @ decimal (unat major) @ str ''.'' @ decimal (unat minor)"

text \<open>
  One round of the loop of \<open>create_unique_client_name\<close>: the next pair of numbers
  (as C ints, so that the comparisons are signed) and its name.  Running out of
  major numbers ends the program.
\<close>

definition next_client_numbers :: "(32 word \<times> 32 word) bus" where
  "next_client_numbers =
     bindB (getsB (\<lambda>s. sint (next_minor_number s) \<le> 0)) (\<lambda>carry.
     thenB (whenB carry (modifyB (\<lambda>s. s \<lparr> next_major_number := next_major_number s + 1, next_minor_number := 0 \<rparr>)))
    (bindB (getsB (\<lambda>s. (next_major_number s, next_minor_number s))) (\<lambda>(major, minor).
     thenB (assertB (sint major > 0 \<and> sint minor \<ge> 0))
           (returnB (major, minor)))))"

fun create_unique_client_name :: "nat \<Rightarrow> dbus_string bus" where
  "create_unique_client_name 0 = raiseB Abort"
| "create_unique_client_name (Suc fuel) =
     bindB next_client_numbers (\<lambda>(major, minor).
     thenB (foreachB (\<lambda>_. allocB) [1 :: nat ..< 5])
    (thenB (modifyB (\<lambda>s. s \<lparr> next_minor_number := next_minor_number s + 1 \<rparr>))
    (bindB (bus_registry_lookup (unique_name major minor)) (\<lambda>found.
       if found = None then returnB (unique_name major minor) else create_unique_client_name fuel))))"

text \<open>
  Every registered name has an address of its own below \<open>next_addr\<close>: with one round
  more than there are addresses a free name is found.
\<close>

definition name_rounds :: "BusContext \<Rightarrow> nat" where
  "name_rounds s = Suc (next_addr s)"

section \<open>Replies\<close>

definition reply_with :: "conn \<Rightarrow> DBusMessage \<Rightarrow> msg_arg list \<Rightarrow> unit bus" where
  "reply_with c m args =
     thenB allocB (thenB (whenB (args \<noteq> []) allocB)
       (bus_transaction_send_from_driver c (dbus_message_append_args (dbus_message_new_method_return m) args)))"

definition bus_driver_send_welcome_message :: "conn \<Rightarrow> DBusMessage \<Rightarrow> unit bus" where
  "bus_driver_send_welcome_message c hello_message =
     bindB (bus_connection_get_name c) (\<lambda>name.
       case name of
         None \<Rightarrow> raiseB Abort
       | Some n \<Rightarrow> reply_with c hello_message [StringArg n])"

definition send_ack_reply :: "conn \<Rightarrow> DBusMessage \<Rightarrow> unit bus" where
  "send_ack_reply c m = reply_with c m []"

section \<open>Hello\<close>

definition bus_driver_handle_hello :: "conn \<Rightarrow> DBusMessage \<Rightarrow> DBusMessage bus" where
  "bus_driver_handle_hello c m =
     bindB (getsB (\<lambda>s. bus_connection_is_active s c)) (\<lambda>active.
     thenB (unlessB (\<not> active) (BusError DBUS_ERROR_FAILED))
    (thenB (bus_connections_check_limits c)
    (thenB allocB
    (bindB (getsB name_rounds) (\<lambda>rounds.
     bindB (create_unique_client_name rounds) (\<lambda>name.
     thenB (bus_connection_complete c name)
    (thenB allocB
    (let m' = m \<lparr> msg_sender := Some name \<rparr> in
     thenB (bus_driver_send_welcome_message c m')
    (bindB (bus_registry_ensure name c 0) (\<lambda>_.
     bindB (getsB (\<lambda>s. bus_connection_is_active s c)) (\<lambda>active.
     thenB (assertB active) (returnB m'))))))))))))"

section \<open>Names\<close>

text \<open>An array of names with the driver in front: ListNames and ListActivatableNames.\<close>

definition reply_with_names :: "conn \<Rightarrow> DBusMessage \<Rightarrow> dbus_string list bus \<Rightarrow> unit bus" where
  "reply_with_names c m list_names =
     thenB allocB
    (bindB list_names (\<lambda>names.
     thenB allocB
    (thenB (foreachB (\<lambda>_. allocB) (DBUS_SERVICE_DBUS # names))
    (thenB allocB
       (bus_transaction_send_from_driver c
          (dbus_message_append_args (dbus_message_new_method_return m)
             [StringArrayArg (DBUS_SERVICE_DBUS # names)]))))))"

definition bus_registry_list_services :: "dbus_string list bus" where
  "bus_registry_list_services =
     bindB (getsB (\<lambda>s. hash_keys s (service_hash s))) (\<lambda>names.
     thenB allocB (thenB (foreachB (\<lambda>_. allocB) names) (returnB names)))"

definition bus_driver_handle_list_services :: "conn \<Rightarrow> DBusMessage \<Rightarrow> unit bus" where
  "bus_driver_handle_list_services c m = reply_with_names c m bus_registry_list_services"

definition bus_driver_handle_list_activatable_services :: "conn \<Rightarrow> DBusMessage \<Rightarrow> unit bus" where
  "bus_driver_handle_list_activatable_services c m = reply_with_names c m bus_activation_list_services"

definition bus_driver_handle_acquire_service :: "conn \<Rightarrow> DBusMessage \<Rightarrow> unit bus" where
  "bus_driver_handle_acquire_service c m =
     (case msg_args m of
        [StringArg name, Uint32Arg flags] \<Rightarrow>
          bindB (bus_registry_acquire_service c name flags) (\<lambda>service_reply.
          reply_with c m [Uint32Arg service_reply])
      | _ \<Rightarrow> raiseB (BusError DBUS_ERROR_INVALID_ARGS))"

definition bus_driver_handle_release_service :: "conn \<Rightarrow> DBusMessage \<Rightarrow> unit bus" where
  "bus_driver_handle_release_service c m =
     (case msg_args m of
        [StringArg name] \<Rightarrow>
          bindB (bus_registry_release_service c name) (\<lambda>service_reply.
          reply_with c m [Uint32Arg service_reply])
      | _ \<Rightarrow> raiseB (BusError DBUS_ERROR_INVALID_ARGS))"

definition service_exists :: "BusContext \<Rightarrow> dbus_string \<Rightarrow> bool" where
  "service_exists s name \<longleftrightarrow>
     name = DBUS_SERVICE_DBUS \<or>
     (service_hash s name \<noteq> None \<and>
      \<not> (dbus_find_unique_pid s name \<noteq> 0 \<and> \<not> env_process_exists (env s) (dbus_find_unique_pid s name)))"

definition bus_driver_handle_service_exists :: "conn \<Rightarrow> DBusMessage \<Rightarrow> unit bus" where
  "bus_driver_handle_service_exists c m =
     (case msg_args m of
        [StringArg name] \<Rightarrow>
          bindB (getsB (\<lambda>s. service_exists s name)) (\<lambda>exists.
          reply_with c m [BooleanArg exists])
      | _ \<Rightarrow> raiseB (BusError DBUS_ERROR_INVALID_ARGS))"

definition bus_driver_handle_get_service_owner :: "conn \<Rightarrow> DBusMessage \<Rightarrow> unit bus" where
  "bus_driver_handle_get_service_owner c m =
     (case msg_args m of
        [StringArg text] \<Rightarrow>
          bindB (bus_registry_lookup text) (\<lambda>found.
          bindB (case found of
                   None \<Rightarrow> if text = DBUS_SERVICE_DBUS then returnB DBUS_SERVICE_DBUS
                           else raiseB (BusError DBUS_ERROR_NAME_HAS_NO_OWNER)
                 | Some service \<Rightarrow>
                     bindB (bus_service_get_primary_owners_connection service) (\<lambda>owner.
                       case owner of
                         None \<Rightarrow> raiseB Abort
                       | Some oc \<Rightarrow>
                           bindB (bus_connection_get_name oc) (\<lambda>name.
                             case name of
                               None \<Rightarrow> raiseB (BusError DBUS_ERROR_FAILED)
                             | Some n \<Rightarrow> thenB (assertB (first_byte n = COLON_CHAR)) (returnB n)))) (\<lambda>base_name.
          reply_with c m [StringArg base_name]))
      | _ \<Rightarrow> raiseB (BusError DBUS_ERROR_INVALID_ARGS))"

fun all_present :: "'a option list \<Rightarrow> 'a list option" where
  "all_present [] = Some []"
| "all_present (x # xs) =
     (case (x, all_present xs) of (Some y, Some ys) \<Rightarrow> Some (y # ys) | _ \<Rightarrow> None)"

definition bus_driver_handle_list_queued_owners :: "conn \<Rightarrow> DBusMessage \<Rightarrow> unit bus" where
  "bus_driver_handle_list_queued_owners c m =
     (case msg_args m of
        [StringArg text] \<Rightarrow>
          bindB (bus_registry_lookup text) (\<lambda>found.
          bindB (case found of
                   None \<Rightarrow> if text = DBUS_SERVICE_DBUS then thenB allocB (returnB [Some DBUS_SERVICE_DBUS])
                           else raiseB (BusError DBUS_ERROR_NAME_HAS_NO_OWNER)
                 | Some service \<Rightarrow> bus_service_list_queued_owners service) (\<lambda>base_names.
          thenB allocB (thenB allocB
            (case all_present base_names of
               None \<Rightarrow> raiseB Abort
             | Some names \<Rightarrow>
                 thenB (foreachB (\<lambda>_. allocB) names)
                (thenB allocB
                   (bus_transaction_send_from_driver c
                      (dbus_message_append_args (dbus_message_new_method_return m) [StringArrayArg names])))))))
      | _ \<Rightarrow> raiseB (BusError DBUS_ERROR_INVALID_ARGS))"

section \<open>Activation\<close>

definition bus_driver_handle_activate_service :: "conn \<Rightarrow> DBusMessage \<Rightarrow> unit bus" where
  "bus_driver_handle_activate_service c m =
     (case msg_args m of
        [StringArg name, Uint32Arg flags] \<Rightarrow> bus_activation_activate_service c False m name
      | _ \<Rightarrow> raiseB (BusError DBUS_ERROR_INVALID_ARGS))"

text \<open>
  All keys and values are collected first, two list links for each; then the
  variables are set one by one, and a failure keeps those that were set.
\<close>

definition bus_driver_handle_update_activation_environment :: "conn \<Rightarrow> DBusMessage \<Rightarrow> unit bus" where
  "bus_driver_handle_update_activation_environment c m =
     (case msg_args m of
        [StringDictArg entries] \<Rightarrow>
          thenB (foreachB (\<lambda>_. thenB allocB allocB) entries)
         (thenB (foreachB (\<lambda>(key, val). bus_activation_set_environment_variable key val) entries)
                (send_ack_reply c m))
      | _ \<Rightarrow> raiseB Abort)"

section \<open>Match rules\<close>

definition parse_failure :: "match_error \<Rightarrow> bus_error" where
  "parse_failure e =
     BusError (case e of MATCH_RULE_INVALID \<Rightarrow> DBUS_ERROR_MATCH_RULE_INVALID
                       | MATCH_LIMITS_EXCEEDED \<Rightarrow> DBUS_ERROR_LIMITS_EXCEEDED)"

definition bus_driver_handle_add_match :: "conn \<Rightarrow> DBusMessage \<Rightarrow> unit bus" where
  "bus_driver_handle_add_match c m =
     bindB (get_conn c) (\<lambda>d.
     bindB (getsB (\<lambda>s. cd_n_match_rules d \<ge> max_match_rules_per_connection (limits s))) (\<lambda>many.
     thenB (unlessB (\<not> many) (BusError DBUS_ERROR_LIMITS_EXCEEDED))
       (case msg_args m of
          [StringArg text] \<Rightarrow>
            thenB allocB
              (case bus_match_rule_parse c text of
                 Inl e \<Rightarrow> raiseB (parse_failure e)
               | Inr rule \<Rightarrow>
                   thenB (bus_matchmaker_add_rule rule)
                  (catchB (send_ack_reply c m)
                     (\<lambda>e. thenB (bus_matchmaker_remove_rule rule) (raiseB e))
                     returnB))
        | _ \<Rightarrow> raiseB (BusError DBUS_ERROR_INVALID_ARGS))))"

definition bus_driver_handle_remove_match :: "conn \<Rightarrow> DBusMessage \<Rightarrow> unit bus" where
  "bus_driver_handle_remove_match c m =
     (case msg_args m of
        [StringArg text] \<Rightarrow>
          thenB allocB
            (case bus_match_rule_parse c text of
               Inl e \<Rightarrow> raiseB (parse_failure e)
             | Inr rule \<Rightarrow>
                 thenB (send_ack_reply c m) (bus_matchmaker_remove_rule_by_value rule))
      | _ \<Rightarrow> raiseB (BusError DBUS_ERROR_INVALID_ARGS))"

section \<open>Credentials of a connection\<close>

text \<open>
  The four methods that look up the primary owner of a name and report what is
  known of it.  The reply is allocated before the credentials are asked for.
\<close>

definition primary_connection_of :: "dbus_string \<Rightarrow> conn bus" where
  "primary_connection_of name =
     bindB (bus_registry_lookup name) (\<lambda>found.
       case found of
         None \<Rightarrow> raiseB (BusError DBUS_ERROR_NAME_HAS_NO_OWNER)
       | Some service \<Rightarrow>
           bindB (bus_service_get_primary_owners_connection service) (\<lambda>owner.
             case owner of None \<Rightarrow> raiseB Abort | Some c \<Rightarrow> returnB c))"

definition reply_credential ::
  "conn \<Rightarrow> DBusMessage \<Rightarrow> dbus_error_name \<Rightarrow> (BusContext \<Rightarrow> conn \<Rightarrow> msg_arg option) \<Rightarrow> unit bus" where
  "reply_credential c m missing credential =
     (case msg_args m of
        [StringArg service] \<Rightarrow>
          bindB (primary_connection_of service) (\<lambda>oc.
          thenB allocB
         (bindB (getsB (\<lambda>s. credential s oc)) (\<lambda>found.
            case found of
              None \<Rightarrow> raiseB (BusError missing)
            | Some arg \<Rightarrow>
                thenB allocB
                  (bus_transaction_send_from_driver c
                     (dbus_message_append_args (dbus_message_new_method_return m) [arg])))))
      | _ \<Rightarrow> raiseB (BusError DBUS_ERROR_INVALID_ARGS))"

definition unix_user_of :: "BusContext \<Rightarrow> conn \<Rightarrow> msg_arg option" where
  "unix_user_of s c =
     (case conns s c of
        None \<Rightarrow> None
      | Some d \<Rightarrow> map_option (\<lambda>uid. Uint32Arg (of_nat uid)) (cd_unix_user d))"

definition bus_driver_handle_get_connection_unix_user :: "conn \<Rightarrow> DBusMessage \<Rightarrow> unit bus" where
  "bus_driver_handle_get_connection_unix_user c m = reply_credential c m DBUS_ERROR_FAILED unix_user_of"

definition bus_driver_handle_get_connection_unix_process_id :: "conn \<Rightarrow> DBusMessage \<Rightarrow> unit bus" where
  "bus_driver_handle_get_connection_unix_process_id c m =
     reply_credential c m DBUS_ERROR_UNIX_PROCESS_ID_UNKNOWN
       (\<lambda>s oc. map_option Uint32Arg (env_unix_process_id (env s) oc))"

definition bus_driver_handle_get_adt_audit_session_data :: "conn \<Rightarrow> DBusMessage \<Rightarrow> unit bus" where
  "bus_driver_handle_get_adt_audit_session_data c m =
     reply_credential c m DBUS_ERROR_ADT_AUDIT_DATA_UNKNOWN
       (\<lambda>s oc. map_option ByteArrayArg (env_adt_audit_data (env s) oc))"

definition bus_driver_handle_get_connection_selinux_security_context :: "conn \<Rightarrow> DBusMessage \<Rightarrow> unit bus" where
  "bus_driver_handle_get_connection_selinux_security_context c m =
     reply_credential c m DBUS_ERROR_SELINUX_SECURITY_CONTEXT_UNKNOWN
       (\<lambda>s oc. map_option ByteArrayArg (env_selinux_id (env s) oc))"

section \<open>The bus itself\<close>

text \<open>
  \<open>bus_context_reload_config\<close> (src/bus/bus.c) replaces limits and policy and
  starts with a fresh \<open>BusActivation\<close>: the pending activations of the old one are
  freed with it.  Reading the files is a parameter.
\<close>

definition bus_context_reload_config :: "unit bus" where
  "bus_context_reload_config =
     bindB (getsB (\<lambda>s. env_reload_config (env s))) (\<lambda>config.
       case config of
         Inl e \<Rightarrow> raiseB (BusError e)
       | Inr (new_limits, new_policy) \<Rightarrow>
           thenB allocB
          (thenB (modifyB (\<lambda>s. s \<lparr> limits := new_limits, bus_policy := new_policy \<rparr>))
          (thenB allocB
             (modifyB (\<lambda>s. s \<lparr> pending_activations := Map.empty, pending_pool := Map.empty,
                               n_pending_activations := 0, act_environment := env_environment (env s) \<rparr>)))))"

definition bus_driver_handle_reload_config :: "conn \<Rightarrow> DBusMessage \<Rightarrow> unit bus" where
  "bus_driver_handle_reload_config c m = thenB bus_context_reload_config (reply_with c m [])"

definition bus_driver_handle_get_id :: "conn \<Rightarrow> DBusMessage \<Rightarrow> unit bus" where
  "bus_driver_handle_get_id c m =
     thenB allocB
    (bindB (getsB (\<lambda>s. env_bus_id (env s))) (\<lambda>uuid.
     thenB allocB (reply_with c m [StringArg uuid])))"

section \<open>Dispatch to the handlers\<close>

record message_handler =
  mh_name :: dbus_string
  mh_in_args :: dbus_string
  mh_out_args :: dbus_string
  mh_handler :: "conn \<Rightarrow> DBusMessage \<Rightarrow> DBusMessage bus"

text \<open>Only Hello changes the message.\<close>

definition keep_message :: "(conn \<Rightarrow> DBusMessage \<Rightarrow> unit bus) \<Rightarrow> conn \<Rightarrow> DBusMessage \<Rightarrow> DBusMessage bus" where
  "keep_message h c m = thenB (h c m) (returnB m)"

definition handler ::
  "string \<Rightarrow> string \<Rightarrow> string \<Rightarrow> (conn \<Rightarrow> DBusMessage \<Rightarrow> DBusMessage bus) \<Rightarrow> message_handler" where
  "handler name in_args out_args h =
     \<lparr> mh_name = str name, mh_in_args = str in_args, mh_out_args = str out_args, mh_handler = h \<rparr>"

definition message_handlers :: "message_handler list" where
  "message_handlers =
    [handler ''Hello'' [] ''s'' bus_driver_handle_hello,
     handler ''RequestName'' ''su'' ''u'' (keep_message bus_driver_handle_acquire_service),
     handler ''ReleaseName'' ''s'' ''u'' (keep_message bus_driver_handle_release_service),
     handler ''StartServiceByName'' ''su'' ''u'' (keep_message bus_driver_handle_activate_service),
     handler ''UpdateActivationEnvironment'' ''a{ss}'' []
       (keep_message bus_driver_handle_update_activation_environment),
     handler ''NameHasOwner'' ''s'' ''b'' (keep_message bus_driver_handle_service_exists),
     handler ''ListNames'' [] ''as'' (keep_message bus_driver_handle_list_services),
     handler ''ListActivatableNames'' [] ''as'' (keep_message bus_driver_handle_list_activatable_services),
     handler ''AddMatch'' ''s'' [] (keep_message bus_driver_handle_add_match),
     handler ''RemoveMatch'' ''s'' [] (keep_message bus_driver_handle_remove_match),
     handler ''GetNameOwner'' ''s'' ''s'' (keep_message bus_driver_handle_get_service_owner),
     handler ''ListQueuedOwners'' ''s'' ''as'' (keep_message bus_driver_handle_list_queued_owners),
     handler ''GetConnectionUnixUser'' ''s'' ''u'' (keep_message bus_driver_handle_get_connection_unix_user),
     handler ''GetConnectionUnixProcessID'' ''s'' ''u''
       (keep_message bus_driver_handle_get_connection_unix_process_id),
     handler ''GetAdtAuditSessionData'' ''s'' ''ay'' (keep_message bus_driver_handle_get_adt_audit_session_data),
     handler ''GetConnectionSELinuxSecurityContext'' ''s'' ''ay''
       (keep_message bus_driver_handle_get_connection_selinux_security_context),
     handler ''ReloadConfig'' [] [] (keep_message bus_driver_handle_reload_config),
     handler ''GetId'' [] ''s'' (keep_message bus_driver_handle_get_id)]"

subsection \<open>Introspection\<close>

text \<open>The single complete types of a signature, as the type reader walks over them.\<close>

fun signature_types :: "nat \<Rightarrow> dbus_string \<Rightarrow> dbus_string list" where
  "signature_types 0 sig = []"
| "signature_types (Suc n) sig =
     (if sig = [] then []
      else case signature_next_len sig of
             None \<Rightarrow> []
           | Some len \<Rightarrow> take len sig # signature_types n (drop len sig))"

definition write_args_for_direction :: "dbus_string \<Rightarrow> bool \<Rightarrow> dbus_string" where
  "write_args_for_direction signature is_in =
     concat (map (\<lambda>ty. str ''      <arg direction=\"'' @ str (if is_in then ''in'' else ''out'') @
                       str ''\" type=\"'' @ ty @ str ''\"/>'' @ [NEWLINE])
               (signature_types (length signature) signature))"

definition line :: "string \<Rightarrow> dbus_string" where
  "line s = str s @ [NEWLINE]"

definition introspect_method :: "message_handler \<Rightarrow> dbus_string" where
  "introspect_method h =
     str ''    <method name=\"'' @ mh_name h @ line ''\">'' @
     write_args_for_direction (mh_in_args h) True @
     write_args_for_direction (mh_out_args h) False @
     line ''    </method>''"

definition DBUS_INTROSPECT_1_0_XML_DOCTYPE_DECL_NODE :: dbus_string where
  "DBUS_INTROSPECT_1_0_XML_DOCTYPE_DECL_NODE =
     line ''<!DOCTYPE node PUBLIC \"-//freedesktop//DTD D-BUS Object Introspection 1.0//EN\"'' @
     line ''\"http://www.freedesktop.org/standards/dbus/1.0/introspect.dtd\">''"

definition introspect_signal :: "string \<Rightarrow> nat \<Rightarrow> dbus_string" where
  "introspect_signal name n_args =
     str ''    <signal name=\"'' @ str name @ line ''\">'' @
     concat (replicate n_args (line ''      <arg type=\"s\"/>'')) @
     line ''    </signal>''"

definition bus_driver_generate_introspect_string :: dbus_string where
  "bus_driver_generate_introspect_string =
     DBUS_INTROSPECT_1_0_XML_DOCTYPE_DECL_NODE @ line ''<node>'' @
     str ''  <interface name=\"'' @ DBUS_INTERFACE_INTROSPECTABLE @ line ''\">'' @
     line ''    <method name=\"Introspect\">'' @
     line ''      <arg name=\"data\" direction=\"out\" type=\"s\"/>'' @
     line ''    </method>'' @ line ''  </interface>'' @
     str ''  <interface name=\"'' @ DBUS_INTERFACE_DBUS @ line ''\">'' @
     concat (map introspect_method message_handlers) @
     introspect_signal ''NameOwnerChanged'' 3 @ introspect_signal ''NameLost'' 1 @
     introspect_signal ''NameAcquired'' 1 @
     line ''  </interface>'' @ line ''</node>''"

definition bus_driver_handle_introspect :: "conn \<Rightarrow> DBusMessage \<Rightarrow> unit bus" where
  "bus_driver_handle_introspect c m =
     thenB allocB (thenB allocB (reply_with c m [StringArg bus_driver_generate_introspect_string]))"

subsection \<open>Messages to the driver\<close>

definition bus_driver_handle_message :: "conn \<Rightarrow> DBusMessage \<Rightarrow> DBusMessage bus" where
  "bus_driver_handle_message c m =
     (if msg_type m \<noteq> DBUS_MESSAGE_TYPE_METHOD_CALL then returnB m
      else if dbus_message_is_method_call m DBUS_INTERFACE_INTROSPECTABLE (str ''Introspect'')
      then keep_message bus_driver_handle_introspect c m
      else
        (case msg_member m of
           None \<Rightarrow> raiseB Abort
         | Some name \<Rightarrow>
             if (case msg_interface m of None \<Rightarrow> False | Some i \<Rightarrow> i \<noteq> DBUS_INTERFACE_DBUS)
             then raiseB (BusError DBUS_ERROR_UNKNOWN_METHOD)
             else
               thenB (assertB (msg_sender m \<noteq> None \<or> name = str ''Hello''))
                 (case find (\<lambda>h. mh_name h = name) message_handlers of
                    None \<Rightarrow> raiseB (BusError DBUS_ERROR_UNKNOWN_METHOD)
                  | Some h \<Rightarrow>
                      if \<not> dbus_message_has_signature m (mh_in_args h)
                      then raiseB (BusError DBUS_ERROR_INVALID_ARGS)
                      else mh_handler h c m)))"

end
