(* ===== verification/Bus_Clients.thy ===== *)
theory Bus_Clients
  imports Bus_Driver
begin

text \<open>
  The life of a connection and the path of a message through the daemon: a new
  connection is set up, its messages are dispatched, and it is taken down again
  (src/bus/connection.c, src/bus/dispatch.c); replies that do not arrive in time
  are answered by the daemon (src/bus/expirelist.c).  Watches, timeouts and the
  data slots of libdbus are not part of the state.
\<close>

section \<open>Setting up a connection\<close>

text \<open>
  \<open>bus_connections_setup_connection\<close>: allocations for the data, the slot, the
  watch and timeout functions, the link and the filter; a failing one leaves no
  trace.  The user is the one the connection has authenticated as.
\<close>

definition bus_connections_setup_connection :: "conn \<Rightarrow> uid option \<Rightarrow> unit bus" where
  "bus_connections_setup_connection c user =
     thenB (foreachB (\<lambda>_. allocB) [1 :: nat ..< 7])
    (thenB (modifyB (\<lambda>s. s \<lparr> conns := (conns s)(c \<mapsto>
                               \<lparr> cd_name = None, cd_services_owned = [], cd_n_services_owned = 0,
                                 cd_match_rules = [], cd_n_match_rules = 0, cd_transaction_messages = [],
                                 cd_policy = None, cd_stamp = 0, cd_unix_user = user, cd_connected = True,
                                 cd_outgoing = [], cd_connect_time = now s, cd_oom_message = None \<rparr>),
                             incomplete := incomplete s @ [c],
                             n_incomplete := n_incomplete s + 1 \<rparr>))
    (thenB bus_connections_expire_incomplete
    (bindB (getsB (\<lambda>s. (n_incomplete s > max_incomplete_connections (limits s), incomplete s))) (\<lambda>(many, waiting).
       if many then (case waiting of [] \<Rightarrow> raiseB Abort | oldest # _ \<Rightarrow> dbus_connection_close oldest)
       else returnB ()))))"

section \<open>Taking down a connection\<close>

text \<open>
  Each owned name is given up in a transaction of its own, the last one first,
  retried until memory is available.  The list has one entry less after every
  round; running out of rounds stands for the loop that does not end.
\<close>

definition drop_owned_service :: "conn \<Rightarrow> addr \<Rightarrow> unit bus" where
  "drop_owned_service c service =
     thenB bus_transaction_new
    (catchB (bus_service_remove_owner service c)
       (\<lambda>e. case e of
              NoMemory \<Rightarrow> thenB bus_transaction_cancel_and_free (raiseB NoMemory)
            | _ \<Rightarrow> raiseB Abort)
       (\<lambda>_. bus_transaction_execute_and_free))"

fun drop_owned_services :: "nat \<Rightarrow> conn \<Rightarrow> unit bus" where
  "drop_owned_services 0 c =
     bindB (get_conn c) (\<lambda>d. assertB (cd_services_owned d = []))"
| "drop_owned_services (Suc n) c =
     bindB (get_conn c) (\<lambda>d.
       if cd_services_owned d = [] then returnB ()
       else thenB (retryB (drop_owned_service c (last (cd_services_owned d)))) (drop_owned_services n c))"

definition bus_connection_remove_transactions :: "conn \<Rightarrow> unit bus" where
  "bus_connection_remove_transactions c =
     bindB (get_conn c) (\<lambda>d.
     thenB (whenB (cd_transaction_messages d \<noteq> [])
              (modifyB (\<lambda>s. s \<lparr> transaction := (transaction s)
                                 \<lparr> tr_connections := remove1 c (tr_connections (transaction s)) \<rparr> \<rparr>)))
           (update_conn c (\<lambda>d. d \<lparr> cd_transaction_messages := [] \<rparr>)))"

definition leave_connection_list :: "conn \<Rightarrow> unit bus" where
  "leave_connection_list c =
     bindB (get_conn c) (\<lambda>d.
     thenB (if cd_name d \<noteq> None
            then thenB (modifyB (\<lambda>s. s \<lparr> completed := remove1 c (completed s), n_completed := n_completed s - 1 \<rparr>))
                   (case cd_unix_user d of None \<Rightarrow> returnB () | Some u \<Rightarrow> adjust_connections_for_uid u (- 1))
            else modifyB (\<lambda>s. s \<lparr> incomplete := remove1 c (incomplete s), n_incomplete := n_incomplete s - 1 \<rparr>))
    (bindB (getsB (\<lambda>s. n_incomplete s \<ge> 0 \<and> n_completed s \<ge> 0)) assertB))"

definition free_connection_data :: "conn \<Rightarrow> unit bus" where
  "free_connection_data c =
     bindB (get_conn c) (\<lambda>d.
     thenB (assertB (cd_services_owned d = [] \<and> cd_n_services_owned d = 0 \<and> cd_transaction_messages d = []))
           (modifyB (\<lambda>s. s \<lparr> conns := (conns s)(c := None) \<rparr>)))"

definition bus_connection_disconnected :: "conn \<Rightarrow> unit bus" where
  "bus_connection_disconnected c =
     bindB (get_conn c) (\<lambda>d.
     thenB (whenB (cd_n_match_rules d > 0) (bus_matchmaker_disconnected c))
    (thenB (drop_owned_services (length (cd_services_owned d)) c)
    (thenB (bus_connection_remove_transactions c)
    (thenB (leave_connection_list c)
    (thenB (bus_connection_drop_pending_replies c)
           (free_connection_data c))))))"

section \<open>Replies that do not arrive\<close>

definition bus_pending_reply_send_no_reply :: "BusPendingReply \<Rightarrow> unit bus" where
  "bus_pending_reply_send_no_reply p =
     thenB (foreachB (\<lambda>_. allocB) [1 :: nat ..< 5])
       (bus_transaction_send_from_driver (will_get_reply p)
          ((dbus_message_new DBUS_MESSAGE_TYPE_ERROR)
             \<lparr> msg_no_reply := True, msg_reply_serial := pr_reply_serial p,
               msg_error_name := Some (error_name_string DBUS_ERROR_NO_REPLY),
               msg_args := [StringArg (str ''Message did not receive a reply (timeout by message bus)'')] \<rparr>))"

definition bus_pending_reply_expired :: "BusPendingReply \<Rightarrow> unit bus" where
  "bus_pending_reply_expired p =
     thenB bus_transaction_new
    (catchB (bus_pending_reply_send_no_reply p)
       (\<lambda>e. thenB bus_transaction_cancel_and_free (raiseB e))
       (\<lambda>_. thenB (modifyB (\<lambda>s. s \<lparr> pending_replies := remove1 p (pending_replies s) \<rparr>))
                  bus_transaction_execute_and_free))"

text \<open>
  \<open>do_expiration_with_current_time\<close>: walk over the list as it was, stop at the
  first item that cannot be expired.  Times are in microseconds, the timeout in
  milliseconds.  The result says whether to try again shortly, and otherwise how
  long (in microseconds) until the next item expires.
\<close>

datatype next_check = Disabled | OomWait | CheckAfter int

fun do_expiration_with_current_time :: "BusPendingReply list \<Rightarrow> int option \<Rightarrow> next_check bus" where
  "do_expiration_with_current_time [] min_wait =
     returnB (case min_wait of None \<Rightarrow> Disabled | Some w \<Rightarrow> CheckAfter w)"
| "do_expiration_with_current_time (p # ps) min_wait =
     bindB (getsB (\<lambda>s. reply_timeout (limits s) * 1000 - (now s - pr_added p))) (\<lambda>to_wait.
       if to_wait \<le> 0
       then catchB (bus_pending_reply_expired p) (\<lambda>e. returnB OomWait)
              (\<lambda>_. do_expiration_with_current_time ps min_wait)
       else do_expiration_with_current_time ps
              (Some (case min_wait of None \<Rightarrow> min (3600 * 1000 * 1000) to_wait | Some w \<Rightarrow> min w to_wait)))"

definition bus_expirelist_expire :: "next_check bus" where
  "bus_expirelist_expire = bindB (getsB pending_replies) (\<lambda>ps. do_expiration_with_current_time ps None)"

section \<open>Dispatching a message\<close>

text \<open>The error message for lack of memory is allocated in advance, with the name the connection then has.\<close>

definition bus_connection_preallocate_oom_error :: "conn \<Rightarrow> unit bus" where
  "bus_connection_preallocate_oom_error c =
     bindB (get_conn c) (\<lambda>d.
     whenB (cd_oom_message d = None)
       (thenB (foreachB (\<lambda>_. allocB) [1 :: nat ..< 7])
          (update_conn c (\<lambda>d. d \<lparr> cd_oom_message := Some ((dbus_message_new DBUS_MESSAGE_TYPE_ERROR)
             \<lparr> msg_error_name := Some (error_name_string DBUS_ERROR_NO_MEMORY), msg_destination := cd_name d,
               msg_sender := Some DBUS_SERVICE_DBUS, msg_reply_serial := 14 \<rparr>) \<rparr>))))"

definition bus_connection_send_oom_error :: "conn \<Rightarrow> DBusMessage \<Rightarrow> unit bus" where
  "bus_connection_send_oom_error c in_reply_to =
     bindB (get_conn c) (\<lambda>d.
       case cd_oom_message d of
         None \<Rightarrow> raiseB Abort
       | Some m \<Rightarrow>
           thenB (dbus_connection_send_preallocated c (m \<lparr> msg_reply_serial := msg_serial in_reply_to \<rparr>))
                 (update_conn c (\<lambda>d. d \<lparr> cd_oom_message := None \<rparr>)))"

datatype DBusHandlerResult = DBUS_HANDLER_RESULT_HANDLED | DBUS_HANDLER_RESULT_NOT_YET_HANDLED

text \<open>
  The body of \<open>bus_dispatch\<close> inside the transaction (lines 208 to 312), without
  the handling of its errors.  \<open>True\<close> as the result asks for the match rules to
  be tried; the message then carries its sender.
\<close>

definition dispatch_to_service :: "conn \<Rightarrow> DBusMessage \<Rightarrow> dbus_string \<Rightarrow> unit bus" where
  "dispatch_to_service c m service_name =
     bindB (bus_registry_lookup service_name) (\<lambda>found.
       case found of
         None \<Rightarrow>
           if dbus_message_get_auto_start m
           then bus_activation_activate_service c True m service_name
           else raiseB (BusError DBUS_ERROR_NAME_HAS_NO_OWNER)
       | Some service \<Rightarrow>
           bindB (bus_service_get_primary_owners_connection service) (\<lambda>owner.
             case owner of
               None \<Rightarrow> raiseB Abort
             | Some addressed \<Rightarrow>
                 thenB (bus_context_check_security_policy (Some c) (Some addressed) (Some addressed) m)
                (thenB (bus_transaction_send addressed m)
                       (bus_dispatch_matches (Some c) (Some addressed) m))))"

definition dispatch_in_transaction :: "conn \<Rightarrow> DBusMessage \<Rightarrow> unit bus" where
  "dispatch_in_transaction c message =
     bindB (getsB (\<lambda>s. bus_connection_is_active s c)) (\<lambda>active.
     bindB (if active
            then bindB (bus_connection_get_name c) (\<lambda>sender.
                 thenB allocB (returnB (message \<lparr> msg_sender := sender \<rparr>)))
            else returnB message) (\<lambda>m.
       if msg_destination m = Some DBUS_SERVICE_DBUS
       then thenB (bus_context_check_security_policy (Some c) None None m)
           (bindB (bus_driver_handle_message c m) (\<lambda>m'.
            bus_dispatch_matches (Some c) None m'))
       else if \<not> active then dbus_connection_close c
       else case msg_destination m of
              None \<Rightarrow> bus_dispatch_matches (Some c) None m
            | Some service_name \<Rightarrow> dispatch_to_service c m service_name))"

text \<open>The errors (lines 314 to 362): whether the transaction is to be executed.\<close>

definition cancel_with_oom_error :: "conn \<Rightarrow> DBusMessage \<Rightarrow> unit bus" where
  "cancel_with_oom_error c m =
     thenB (bus_connection_send_oom_error c m) bus_transaction_cancel_and_free"

definition finish_dispatch :: "conn \<Rightarrow> DBusMessage \<Rightarrow> bus_error \<Rightarrow> unit bus" where
  "finish_dispatch c m e =
     bindB (get_conn c) (\<lambda>d.
       if \<not> cd_connected d then bus_transaction_execute_and_free
       else
         case e of
           NoMemory \<Rightarrow> cancel_with_oom_error c m
         | BusError name \<Rightarrow>
             catchB (bus_transaction_send_error_reply c name m)
               (\<lambda>_. cancel_with_oom_error c m)
               (\<lambda>_. bus_transaction_execute_and_free)
         | Abort \<Rightarrow> raiseB Abort)"

definition bus_dispatch :: "conn \<Rightarrow> DBusMessage \<Rightarrow> DBusHandlerResult bus" where
  "bus_dispatch c m =
     thenB (retryB (bus_connection_preallocate_oom_error c))
       (if msg_destination m = None \<and> dbus_message_is_signal m DBUS_INTERFACE_LOCAL (str ''Disconnected'')
        then thenB (bus_connection_disconnected c) (returnB DBUS_HANDLER_RESULT_HANDLED)
        else if msg_destination m = None \<and> msg_type m \<noteq> DBUS_MESSAGE_TYPE_SIGNAL
        then returnB DBUS_HANDLER_RESULT_NOT_YET_HANDLED
        else
          catchB bus_transaction_new
            (\<lambda>e. bindB (get_conn c) (\<lambda>d.
                 thenB (whenB (cd_connected d) (bus_connection_send_oom_error c m))
                       (returnB DBUS_HANDLER_RESULT_HANDLED)))
            (\<lambda>_. thenB (catchB (dispatch_in_transaction c m)
                          (finish_dispatch c m)
                          (\<lambda>_. bus_transaction_execute_and_free))
                       (returnB DBUS_HANDLER_RESULT_HANDLED)))"

end
