(* ===== verification/Bus_Frames.thy ===== *)
theory Bus_Frames
  imports Bus_Clients
begin

text \<open>
  What the operations of the daemon keep, continued from \<open>Bus_Services\<close>: a
  relation between states that contains the primitive changes of the requests
  (\<open>requests_frame\<close>), of Hello (\<open>handler_frame\<close>, \<open>hello_frame\<close>) and of connections
  and transactions (\<open>daemon_frame\<close>) contains every dispatched message and every
  other event.  The invariants of the daemon are instances.
\<close>

section \<open>Operations inside a transaction\<close>

lemmas driver_handler_defs =
  bus_driver_handle_acquire_service_def bus_driver_handle_release_service_def
  bus_driver_handle_activate_service_def bus_driver_handle_update_activation_environment_def
  bus_driver_handle_service_exists_def bus_driver_handle_list_services_def
  bus_driver_handle_list_activatable_services_def bus_driver_handle_add_match_def
  bus_driver_handle_remove_match_def bus_driver_handle_get_service_owner_def
  bus_driver_handle_list_queued_owners_def bus_driver_handle_get_connection_unix_user_def
  bus_driver_handle_get_connection_unix_process_id_def bus_driver_handle_get_adt_audit_session_data_def
  bus_driver_handle_get_connection_selinux_security_context_def bus_driver_handle_reload_config_def
  bus_driver_handle_get_id_def bus_driver_handle_introspect_def send_ack_reply_def

locale requests_frame = bus_frame +
  assumes prim_update_rules:
      "(\<And>d. cd_name (f d) = cd_name d \<and> cd_transaction_messages (f d) = cd_transaction_messages d) \<Longrightarrow>
         steps R (update_conn c f)"
    and prim_all_rules [steps_intros]: "steps R (modifyB (\<lambda>s. s \<lparr> all_rules := h1 s \<rparr>))"
    and prim_new_pending [steps_intros]:
      "steps R (modifyB (\<lambda>s. s \<lparr> next_addr := next_addr s + 1, pending_pool := h2 s,
                                 n_pending_activations := h3 s \<rparr>))"
    and prim_environment [steps_intros]: "steps R (modifyB (\<lambda>s. s \<lparr> act_environment := h4 s \<rparr>))"
    and prim_reload [steps_intros]: "steps R (modifyB (\<lambda>s. s \<lparr> limits := h5 s, bus_policy := h6 s \<rparr>))"
    and prim_reload_activation [steps_intros]:
      "steps R (modifyB (\<lambda>s. s \<lparr> pending_activations := h7 s, pending_pool := h8 s,
                                 n_pending_activations := h9 s, act_environment := h10 s \<rparr>))"
begin

lemma keeps_add_match_rule [steps_intros]: "steps R (bus_connection_add_match_rule c r)"
  unfolding bus_connection_add_match_rule_def by (intro steps_intros prim_update_rules) simp

lemma keeps_remove_match_rule [steps_intros]: "steps R (bus_connection_remove_match_rule c r)"
  unfolding bus_connection_remove_match_rule_def by (intro steps_intros prim_update_rules) simp

lemma keeps_add_rule [steps_intros]: "steps R (bus_matchmaker_add_rule r)"
  unfolding bus_matchmaker_add_rule_def by (intro steps_intros)

lemma keeps_remove_rule [steps_intros]: "steps R (bus_matchmaker_remove_rule r)"
  unfolding bus_matchmaker_remove_rule_def by (intro steps_intros)

lemma keeps_remove_rule_link [steps_intros]: "steps R (bus_matchmaker_remove_rule_link i)"
  unfolding bus_matchmaker_remove_rule_link_def by (intro steps_intros)

lemma keeps_remove_rule_by_value [steps_intros]: "steps R (bus_matchmaker_remove_rule_by_value r)"
  unfolding bus_matchmaker_remove_rule_by_value_def by (intro steps_intros)

lemma keeps_find_entry [steps_intros]: "steps R (activation_find_entry n)"
  unfolding activation_find_entry_def by (intro steps_intros)

lemma keeps_set_environment [steps_intros]: "steps R (bus_activation_set_environment_variable k v)"
  unfolding bus_activation_set_environment_variable_def by (intro steps_intros)

lemma keeps_add_bus_environment [steps_intros]: "steps R add_bus_environment"
  unfolding add_bus_environment_def by (intro steps_intros)

lemma keeps_new_pending [steps_intros]: "steps R (new_pending_activation e n r)"
  unfolding new_pending_activation_def by (intro steps_intros)

lemma keeps_join_pending [steps_intros]: "steps R (join_pending_activation e n r)"
  unfolding join_pending_activation_def by (intro steps_intros)

lemma keeps_service_command [steps_intros]: "steps R (service_command e n)"
  unfolding service_command_def by (intro steps_intros)

lemma keeps_start_process [steps_intros]: "steps R (start_service_process e n a)"
  unfolding start_service_process_def by (intro steps_intros)

lemma keeps_activate_service [steps_intros]: "steps R (bus_activation_activate_service c auto m n)"
  unfolding bus_activation_activate_service_def by (intro steps_intros)

lemma keeps_list_activatable [steps_intros]: "steps R bus_activation_list_services"
  unfolding bus_activation_list_services_def by (intro steps_intros)

lemma keeps_check_limits [steps_intros]: "steps R (bus_connections_check_limits c)"
  unfolding bus_connections_check_limits_def by (intro steps_intros)

lemma keeps_expire_incomplete_loop [steps_intros]: "steps R (expire_incomplete_loop cs)"
  by (induction cs) (auto intro!: steps_intros)

lemma keeps_expire_incomplete [steps_intros]: "steps R bus_connections_expire_incomplete"
  unfolding bus_connections_expire_incomplete_def by (intro steps_intros)

lemma keeps_reply_with [steps_intros]: "steps R (reply_with c m args)"
  unfolding reply_with_def by (intro steps_intros)

lemma keeps_welcome [steps_intros]: "steps R (bus_driver_send_welcome_message c m)"
  unfolding bus_driver_send_welcome_message_def by (intro steps_intros)

lemma keeps_list_services [steps_intros]: "steps R bus_registry_list_services"
  unfolding bus_registry_list_services_def by (intro steps_intros)

lemma keeps_reply_with_names [steps_intros]: "steps R l \<Longrightarrow> steps R (reply_with_names c m l)"
  unfolding reply_with_names_def by (intro steps_intros)

lemma keeps_primary_connection_of [steps_intros]: "steps R (primary_connection_of n)"
  unfolding primary_connection_of_def by (intro steps_intros)

lemma keeps_reply_credential [steps_intros]: "steps R (reply_credential c m e f)"
  unfolding reply_credential_def by (auto intro!: steps_intros split: list.split msg_arg.split)

lemma keeps_reload_config [steps_intros]: "steps R bus_context_reload_config"
  unfolding bus_context_reload_config_def by (intro steps_intros)

lemma keeps_handlers:
  "steps R (bus_driver_handle_acquire_service c m)" "steps R (bus_driver_handle_release_service c m)"
  "steps R (bus_driver_handle_activate_service c m)"
  "steps R (bus_driver_handle_update_activation_environment c m)"
  "steps R (bus_driver_handle_service_exists c m)" "steps R (bus_driver_handle_list_services c m)"
  "steps R (bus_driver_handle_list_activatable_services c m)" "steps R (bus_driver_handle_add_match c m)"
  "steps R (bus_driver_handle_remove_match c m)" "steps R (bus_driver_handle_get_service_owner c m)"
  "steps R (bus_driver_handle_list_queued_owners c m)" "steps R (bus_driver_handle_get_connection_unix_user c m)"
  "steps R (bus_driver_handle_get_connection_unix_process_id c m)"
  "steps R (bus_driver_handle_get_adt_audit_session_data c m)"
  "steps R (bus_driver_handle_get_connection_selinux_security_context c m)"
  "steps R (bus_driver_handle_reload_config c m)" "steps R (bus_driver_handle_get_id c m)"
  "steps R (bus_driver_handle_introspect c m)"
  unfolding driver_handler_defs
  by (auto intro!: steps_intros split: list.split msg_arg.split sum.split)

lemma keeps_keep_message: "steps R (h c m) \<Longrightarrow> steps R (keep_message h c m)"
  unfolding keep_message_def by (intro steps_intros)

end

text \<open>With Hello, which changes the name of a connection, all messages to the daemon are covered.\<close>

locale handler_frame = requests_frame +
  assumes prim_hello [steps_intros]: "steps R (bus_driver_handle_hello c m)"
begin

lemma keeps_message_handlers: "h \<in> set message_handlers \<Longrightarrow> steps R (mh_handler h c m)"
  unfolding message_handlers_def handler_def
  by (auto intro!: prim_hello keeps_keep_message keeps_handlers)

lemma keeps_handle_message [steps_intros]: "steps R (bus_driver_handle_message c m)"
  unfolding bus_driver_handle_message_def
  by (auto intro!: steps_intros keeps_keep_message keeps_handlers keeps_message_handlers
      simp: find_Some_iff split: option.split)

lemma keeps_dispatch_to_service [steps_intros]: "steps R (dispatch_to_service c m n)"
  unfolding dispatch_to_service_def by (intro steps_intros)

lemma keeps_dispatch_in_transaction [steps_intros]: "steps R (dispatch_in_transaction c m)"
  unfolding dispatch_in_transaction_def by (intro steps_intros)

end

text \<open>A relation that does not look at names and numbers is kept by Hello when its parts keep it.\<close>

locale hello_frame = requests_frame +
  assumes prim_update_conn_any:
      "(\<And>d. cd_transaction_messages (f d) = cd_transaction_messages d) \<Longrightarrow> steps R (update_conn c f)"
    and prim_next_client_numbers [steps_intros]: "steps R next_client_numbers"
    and prim_next_minor_number [steps_intros]:
      "steps R (modifyB (\<lambda>s. s \<lparr> next_minor_number := next_minor_number s + 1 \<rparr>))"
    and prim_completed [steps_intros]:
      "steps R (modifyB (\<lambda>s. s \<lparr> incomplete := h11 s, n_incomplete := h12 s,
                                 completed := h13 s, n_completed := h14 s \<rparr>))"
    and prim_completed_by_user [steps_intros]: "steps R (modifyB (\<lambda>s. s \<lparr> completed_by_user := h15 s \<rparr>))"
begin

lemma keeps_create_unique_name [steps_intros]: "steps R (create_unique_client_name n)"
  by (induction n) (auto intro!: steps_intros)

lemma keeps_adjust_for_uid [steps_intros]: "steps R (adjust_connections_for_uid u n)"
  unfolding adjust_connections_for_uid_def by (intro steps_intros)

lemma keeps_complete [steps_intros]: "steps R (bus_connection_complete c n)"
  unfolding bus_connection_complete_def by (intro steps_intros prim_update_conn_any) simp_all

lemma keeps_hello [steps_intros]: "steps R (bus_driver_handle_hello c m)"
  unfolding bus_driver_handle_hello_def by (intro steps_intros)

end

sublocale hello_frame \<subseteq> handler_frame
  by unfold_locales (rule keeps_hello)

section \<open>Operations with transactions of their own\<close>

locale daemon_frame = handler_frame +
  assumes prim_clear_queue [steps_intros]: "steps R (update_conn c (\<lambda>d. d \<lparr> cd_transaction_messages := [] \<rparr>))"
    and prim_transaction [steps_intros]: "steps R (modifyB (\<lambda>s. s \<lparr> transaction := k1 s \<rparr>))"
    and prim_new_conn:
      "(\<And>s. cd_name (d s) = None) \<Longrightarrow>
         steps R (modifyB (\<lambda>s. s \<lparr> conns := (conns s)(c \<mapsto> d s), incomplete := k2 s, n_incomplete := k3 s \<rparr>))"
    and prim_free_conn [steps_intros]: "steps R (modifyB (\<lambda>s. s \<lparr> conns := (conns s)(c := None) \<rparr>))"
    and prim_leave_completed [steps_intros]: "steps R (modifyB (\<lambda>s. s \<lparr> completed := k4 s, n_completed := k5 s \<rparr>))"
    and prim_leave_incomplete [steps_intros]: "steps R (modifyB (\<lambda>s. s \<lparr> incomplete := k6 s, n_incomplete := k7 s \<rparr>))"
    and prim_by_user [steps_intros]: "steps R (modifyB (\<lambda>s. s \<lparr> completed_by_user := k8 s \<rparr>))"
begin

lemma keeps_transaction_new [steps_intros]: "steps R bus_transaction_new"
  unfolding bus_transaction_new_def by (intro steps_intros)

lemma keeps_execute [steps_intros]: "steps R bus_transaction_execute_and_free"
  unfolding bus_transaction_execute_and_free_def connection_execute_transaction_def by (intro steps_intros)

lemma keeps_cancel [steps_intros]: "steps R bus_transaction_cancel_and_free"
  unfolding bus_transaction_cancel_and_free_def connection_cancel_transaction_def by (intro steps_intros)

lemma keeps_retry_loop: "steps R m \<Longrightarrow> steps R (retry_loop n m)"
  by (induction n) (auto intro!: steps_intros)

lemma keeps_retry [steps_intros]: "steps R m \<Longrightarrow> steps R (retryB m)"
  unfolding retryB_def by (intro steps_intros keeps_retry_loop)

lemma keeps_send_activation_failure [steps_intros]: "steps R (send_activation_failure e r)"
  unfolding send_activation_failure_def by (intro steps_intros)

lemma keeps_try_send_failure [steps_intros]: "steps R (try_send_activation_failure a e)"
  unfolding try_send_activation_failure_def by (intro steps_intros)

lemma keeps_activation_failed [steps_intros]: "steps R (pending_activation_failed a e)"
  unfolding pending_activation_failed_def by (intro steps_intros)

lemma keeps_fail_if_same_exec [steps_intros]: "steps R (fail_if_same_exec a x e n)"
  unfolding fail_if_same_exec_def by (intro steps_intros)

lemma keeps_babysitter [steps_intros]: "steps R (babysitter_watch_callback a e st)"
  unfolding babysitter_watch_callback_def by (intro steps_intros)

lemma keeps_activation_timed_out [steps_intros]: "steps R (pending_activation_timed_out a)"
  unfolding pending_activation_timed_out_def by (intro steps_intros)

lemma keeps_setup [steps_intros]: "steps R (bus_connections_setup_connection c u)"
  unfolding bus_connections_setup_connection_def
  by (auto intro!: steps_intros prim_new_conn split: list.split)

lemma keeps_disconnected_loop [steps_intros]: "steps R (disconnected_loop n c rules)"
  by (induction rules) (auto intro!: steps_intros)

lemma keeps_matchmaker_disconnected [steps_intros]: "steps R (bus_matchmaker_disconnected c)"
  unfolding bus_matchmaker_disconnected_def by (intro steps_intros)

lemma keeps_drop_owned_service [steps_intros]: "steps R (drop_owned_service c a)"
  unfolding drop_owned_service_def by (auto intro!: steps_intros split: bus_error.split)

lemma keeps_drop_owned_services [steps_intros]: "steps R (drop_owned_services n c)"
  by (induction n) (auto intro!: steps_intros)

lemma keeps_remove_transactions [steps_intros]: "steps R (bus_connection_remove_transactions c)"
  unfolding bus_connection_remove_transactions_def by (intro steps_intros)

lemma keeps_leave_adjust [steps_intros]: "steps R (adjust_connections_for_uid u n)"
  unfolding adjust_connections_for_uid_def by (intro steps_intros)

lemma keeps_leave_list [steps_intros]: "steps R (leave_connection_list c)"
  unfolding leave_connection_list_def by (intro steps_intros)

lemma keeps_free_connection [steps_intros]: "steps R (free_connection_data c)"
  unfolding free_connection_data_def by (intro steps_intros)

lemma keeps_drop_pending_replies [steps_intros]: "steps R (bus_connection_drop_pending_replies c)"
  unfolding bus_connection_drop_pending_replies_def by (intro steps_intros)

lemma keeps_disconnected [steps_intros]: "steps R (bus_connection_disconnected c)"
  unfolding bus_connection_disconnected_def by (intro steps_intros)

lemma keeps_no_reply [steps_intros]: "steps R (bus_pending_reply_send_no_reply p)"
  unfolding bus_pending_reply_send_no_reply_def by (intro steps_intros)

lemma keeps_reply_expired [steps_intros]: "steps R (bus_pending_reply_expired p)"
  unfolding bus_pending_reply_expired_def by (intro steps_intros)

lemma keeps_do_expiration [steps_intros]: "steps R (do_expiration_with_current_time ps w)"
  by (induction ps arbitrary: w) (auto intro!: steps_intros)

lemma keeps_expirelist [steps_intros]: "steps R bus_expirelist_expire"
  unfolding bus_expirelist_expire_def by (intro steps_intros)

lemma keeps_preallocate [steps_intros]: "steps R (bus_connection_preallocate_oom_error c)"
  unfolding bus_connection_preallocate_oom_error_def by (intro steps_intros prim_update_rules) simp

lemma keeps_send_oom_error [steps_intros]: "steps R (bus_connection_send_oom_error c m)"
  unfolding bus_connection_send_oom_error_def by (intro steps_intros prim_update_rules) simp

lemma keeps_cancel_with_oom [steps_intros]: "steps R (cancel_with_oom_error c m)"
  unfolding cancel_with_oom_error_def by (intro steps_intros)

lemma keeps_finish_dispatch [steps_intros]: "steps R (finish_dispatch c m e)"
  unfolding finish_dispatch_def by (auto intro!: steps_intros split: bus_error.split)

lemma keeps_dispatch [steps_intros]: "steps R (bus_dispatch c m)"
  unfolding bus_dispatch_def by (intro steps_intros)

end

end
