(* ===== verification/Bus_Delivery.thy ===== *)
theory Bus_Delivery
  imports Bus_Registry "HOL-Library.Multiset"
begin

text \<open>
  Who gets a message: the recipients that the match rules select, the list of
  match rules under AddMatch, RemoveMatch and disconnection, the replies that
  are let through, and the moment at which the messages of a transaction are
  delivered (src/bus/signals.c, connection.c).
\<close>

section \<open>Recipients by match rules\<close>

text \<open>The connections that carry the current stamp.\<close>

definition marked :: "BusContext \<Rightarrow> conn set" where
  "marked s = {c. \<exists>d. conns s c = Some d \<and> cd_stamp d = stamp s}"

text \<open>Whether a rule matches depends on the registry and the environment only.\<close>

definition rule_hits :: "BusContext \<Rightarrow> conn option \<Rightarrow> conn option \<Rightarrow> DBusMessage \<Rightarrow> BusMatchRule \<Rightarrow> bool" where
  "rule_hits s sender addressed m rule =
     match_rule_matches (env_oob (env s)) (registry_view_of s) rule sender addressed m"

lemma mark_stamp_eq:
  assumes "conns s c = Some d"
  shows "bus_connection_mark_stamp c s =
    (if c \<in> marked s then (Inr False, s)
     else (Inr True, s \<lparr> conns := (conns s)(c \<mapsto> d \<lparr> cd_stamp := stamp s \<rparr>) \<rparr>))"
  using assms
  by (simp add: bus_connection_mark_stamp_def get_conn_def update_conn_def bus_op_defs marked_def)

lemma marked_mark:
  "conns s c = Some d \<Longrightarrow>
    marked (s \<lparr> conns := (conns s)(c \<mapsto> d \<lparr> cd_stamp := stamp s \<rparr>) \<rparr>) = insert c (marked s)"
  by (auto simp: marked_def)

lemma rule_hits_cong:
  assumes "env t = env s" and "service_hash t = service_hash s" and "service_pool t = service_pool s"
    and "owner_pool t = owner_pool s"
  shows "rule_hits t = rule_hits s"
proof -
  have "registry_view_of t = registry_view_of s"
    using assms by (simp add: registry_view_of_def fun_eq_iff split: option.split)
  then show ?thesis
    using assms(1) unfolding rule_hits_def by (simp only:)
qed

lemma rule_hits_conns [simp]: "rule_hits (s \<lparr> conns := x \<rparr>) = rule_hits s"
  by (rule rule_hits_cong) simp_all

text \<open>The targets of the rules that hit, each once, in the order of the rules.\<close>

fun targets :: "(BusMatchRule \<Rightarrow> bool) \<Rightarrow> conn set \<Rightarrow> BusMatchRule list \<Rightarrow> conn list" where
  "targets hit done [] = []"
| "targets hit done (r # rs) =
     (if hit r \<and> matches_go_to r \<notin> done
      then matches_go_to r # targets hit (insert (matches_go_to r) done) rs
      else targets hit done rs)"

lemma targets_set: "set (targets hit done rs) = matches_go_to ` {r \<in> set rs. hit r} - done"
  by (induction rs arbitrary: "done") auto

lemma targets_distinct: "distinct (targets hit done rs)"
  by (induction rs arbitrary: "done") (auto simp: targets_set)

lemma recipients_loop_eq:
  assumes "oom s = []" and "\<And>r. r \<in> set rules \<Longrightarrow> conns s (matches_go_to r) \<noteq> None"
  shows "fst (recipients_loop sender addressed m rules acc s) =
    Inr (acc @ targets (rule_hits s sender addressed m) (marked s) rules)"
  using assms
proof (induction rules arbitrary: s acc)
  case Nil
  then show ?case
    by (simp add: returnB_def)
next
  case (Cons r rules)
  obtain d where d: "conns s (matches_go_to r) = Some d"
    using Cons.prems(2) [of r] by auto
  let ?t = "s \<lparr> conns := (conns s)(matches_go_to r \<mapsto> d \<lparr> cd_stamp := stamp s \<rparr>) \<rparr>"
  have later: "conns s (matches_go_to r') \<noteq> None" if "r' \<in> set rules" for r'
    using that Cons.prems(2) by auto
  have t: "fst (recipients_loop sender addressed m rules acc' ?t) =
      Inr (acc' @ targets (rule_hits s sender addressed m) (insert (matches_go_to r) (marked s)) rules)" for acc'
    using Cons.IH [of ?t acc'] Cons.prems(1) later by (simp add: marked_mark [OF d])
  have alloc: "allocB ?t = (Inr (), ?t)"
    using Cons.prems(1) by (simp add: allocB_def)
  show ?case
    using Cons.IH [OF Cons.prems(1) later] t alloc
    by (auto simp: bus_op_defs mark_stamp_eq [OF d] rule_hits_def [symmetric])
qed


text \<open>Client 2 has asked for all messages, twice, and client 1 for one member.\<close>

definition demo_rules :: BusContext where
  "demo_rules = demo_bus
     \<lparr> stamp := 7,
       all_rules := [bus_match_rule_new 2, bus_match_rule_new 1 \<lparr> br_member := Some (str ''Quit'') \<rparr>,
                     bus_match_rule_new 2] \<rparr>"

definition demo_signal :: DBusMessage where
  "demo_signal = dbus_message_new_signal (str ''/a'') (str ''a.b'') (str ''Changed'')"


section \<open>The list of match rules\<close>

text \<open>
  The matchmaker and every connection keep a list of rules: the rules of a
  connection are those of the matchmaker that go to it, and their number is
  counted.
\<close>

definition accounted :: "BusMatchRule multiset \<Rightarrow> (conn \<rightharpoonup> BusConnectionData) \<Rightarrow> bool" where
  "accounted rules cs \<longleftrightarrow>
     (\<forall>r. r \<in># rules \<longrightarrow> cs (matches_go_to r) \<noteq> None) \<and>
     (\<forall>c d. cs c = Some d \<longrightarrow>
        mset (cd_match_rules d) = filter_mset (\<lambda>r. matches_go_to r = c) rules \<and>
        cd_n_match_rules d = int (length (cd_match_rules d)))"

definition rules_ok :: "BusContext \<Rightarrow> bool" where
  "rules_ok s \<longleftrightarrow> accounted (mset (all_rules s)) (conns s)"

inductive match_step :: "BusContext \<Rightarrow> BusContext \<Rightarrow> bool" where
  add: "bus_matchmaker_add_rule rule s = (result, s') \<Longrightarrow> match_step s s'"
| remove: "bus_matchmaker_remove_rule_by_value rule s = (result, s') \<Longrightarrow> match_step s s'"
| disconnect: "bus_matchmaker_disconnected c s = (result, s') \<Longrightarrow> match_step s s'"

lemma mset_list_remove_last: "mset (list_remove_last x xs) = mset xs - {#x#}"
  by (simp add: list_remove_last_def)

lemma last_index_Some:
  "last_index P xs = Some i \<Longrightarrow> i < length xs \<and> P (xs ! i)"
  by (induction xs arbitrary: i) (auto split: option.splits if_splits)

lemma last_index_None: "last_index P xs = None \<longleftrightarrow> (\<forall>x\<in>set xs. \<not> P x)"
  by (induction xs) (auto split: option.splits)

lemma mset_remove_at:
  assumes "i < length xs"
  shows "mset (remove_at i xs) = mset xs - {#xs ! i#}"
proof -
  have "mset xs = mset (take i xs @ xs ! i # drop (Suc i) xs)"
    using id_take_nth_drop [OF assms] by metis
  then show ?thesis
    by (simp add: remove_at_def)
qed

text \<open>Removing one rule from the list of its connection.\<close>

lemma remove_match_rule_accounted:
  assumes acc: "accounted M (conns s)" and r: "r \<in># M"
  shows "\<exists>s'. bus_connection_remove_match_rule (matches_go_to r) r s = (Inr (), s') \<and> accounted (M - {#r#}) (conns s') \<and>
    all_rules s' = all_rules s"
proof -
  let ?c = "matches_go_to r"
  obtain d where d: "conns s ?c = Some d"
    using acc r by (auto simp: accounted_def)
  have rules: "mset (cd_match_rules d) = filter_mset (\<lambda>r. matches_go_to r = ?c) M"
      "cd_n_match_rules d = int (length (cd_match_rules d))"
    using acc d by (auto simp: accounted_def)
  have mem: "r \<in># mset (cd_match_rules d)"
    using r by (simp add: rules(1))
  then have pos: "0 < length (cd_match_rules d)"
    by (cases "cd_match_rules d") auto
  let ?d = "d \<lparr> cd_match_rules := list_remove_last r (cd_match_rules d), cd_n_match_rules := cd_n_match_rules d - 1 \<rparr>"
  let ?s = "s \<lparr> conns := (conns s)(?c \<mapsto> ?d) \<rparr>"
  have "bus_connection_remove_match_rule ?c r s = (Inr (), ?s)"
    using d pos rules(2)
    by (simp add: bus_connection_remove_match_rule_def update_conn_def get_conn_def bus_op_defs)
  moreover have "accounted (M - {#r#}) (conns ?s)"
  proof -
    have "length (list_remove_last r (cd_match_rules d)) = length (cd_match_rules d) - 1"
      using mem by (simp add: list_remove_last_def length_remove1)
    then have "cd_n_match_rules d - 1 = int (length (list_remove_last r (cd_match_rules d)))"
      using rules(2) pos by linarith
    then show ?thesis
      using acc rules(1) by (auto simp: accounted_def mset_list_remove_last filter_diff_mset dest: in_diffD)
  qed
  ultimately show ?thesis
    by auto
qed

lemma disconnected_loop_accounted:
  assumes "accounted (N + mset rules) (conns s)"
  shows "\<exists>s'. disconnected_loop name c rules s = (Inr (filter (\<lambda>r. \<not> rule_concerns name c r) rules), s') \<and>
    accounted (N + mset (filter (\<lambda>r. \<not> rule_concerns name c r) rules)) (conns s') \<and> all_rules s' = all_rules s"
  using assms
proof (induction rules arbitrary: N s)
  case Nil
  then show ?case
    by (auto simp: returnB_def)
next
  case (Cons r rules)
  show ?case
  proof (cases "rule_concerns name c r")
    case True
    obtain t where t: "bus_connection_remove_match_rule (matches_go_to r) r s = (Inr (), t)"
        "accounted (N + mset rules) (conns t)" "all_rules t = all_rules s"
      using remove_match_rule_accounted [OF Cons.prems, of r] by auto
    then show ?thesis
      using Cons.IH [OF t(2)] True by (auto simp: bus_op_defs)
  next
    case False
    have "accounted (add_mset r N + mset rules) (conns s)"
      using Cons.prems by simp
    from Cons.IH [OF this] show ?thesis
      using False by (auto simp: bus_op_defs)
  qed
qed


text \<open>The bus of the last example, with the lists of the two connections filled in.\<close>

definition demo_matched :: BusContext where
  "demo_matched = demo_rules
     \<lparr> conns := (\<lambda>c.
         if c = 1 then Some (demo_connection '':1.1'' \<lparr> cd_n_match_rules := 1,
                              cd_match_rules := [bus_match_rule_new 1 \<lparr> br_member := Some (str ''Quit'') \<rparr>] \<rparr>)
         else if c = 2 then Some (demo_connection '':1.2'' \<lparr> cd_n_match_rules := 2,
                              cd_match_rules := [bus_match_rule_new 2, bus_match_rule_new 2] \<rparr>)
         else None) \<rparr>"

lemma rules_ok_demo_matched: "rules_ok demo_matched"
  by (auto simp: rules_ok_def accounted_def demo_matched_def demo_rules_def bus_match_rule_new_def split: if_splits)


lemma add_rule_accounted:
  assumes "rules_ok s" and "bus_matchmaker_add_rule rule s = (result, s')"
  shows "rules_ok s'"
proof -
  let ?c = "matches_go_to rule"
  show ?thesis
  proof (cases "conns s ?c")
    case None
    then show ?thesis
      using assms by (auto simp: bus_matchmaker_add_rule_def bus_connection_is_active_def bus_op_defs)
  next
    case (Some d)
    let ?d = "d \<lparr> cd_match_rules := cd_match_rules d @ [rule], cd_n_match_rules := cd_n_match_rules d + 1 \<rparr>"
    have "accounted (add_mset rule (mset (all_rules s))) ((conns s)(?c \<mapsto> ?d))"
      using assms(1) Some by (auto simp: rules_ok_def accounted_def)
    then show ?thesis
      using assms Some
      by (auto simp: bus_matchmaker_add_rule_def bus_connection_is_active_def bus_op_defs allocB_def
          bus_connection_add_match_rule_def update_conn_def get_conn_def rules_ok_def mset_list_remove_last
          split: if_splits list.splits prod.splits)
  qed
qed

lemma remove_rule_accounted:
  assumes "rules_ok s" and "bus_matchmaker_remove_rule_by_value rule s = (result, s')"
  shows "rules_ok s'"
proof (cases "last_index (\<lambda>r. match_rule_equal r rule) (all_rules s)")
  case None
  then show ?thesis
    using assms by (auto simp: bus_matchmaker_remove_rule_by_value_def bus_op_defs)
next
  case (Some i)
  let ?r = "all_rules s ! i"
  have i: "i < length (all_rules s)"
    using last_index_Some [OF Some] by simp
  then have "?r \<in># mset (all_rules s)"
    by simp
  then obtain t where "bus_connection_remove_match_rule (matches_go_to ?r) ?r s = (Inr (), t)"
      "accounted (mset (all_rules s) - {#?r#}) (conns t)" "all_rules t = all_rules s"
    using remove_match_rule_accounted assms(1) unfolding rules_ok_def by blast
  then show ?thesis
    using assms(2) Some i
    by (auto simp: bus_matchmaker_remove_rule_by_value_def bus_matchmaker_remove_rule_link_def bus_op_defs
        rules_ok_def mset_remove_at)
qed

lemma disconnected_accounted:
  assumes "rules_ok s" and run: "bus_matchmaker_disconnected c s = (result, s')"
  shows "rules_ok s'"
proof (cases "\<exists>d name. conns s c = Some d \<and> cd_name d = Some name")
  case True
  then obtain d name where d: "conns s c = Some d" "cd_name d = Some name"
    by auto
  obtain t where "disconnected_loop name c (all_rules s) s = (Inr (filter (\<lambda>r. \<not> rule_concerns name c r) (all_rules s)), t)"
      "accounted (mset (filter (\<lambda>r. \<not> rule_concerns name c r) (all_rules s))) (conns t)"
    using disconnected_loop_accounted [of "{#}" "all_rules s" s] assms(1) by (auto simp: rules_ok_def)
  then show ?thesis
    using run d
    by (auto simp: bus_matchmaker_disconnected_def bus_connection_get_name_def get_conn_def bus_op_defs rules_ok_def)
next
  case False
  then show ?thesis
    using assms
    by (auto simp: bus_matchmaker_disconnected_def bus_connection_get_name_def get_conn_def bus_op_defs
        split: option.splits)
qed

text \<open>
  C11: However rules are added and removed and clients leave, whether an operation
  succeeds or fails, the lists of the matchmaker and of the connections hold
  the same rules, and the counters against which the limit is checked are the
  lengths of the lists.
\<close>

theorem match_rules_accounted:
  assumes "match_step\<^sup>*\<^sup>* s s'" and "rules_ok s"
  shows "rules_ok s'"
  using assms
proof (induction rule: rtranclp_induct)
  case (step t u)
  then show ?case
    by (auto elim!: match_step.cases intro: add_rule_accounted remove_rule_accounted disconnected_accounted)
qed simp

theorem match_rules_accounted_witness:
  "rules_ok (snd (bus_matchmaker_add_rule (bus_match_rule_new 1) demo_matched))"
proof (rule match_rules_accounted [OF _ rules_ok_demo_matched])
  show "match_step\<^sup>*\<^sup>* demo_matched (snd (bus_matchmaker_add_rule (bus_match_rule_new 1) demo_matched))"
    by (rule r_into_rtranclp, rule match_step.add [of "bus_match_rule_new 1"]) (simp add: prod_eq_iff)
qed

section \<open>Pending replies\<close>

text \<open>
  At most one pending entry per call, and per connection no more entries than
  the limit allows.
\<close>

definition reply_key :: "BusPendingReply \<Rightarrow> 32 word \<times> conn \<times> conn option" where
  "reply_key p = (pr_reply_serial p, will_get_reply p, will_send_reply p)"

definition owed :: "BusPendingReply list \<Rightarrow> BusPendingReply list" where
  "owed ps = filter (\<lambda>p. will_send_reply p \<noteq> None) ps"

definition pending_ok :: "BusContext \<Rightarrow> bool" where
  "pending_ok s \<longleftrightarrow>
     distinct (map reply_key (owed (pending_replies s))) \<and>
     (\<forall>c. int (pending_count c (pending_replies s)) \<le> max 0 (max_replies_per_connection (limits s)))"

inductive reply_step :: "BusContext \<Rightarrow> BusContext \<Rightarrow> bool" where
  call: "bus_connections_expect_reply getter replier m s = (result, s') \<Longrightarrow> reply_step s s'"
| reply: "bus_connections_check_reply sender receiver m s = (result, s') \<Longrightarrow> reply_step s s'"
| disconnect: "bus_connection_drop_pending_replies c s = (result, s') \<Longrightarrow> reply_step s s'"

lemma pending_matches_key:
  "pending_matches serial getter replier p \<longleftrightarrow> reply_key p = (serial, getter, Some replier)"
  by (auto simp: pending_matches_def reply_key_def)

text \<open>The operations of a transaction that only use up allocations and add a hook.\<close>

definition same_pending :: "BusContext \<Rightarrow> BusContext \<Rightarrow> bool" where
  "same_pending s s' \<longleftrightarrow> pending_replies s' = pending_replies s \<and> limits s' = limits s"

lemma thenB_cases:
  assumes "thenB m k s = (res, s')"
  obtains e where "m s = (Inl e, s')" and "res = Inl e" | x t where "m s = (Inr x, t)" and "k t = (res, s')"
  using assms by (auto simp: thenB_def bindB_def split: prod.splits sum.splits)

lemma pending_alloc: "allocB s = (res, s') \<Longrightarrow> same_pending s s'"
  by (auto simp: allocB_def same_pending_def split: list.splits)

lemma pending_hook: "bus_transaction_add_cancel_hook h s = (res, s') \<Longrightarrow> same_pending s s'"
  unfolding bus_transaction_add_cancel_hook_def
  by (elim thenB_cases) (auto simp: same_pending_def modifyB_def dest!: pending_alloc)

text \<open>The part of \<open>bus_connections_expect_reply\<close> behind the checks and allocations.\<close>

lemma record_reply_cases:
  fixes g r m s
  defines "p \<equiv> \<lparr> pr_addr = next_addr s, will_get_reply = g, will_send_reply = Some r,
                  pr_reply_serial = msg_serial m, pr_added = now s \<rparr>"
  assumes run: "thenB (modifyB (\<lambda>s. s \<lparr> pending_replies := p # pending_replies s, next_addr := next_addr s + 1 \<rparr>))
       (catchB (bus_transaction_add_cancel_hook (CancelPendingReply (pr_addr p)))
          (\<lambda>e. thenB (modifyB (\<lambda>s. s \<lparr> pending_replies := remove1 p (pending_replies s) \<rparr>)) (raiseB NoMemory))
          (\<lambda>_. returnB ())) s = (result, s')"
  shows "limits s' = limits s \<and> (pending_replies s' = pending_replies s \<or> pending_replies s' = p # pending_replies s)"
proof -
  let ?t = "s \<lparr> pending_replies := p # pending_replies s, next_addr := next_addr s + 1 \<rparr>"
  obtain res u where hook: "bus_transaction_add_cancel_hook (CancelPendingReply (pr_addr p)) ?t = (res, u)"
    by fastforce
  have "same_pending ?t u"
    using pending_hook [OF hook] .
  then show ?thesis
    using run hook
    by (cases res) (auto simp: bus_op_defs same_pending_def split: bus_error.splits)
qed

lemma expect_reply_cases:
  assumes run: "bus_connections_expect_reply g r m s = (result, s')"
  obtains "same_pending s s'"
    | p where "will_get_reply p = g" and "reply_key p = (msg_serial m, g, Some r)"
      and "pending_replies s' = p # pending_replies s" and "limits s' = limits s"
      and "\<not> list_ex (pending_matches (msg_serial m) g r) (pending_replies s)"
      and "int (pending_count g (pending_replies s)) < max_replies_per_connection (limits s)"
proof (cases "msg_no_reply m \<or> list_ex (pending_matches (msg_serial m) g r) (pending_replies s) \<or>
    int (pending_count g (pending_replies s)) \<ge> max_replies_per_connection (limits s)")
  case True
  then have "s' = s"
    using run by (auto simp: bus_connections_expect_reply_def bus_op_defs split: if_splits)
  then show ?thesis
    using that(1) by (simp add: same_pending_def)
next
  case False
  let ?rest = "bindB (getsB (\<lambda>s. \<lparr> pr_addr = next_addr s, will_get_reply = g, will_send_reply = Some r,
                            pr_reply_serial = msg_serial m, pr_added = now s \<rparr>)) (\<lambda>p.
        thenB (modifyB (\<lambda>s. s \<lparr> pending_replies := p # pending_replies s, next_addr := next_addr s + 1 \<rparr>))
       (catchB (bus_transaction_add_cancel_hook (CancelPendingReply (pr_addr p)))
          (\<lambda>e. thenB (modifyB (\<lambda>s. s \<lparr> pending_replies := remove1 p (pending_replies s) \<rparr>)) (raiseB NoMemory))
          (\<lambda>_. returnB ())))"
  have "thenB allocB (thenB allocB (thenB allocB ?rest)) s = (result, s')"
    using run False
    by (simp add: bus_connections_expect_reply_def thenB_def bindB_def getsB_def unlessB_def returnB_def)
  then consider "same_pending s s'" | t where "same_pending s t" "?rest t = (result, s')"
    by (elim thenB_cases) (auto simp: same_pending_def dest!: pending_alloc)
  then show ?thesis
  proof cases
    case 1
    then show ?thesis
      by (rule that(1))
  next
    case (2 t)
    let ?p = "\<lparr> pr_addr = next_addr t, will_get_reply = g, will_send_reply = Some r,
                 pr_reply_serial = msg_serial m, pr_added = now t \<rparr>"
    from 2 have "limits s' = limits t \<and> (pending_replies s' = pending_replies t \<or>
        pending_replies s' = ?p # pending_replies t)"
      by (intro record_reply_cases) (simp add: bindB_def getsB_def)
    then show ?thesis
      using 2(1) False that(1) that(2) [of ?p] by (auto simp: same_pending_def reply_key_def)
  qed
qed

lemma check_reply_cases:
  assumes run: "bus_connections_check_reply a b m s = (result, s')"
  obtains "same_pending s s'" and "result \<noteq> Inr True"
    | p where "find (pending_matches (msg_reply_serial m) b a) (pending_replies s) = Some p"
      and "pending_replies s' = remove1 p (pending_replies s)" and "limits s' = limits s" and "result = Inr True"
proof (cases "find (pending_matches (msg_reply_serial m) b a) (pending_replies s)")
  case None
  then show ?thesis
    using run that(1) by (auto simp: bus_connections_check_reply_def bus_op_defs same_pending_def)
next
  case (Some p)
  then have "thenB allocB (thenB (bus_transaction_add_cancel_hook (CancelCheckPendingReply p))
          (thenB (modifyB (\<lambda>s. s \<lparr> pending_replies := remove1 p (pending_replies s) \<rparr>)) (returnB True))) s = (result, s')"
    using run by (simp add: bus_connections_check_reply_def bindB_def getsB_def)
  then consider e where "same_pending s s'" "result = Inl e"
    | t where "same_pending s t" "s' = t \<lparr> pending_replies := remove1 p (pending_replies t) \<rparr>" "result = Inr True"
    by (elim thenB_cases)
      (auto simp: same_pending_def modifyB_def returnB_def dest!: pending_alloc pending_hook)
  then show ?thesis
    using that Some by cases (auto simp: same_pending_def)
qed

lemma distinct_map_remove1: "distinct (map f xs) \<Longrightarrow> distinct (map f (remove1 x xs))"
  by (auto simp: distinct_map distinct_remove1 intro: inj_on_diff)

lemma owed_remove1: "owed (remove1 p ps) = (if will_send_reply p \<noteq> None then remove1 p (owed ps) else owed ps)"
  by (simp add: owed_def filter_remove1 remove1_idem)

lemma pending_count_remove1: "pending_count c (remove1 p ps) \<le> pending_count c ps"
  unfolding pending_count_def filter_remove1 by (simp add: length_remove1)

lemma pending_count_drop: "pending_count g (drop_pending c ps) \<le> pending_count g ps"
  by (induction ps) (auto simp: drop_pending_def pending_count_def)

lemma owed_drop: "owed (drop_pending c ps) = filter (\<lambda>p. will_send_reply p \<noteq> Some c \<and> will_get_reply p \<noteq> c) (owed ps)"
  by (induction ps) (auto simp: drop_pending_def owed_def)

lemma pending_ok_shrink:
  assumes "pending_ok s" and "\<And>c. pending_count c (pending_replies s') \<le> pending_count c (pending_replies s)"
    and "limits s' = limits s" and "distinct (map reply_key (owed (pending_replies s')))"
  shows "pending_ok s'"
proof -
  have "int (pending_count c (pending_replies s')) \<le> max 0 (max_replies_per_connection (limits s))" for c
  proof (rule order_trans)
    show "int (pending_count c (pending_replies s')) \<le> int (pending_count c (pending_replies s))"
      using assms(2) by simp
    show "int (pending_count c (pending_replies s)) \<le> max 0 (max_replies_per_connection (limits s))"
      using assms(1) by (simp only: pending_ok_def)
  qed
  then show ?thesis
    using assms(3,4) unfolding pending_ok_def by simp
qed

lemma pending_ok_call:
  assumes ok: "pending_ok s" and "bus_connections_expect_reply g r m s = (result, s')"
  shows "pending_ok s'"
  using assms(2)
proof (cases rule: expect_reply_cases)
  case 1
  then show ?thesis
    using ok by (simp add: pending_ok_def same_pending_def)
next
  case (2 p)
  have "reply_key p \<notin> reply_key ` set (owed (pending_replies s))"
    using 2(2,5) by (auto simp: owed_def list_ex_iff pending_matches_key)
  moreover have "will_send_reply p \<noteq> None"
    using 2(2) by (simp add: reply_key_def)
  ultimately show ?thesis
    using ok 2 by (simp add: pending_ok_def owed_def pending_count_def)
qed

lemma pending_ok_reply:
  assumes ok: "pending_ok s" and "bus_connections_check_reply a b m s = (result, s')"
  shows "pending_ok s'"
  using assms(2)
proof (cases rule: check_reply_cases)
  case 1
  then show ?thesis
    using ok by (simp add: pending_ok_def same_pending_def)
next
  case (2 p)
  have "distinct (map reply_key (owed (pending_replies s)))"
    using ok by (simp add: pending_ok_def)
  then show ?thesis
    using 2 by (intro pending_ok_shrink [OF ok]) (auto simp: owed_remove1 pending_count_remove1 distinct_map_remove1)
qed

lemma pending_ok_disconnect:
  assumes ok: "pending_ok s" and "bus_connection_drop_pending_replies c s = (result, s')"
  shows "pending_ok s'"
proof -
  have "distinct (map reply_key (owed (pending_replies s)))"
    using ok by (simp add: pending_ok_def)
  then show ?thesis
    using assms(2)
    by (intro pending_ok_shrink [OF ok])
      (auto simp: bus_connection_drop_pending_replies_def modifyB_def owed_drop pending_count_drop distinct_map_filter)
qed


definition demo_call :: DBusMessage where
  "demo_call = (dbus_message_new DBUS_MESSAGE_TYPE_METHOD_CALL) \<lparr> msg_serial := 5 \<rparr>"


text \<open>
  C9: A reply counts as requested only when the call is pending, and only once:
  after it has been let through, a second reply to the same call is not.
\<close>

theorem reply_accepted_once:
  assumes "pending_ok s" and "bus_connections_check_reply sender receiver reply s = (Inr True, s')"
  shows "(\<exists>p \<in> set (pending_replies s). pending_matches (msg_reply_serial reply) receiver sender p) \<and>
    bus_connections_check_reply sender receiver (reply \<lparr> msg_args := args \<rparr>) s' = (Inr False, s')"
  using assms(2)
proof (cases rule: check_reply_cases)
  case (2 p)
  have p: "p \<in> set (pending_replies s)" "reply_key p = (msg_reply_serial reply, receiver, Some sender)"
    using 2(1) by (auto simp: find_Some_iff pending_matches_key)
  have p_owed: "p \<in> set (owed (pending_replies s))"
    using p by (auto simp: owed_def reply_key_def)
  have "\<not> pending_matches (msg_reply_serial reply) receiver sender q" if "q \<in> set (remove1 p (pending_replies s))" for q
  proof
    assume q: "pending_matches (msg_reply_serial reply) receiver sender q"
    then have "q \<in> set (owed (remove1 p (pending_replies s)))"
      using that by (simp add: owed_def pending_matches_def)
    then have "q \<in> set (remove1 p (owed (pending_replies s)))"
      using p by (simp add: owed_remove1 reply_key_def)
    then have "q \<in> set (owed (pending_replies s))" "q \<noteq> p"
      using assms(1) by (auto simp: pending_ok_def distinct_map)
    then show False
      using p_owed p(2) q assms(1) unfolding pending_ok_def distinct_map inj_on_def pending_matches_key by metis
  qed
  then have "find (pending_matches (msg_reply_serial reply) receiver sender) (pending_replies s') = None"
    using 2(2) by (simp add: find_None_iff)
  then show ?thesis
    using p by (auto simp: bus_connections_check_reply_def bus_op_defs pending_matches_key)
qed simp

text \<open>A bus on which client 1 waits for an answer of client 2, and the answer.\<close>

definition demo_pending :: BusContext where
  "demo_pending = demo_bus
     \<lparr> pending_replies := [\<lparr> pr_addr = 0, will_get_reply = 1, will_send_reply = Some 2, pr_reply_serial = 5,
                              pr_added = 0 \<rparr>], next_addr := 1 \<rparr>"

definition demo_reply :: DBusMessage where
  "demo_reply = (dbus_message_new DBUS_MESSAGE_TYPE_METHOD_RETURN) \<lparr> msg_reply_serial := 5 \<rparr>"

theorem reply_accepted_once_witness:
  "fst (bus_connections_check_reply 2 1 demo_reply demo_pending) = Inr True \<and>
   fst (bus_connections_check_reply 2 1 demo_reply (snd (bus_connections_check_reply 2 1 demo_reply demo_pending))) =
     Inr False"
proof -
  have ok: "fst (bus_connections_check_reply 2 1 demo_reply demo_pending) = Inr True"
    by code_simp
  then have run: "bus_connections_check_reply 2 1 demo_reply demo_pending =
      (Inr True, snd (bus_connections_check_reply 2 1 demo_reply demo_pending))"
    by (simp add: prod_eq_iff)
  have pending: "pending_ok demo_pending"
    by (simp add: pending_ok_def demo_pending_def demo_bus_def owed_def pending_count_def)
  show ?thesis
    using ok reply_accepted_once [OF pending run, of "msg_args demo_reply"] by simp
qed

section \<open>Transactions\<close>

definition messages_for :: "conn \<Rightarrow> (conn \<times> DBusMessage) list \<Rightarrow> DBusMessage list" where
  "messages_for c ms = map snd (filter (\<lambda>x. fst x = c) ms)"

text \<open>Messages are queued with the connections; nothing is in the outgoing queues yet.\<close>

definition queued :: "BusContext \<Rightarrow> (conn \<times> DBusMessage) list \<Rightarrow> BusContext \<Rightarrow> bool" where
  "queued s ms t \<longleftrightarrow>
     conns t = (\<lambda>c. map_option (\<lambda>d. d \<lparr> cd_transaction_messages := rev (messages_for c ms) \<rparr>) (conns s c)) \<and>
     set (tr_connections (transaction t)) = fst ` set ms \<and> distinct (tr_connections (transaction t)) \<and>
     tr_cancel_hooks (transaction t) = [] \<and> oom t = []"

definition idle :: "BusContext \<Rightarrow> bool" where
  "idle s \<longleftrightarrow>
     (\<forall>c d. conns s c = Some d \<longrightarrow> cd_transaction_messages d = []) \<and>
     tr_connections (transaction s) = [] \<and> tr_cancel_hooks (transaction s) = [] \<and> oom s = []"

definition sendable :: "BusContext \<Rightarrow> conn \<times> DBusMessage \<Rightarrow> bool" where
  "sendable s x \<longleftrightarrow> msg_sender (snd x) \<noteq> None \<and> (\<exists>d. conns s (fst x) = Some d \<and> cd_connected d)"

lemma foreachB_append: "foreachB f (xs @ ys) = thenB (foreachB f xs) (foreachB f ys)"
  by (induction xs) (auto simp: fun_eq_iff bus_op_defs split: prod.split sum.split)

lemma messages_for_Nil: "messages_for c ms = [] \<longleftrightarrow> c \<notin> fst ` set ms"
  by (auto simp: messages_for_def filter_empty_conv)

lemma send_queued:
  assumes "queued s ms t" and "sendable s (c, m)"
  shows "\<exists>u. bus_transaction_send c m t = (Inr (), u) \<and> queued s (ms @ [(c, m)]) u"
proof -
  obtain d where d: "conns s c = Some d" "cd_connected d"
    using assms(2) by (auto simp: sendable_def)
  have conns: "conns t c = Some (d \<lparr> cd_transaction_messages := rev (messages_for c ms) \<rparr>)"
    using assms(1) d by (simp add: queued_def)
  have other: "messages_for c' (ms @ [(c, m)]) = (if c' = c then messages_for c ms @ [m] else messages_for c' ms)" for c'
    by (simp add: messages_for_def)
  have alloc: "allocB t = (Inr (), t)"
    using assms(1) by (simp add: allocB_def queued_def)
  show ?thesis
  proof (cases "c \<in> fst ` set ms")
    case True
    then have "rev (messages_for c ms) \<noteq> []"
      using messages_for_Nil by auto
    then show ?thesis
      using assms d conns alloc True
      by (auto simp: bus_transaction_send_def update_conn_def get_conn_def bus_op_defs sendable_def queued_def other
          fun_eq_iff)
  next
    case False
    then have "messages_for c ms = []"
      using messages_for_Nil by auto
    then show ?thesis
      using assms d conns alloc False
      by (auto simp: bus_transaction_send_def update_conn_def get_conn_def bus_op_defs sendable_def queued_def other
          fun_eq_iff allocB_def)
  qed
qed

lemma sends_queued:
  assumes "idle s" and "list_all (sendable s) ms"
  shows "\<exists>t. foreachB (case_prod bus_transaction_send) ms s = (Inr (), t) \<and> queued s ms t"
  using assms(2)
proof (induction ms rule: rev_induct)
  case Nil
  have "conns s = (\<lambda>c. map_option (\<lambda>d. d \<lparr> cd_transaction_messages := [] \<rparr>) (conns s c))"
  proof
    fix c
    show "conns s c = map_option (\<lambda>d. d \<lparr> cd_transaction_messages := [] \<rparr>) (conns s c)"
      using assms(1) by (cases "conns s c") (auto simp: idle_def)
  qed
  then show ?case
    using assms(1) by (simp add: returnB_def queued_def messages_for_def idle_def)
next
  case (snoc x ms)
  then obtain t where t: "foreachB (case_prod bus_transaction_send) ms s = (Inr (), t)" "queued s ms t"
    by auto
  obtain c m where x: "x = (c, m)"
    by fastforce
  obtain u where "bus_transaction_send c m t = (Inr (), u)" "queued s (ms @ [x]) u"
    using send_queued [OF t(2), of c m] snoc.prems by (auto simp: x)
  then show ?case
    using t by (auto simp: foreachB_append bus_op_defs x)
qed

lemma send_all_preallocated:
  "conns s c = Some d \<Longrightarrow>
     foreachB (dbus_connection_send_preallocated c) ms s =
       (Inr (), s \<lparr> conns := (conns s)(c \<mapsto> d \<lparr> cd_outgoing := cd_outgoing d @ ms \<rparr>) \<rparr>)"
  by (induction ms arbitrary: s d)
    (simp_all add: dbus_connection_send_preallocated_def update_conn_def get_conn_def bus_op_defs fun_upd_idem)

lemma execute_connection:
  assumes "conns s c = Some d"
  shows "connection_execute_transaction c s =
    (Inr (), s \<lparr> conns := (conns s)(c \<mapsto> d \<lparr> cd_transaction_messages := [],
                    cd_outgoing := cd_outgoing d @ rev (cd_transaction_messages d) \<rparr>) \<rparr>)"
  using assms
  by (simp add: connection_execute_transaction_def update_conn_def get_conn_def bus_op_defs send_all_preallocated)

lemma execute_connections:
  assumes "distinct cs" and "\<And>c. c \<in> set cs \<Longrightarrow> conns s c \<noteq> None"
  shows "foreachB connection_execute_transaction cs s =
    (Inr (), s \<lparr> conns := (\<lambda>c. if c \<in> set cs
       then map_option (\<lambda>d. d \<lparr> cd_transaction_messages := [],
                                 cd_outgoing := cd_outgoing d @ rev (cd_transaction_messages d) \<rparr>) (conns s c)
       else conns s c) \<rparr>)"
  using assms
proof (induction cs arbitrary: s)
  case Nil
  then show ?case
    by (simp add: returnB_def)
next
  case (Cons c cs)
  obtain d where d: "conns s c = Some d"
    using Cons.prems(2) [of c] by auto
  let ?s = "s \<lparr> conns := (conns s)(c \<mapsto> d \<lparr> cd_transaction_messages := [],
                    cd_outgoing := cd_outgoing d @ rev (cd_transaction_messages d) \<rparr>) \<rparr>"
  have "conns ?s c' \<noteq> None" if "c' \<in> set cs" for c'
    using that Cons.prems(2) by auto
  then show ?case
    using Cons.IH [of ?s] Cons.prems(1) d
    by (auto simp: bus_op_defs execute_connection [OF d] fun_eq_iff intro!: arg_cong [where f = "\<lambda>x. s \<lparr> conns := x \<rparr>"])
qed

text \<open>
  C8: The messages of a transaction stay with their connections until it is
  executed; then every connection gets its messages, in the order in which they
  were sent, and the transaction is empty again.
\<close>

theorem transaction_delivers:
  assumes "idle s" and "list_all (sendable s) ms"
  shows "\<exists>s'. thenB (foreachB (case_prod bus_transaction_send) ms) bus_transaction_execute_and_free s = (Inr (), s') \<and>
    idle s' \<and>
    (\<forall>c. map_option cd_outgoing (conns s' c) = map_option (\<lambda>d. cd_outgoing d @ messages_for c ms) (conns s c))"
proof -
  obtain t where t: "foreachB (case_prod bus_transaction_send) ms s = (Inr (), t)" "queued s ms t"
    using sends_queued [OF assms] by auto
  have known: "conns t c \<noteq> None" if "c \<in> set (tr_connections (transaction t))" for c
    using that t(2) assms(2) by (auto simp: queued_def list_all_iff sendable_def)
  note run = execute_connections [of "tr_connections (transaction t)" t]
  have "bus_transaction_execute_and_free t = (Inr (), t \<lparr>
      conns := (\<lambda>c. if c \<in> set (tr_connections (transaction t))
       then map_option (\<lambda>d. d \<lparr> cd_transaction_messages := [],
                                 cd_outgoing := cd_outgoing d @ rev (cd_transaction_messages d) \<rparr>) (conns t c)
       else conns t c), transaction := \<lparr> tr_connections = [], tr_cancel_hooks = [] \<rparr> \<rparr>)"
    using run known t(2) by (simp add: bus_transaction_execute_and_free_def bus_op_defs queued_def)
  then show ?thesis
    using t
    by (auto simp: thenB_def bindB_def queued_def idle_def option.map_comp comp_def messages_for_Nil [THEN iffD2])
qed

lemma idle_demo_bus: "idle demo_bus"
  by (auto simp: idle_def demo_bus_def demo_connection_def split: if_splits)

theorem transaction_delivers_witness:
  "\<exists>s'. thenB (foreachB (case_prod bus_transaction_send)
        [(1, demo_call \<lparr> msg_sender := Some (str '':1.2'') \<rparr>), (2, demo_reply \<lparr> msg_sender := Some (str '':1.1'') \<rparr>)])
      bus_transaction_execute_and_free demo_bus = (Inr (), s') \<and>
    map_option cd_outgoing (conns s' 1) = Some [demo_call \<lparr> msg_sender := Some (str '':1.2'') \<rparr>]"
proof -
  let ?ms = "[(1, demo_call \<lparr> msg_sender := Some (str '':1.2'') \<rparr>), (2, demo_reply \<lparr> msg_sender := Some (str '':1.1'') \<rparr>)]"
  have "list_all (sendable demo_bus) ?ms"
    by (simp add: sendable_def demo_bus_def demo_connection_def)
  from transaction_delivers [OF idle_demo_bus this] obtain s' where
    "thenB (foreachB (case_prod bus_transaction_send) ?ms) bus_transaction_execute_and_free demo_bus = (Inr (), s')"
    "map_option cd_outgoing (conns s' 1) = map_option (\<lambda>d. cd_outgoing d @ messages_for 1 ?ms) (conns demo_bus 1)"
    by blast
  moreover have "map_option (\<lambda>d. cd_outgoing d @ messages_for 1 ?ms) (conns demo_bus 1) =
      Some [demo_call \<lparr> msg_sender := Some (str '':1.2'') \<rparr>]"
    by (simp add: messages_for_def demo_bus_def demo_connection_def)
  ultimately show ?thesis
    by auto
qed

lemma cancel_connections:
  assumes "\<And>c. c \<in> set cs \<Longrightarrow> conns s c \<noteq> None"
  shows "foreachB connection_cancel_transaction cs s =
    (Inr (), s \<lparr> conns := (\<lambda>c. if c \<in> set cs
       then map_option (\<lambda>d. d \<lparr> cd_transaction_messages := [] \<rparr>) (conns s c) else conns s c) \<rparr>)"
  using assms
proof (induction cs arbitrary: s)
  case Nil
  then show ?case
    by (simp add: returnB_def)
next
  case (Cons c cs)
  obtain d where d: "conns s c = Some d"
    using Cons.prems [of c] by auto
  let ?s = "s \<lparr> conns := (conns s)(c \<mapsto> d \<lparr> cd_transaction_messages := [] \<rparr>) \<rparr>"
  have "conns ?s c' \<noteq> None" if "c' \<in> set cs" for c'
    using that Cons.prems by auto
  then show ?case
    using Cons.IH [of ?s] d
    by (auto simp: bus_op_defs connection_cancel_transaction_def update_conn_def get_conn_def fun_eq_iff
        intro!: arg_cong [where f = "\<lambda>x. s \<lparr> conns := x \<rparr>"])
qed

text \<open>
  C12: When the transaction is cancelled instead, nothing is delivered and every
  connection is left exactly as it was.
\<close>

theorem cancelled_transaction_sends_nothing:
  assumes "idle s" and "list_all (sendable s) ms"
  shows "\<exists>s'. thenB (foreachB (case_prod bus_transaction_send) ms) bus_transaction_cancel_and_free s = (Inr (), s') \<and>
    idle s' \<and> conns s' = conns s"
proof -
  obtain t where t: "foreachB (case_prod bus_transaction_send) ms s = (Inr (), t)" "queued s ms t"
    using sends_queued [OF assms] by auto
  have known: "conns t c \<noteq> None" if "c \<in> set (tr_connections (transaction t))" for c
    using that t(2) assms(2) by (auto simp: queued_def list_all_iff sendable_def)
  let ?cs = "\<lambda>c. if c \<in> set (tr_connections (transaction t))
       then map_option (\<lambda>d. d \<lparr> cd_transaction_messages := [] \<rparr>) (conns t c) else conns t c"
  have run: "bus_transaction_cancel_and_free t = (Inr (), t \<lparr>
      conns := ?cs, transaction := \<lparr> tr_connections = [], tr_cancel_hooks = [] \<rparr> \<rparr>)"
    using cancel_connections [of "tr_connections (transaction t)" t] known t(2)
    by (simp add: bus_transaction_cancel_and_free_def bus_op_defs queued_def)
  have "?cs c = conns s c" for c
    using t(2) assms(1)
    by (cases "conns s c") (auto simp: queued_def idle_def messages_for_Nil [THEN iffD2])
  then have "?cs = conns s"
    by (simp add: fun_eq_iff)
  then show ?thesis
    using t run assms(1) by (auto simp: thenB_def bindB_def queued_def idle_def)
qed

theorem cancelled_transaction_sends_nothing_witness:
  "\<exists>s'. thenB (foreachB (case_prod bus_transaction_send) [(1, demo_call \<lparr> msg_sender := Some (str '':1.2'') \<rparr>)])
      bus_transaction_cancel_and_free demo_bus = (Inr (), s') \<and> conns s' = conns demo_bus"
proof -
  have "list_all (sendable demo_bus) [(1, demo_call \<lparr> msg_sender := Some (str '':1.2'') \<rparr>)]"
    by (simp add: sendable_def demo_bus_def demo_connection_def)
  from cancelled_transaction_sends_nothing [OF idle_demo_bus this] show ?thesis
    by blast
qed

end
