(* ===== verification/Bus_Invariants.thy ===== *)
theory Bus_Invariants
  imports Bus_Frames Bus_Delivery
begin

text \<open>
  What holds of the daemon as a whole, whatever messages arrive, clients come
  and go, timers fire and allocations fail: unique names are never given out
  twice, and no message of a transaction is left behind.  The invariants are
  instances of the locales of \<open>Bus_Frames\<close> and are stated over \<open>daemon_step\<close>, the
  step relation of all entry points.
\<close>

section \<open>Unique names are numbered\<close>

lemma dot_not_digit: "n < 10 \<Longrightarrow> (48 + of_nat n :: byte) \<noteq> 46"
proof
  assume n: "n < 10" and "(48 + of_nat n :: byte) = 46"
  then have "unat (48 + of_nat n :: byte) = unat (46 :: byte)"
    by (rule_tac arg_cong)
  then show False
    using unat_digit [OF n] by simp
qed

lemma dot_not_in_decimal: "46 \<notin> set (decimal n)"
proof (induction n rule: decimal.induct)
  case (1 n)
  then show ?case
    using dot_not_digit [of "n mod 10"] dot_not_digit [of n]
    by (subst decimal.simps) (auto simp del: decimal.simps)
qed

text \<open>The name with number \<open>p\<close>: the minor number runs through the nonnegative C ints.\<close>

definition client_name :: "nat \<Rightarrow> dbus_string" where
  "client_name p = str '':'' @ decimal (p div 2 ^ 31) @ str ''.'' @ decimal (p mod 2 ^ 31)"

lemma dot_separates:
  assumes "xs @ 46 # ys = xs' @ 46 # ys'" "(46 :: byte) \<notin> set xs" "46 \<notin> set xs'"
  shows "xs = xs' \<and> ys = ys'"
proof -
  have split: "takeWhile (\<lambda>b. b \<noteq> 46) (zs @ 46 # vs) = zs" "dropWhile (\<lambda>b. b \<noteq> 46) (zs @ 46 # vs) = 46 # vs"
    if "(46 :: byte) \<notin> set zs" for zs vs
    using that by (induction zs) auto
  show ?thesis
    using assms split by (metis list.inject)
qed

lemma client_name_inject: "client_name p = client_name q \<longleftrightarrow> p = q"
proof
  assume "client_name p = client_name q"
  then have "decimal (p div 2 ^ 31) = decimal (q div 2 ^ 31) \<and> decimal (p mod 2 ^ 31) = decimal (q mod 2 ^ 31)"
    unfolding client_name_def by (intro dot_separates dot_not_in_decimal) (simp del: decimal.simps)
  then show "p = q"
    by (metis decimal_inject div_mult_mod_eq)
qed simp

text \<open>No name from here on has a smaller number.\<close>

definition name_base :: "BusContext \<Rightarrow> nat" where
  "name_base s =
     (let major = sint (next_major_number s); minor = sint (next_minor_number s)
      in nat (if minor < 0 then (major + 1) * 2 ^ 31 else major * 2 ^ 31 + minor))"

lemma c_int_cases:
  obtains k where "unat (w :: 32 word) = k" "k < 4294967296"
    "sint w = (if k < 2147483648 then int k else int k - 4294967296)"
proof
  show "unat w < 4294967296"
    using unsigned_less [of w, where ?'a = nat] by simp
  show "sint w = (if unat w < 2147483648 then int (unat w) else int (unat w) - 4294967296)"
    using sint_unat_cases [of w] by simp
qed simp

lemma sint_succ: "sint (w + 1 :: 32 word) = (if sint w = 2 ^ 31 - 1 then - (2 ^ 31) else sint w + 1)"
proof -
  obtain k where k: "unat w = k" "k < 4294967296" "sint w = (if k < 2147483648 then int k else int k - 4294967296)"
    by (rule c_int_cases)
  have "unat (w + 1) = (if k = 4294967295 then 0 else k + 1)"
    using k by (auto simp: unat_word_ariths)
  moreover obtain l where "unat (w + 1) = l" "sint (w + 1) = (if l < 2147483648 then int l else int l - 4294967296)"
    by (rule c_int_cases)
  ultimately show ?thesis
    using k by auto
qed

lemma unat_sint: "0 \<le> sint (w :: 32 word) \<Longrightarrow> unat w = nat (sint w)"
  by (rule c_int_cases [of w]) (auto split: if_splits)

lemma sint_less: "sint (w :: 32 word) < 2 ^ 31"
proof -
  obtain k where "k < 4294967296" "sint w = (if k < 2147483648 then int k else int k - 4294967296)"
    by (rule c_int_cases)
  then show ?thesis
    by auto
qed

lemma unique_name_number:
  assumes "0 < sint major" "0 \<le> sint minor"
  shows "unique_name major minor = client_name (nat (sint major * 2 ^ 31 + sint minor))"
proof -
  have "nat (sint major * 2 ^ 31 + sint minor) = nat (sint major) * 2 ^ 31 + nat (sint minor)"
    using assms by (simp add: nat_add_distrib nat_mult_distrib)
  moreover have "nat (sint minor) < 2 ^ 31"
    using sint_less [of minor] by simp
  ultimately show ?thesis
    using assms by (simp add: unique_name_def client_name_def unat_sint del: decimal.simps)
qed

lemma next_client_numbers_Inr:
  assumes run: "next_client_numbers s = (Inr (major, minor), t)"
  shows "name_base s \<le> name_base t" and "unique_name major minor = client_name (name_base t)"
    and "conns t = conns s"
    and "name_base (t \<lparr> next_minor_number := next_minor_number t + 1 \<rparr>) = Suc (name_base t)"
proof -
  let ?carry = "sint (next_minor_number s) \<le> 0"
  have t: "major = next_major_number t" "minor = next_minor_number t" "0 < sint major" "0 \<le> sint minor"
    "t = (if ?carry then s \<lparr> next_major_number := next_major_number s + 1, next_minor_number := 0 \<rparr> else s)"
    using run by (auto simp: next_client_numbers_def whenB_def split: if_splits)
  show "unique_name major minor = client_name (name_base t)"
    using t unique_name_number [of major minor] by (simp add: name_base_def Let_def)
  show "conns t = conns s"
    using t by simp
  have "sint major = sint (next_major_number s) + 1 \<and> sint minor = 0" if ?carry
    using that t sint_succ [of "next_major_number s"] by (auto split: if_splits)
  then show "name_base s \<le> name_base t"
    using t(1,2,5) by (auto simp: name_base_def Let_def)
  have "sint (minor + 1) = (if sint minor = 2 ^ 31 - 1 then - (2 ^ 31) else sint minor + 1)"
    by (rule sint_succ)
  then show "name_base (t \<lparr> next_minor_number := next_minor_number t + 1 \<rparr>) = Suc (name_base t)"
    using t(1-4) sint_less [of minor] by (auto simp: name_base_def Let_def nat_add_distrib nat_mult_distrib)
qed

section \<open>Unique names are given out once\<close>

definition holds_name :: "BusContext \<Rightarrow> conn \<Rightarrow> dbus_string \<Rightarrow> bool" where
  "holds_name s c n = (case conns s c of None \<Rightarrow> False | Some d \<Rightarrow> cd_name d = Some n)"

definition names_ok :: "BusContext \<Rightarrow> bool" where
  "names_ok s \<longleftrightarrow>
     (\<forall>c n. holds_name s c n \<longrightarrow> (\<exists>p < name_base s. n = client_name p)) \<and>
     (\<forall>c c' n. holds_name s c n \<longrightarrow> holds_name s c' n \<longrightarrow> c = c')"

definition names_grow :: "BusContext \<Rightarrow> BusContext \<Rightarrow> bool" where
  "names_grow s s' \<longleftrightarrow>
     name_base s \<le> name_base s' \<and>
     (\<forall>c n. holds_name s' c n \<longrightarrow>
        holds_name s c n \<or> (\<exists>p. name_base s \<le> p \<and> p < name_base s' \<and> n = client_name p)) \<and>
     (names_ok s \<longrightarrow> names_ok s')"

lemma names_grow_refl: "names_grow s s"
  by (simp add: names_grow_def)

lemma names_grow_trans: "names_grow s t \<Longrightarrow> names_grow t u \<Longrightarrow> names_grow s u"
  unfolding names_grow_def by (meson le_trans less_le_trans)

text \<open>Changes that give no connection a name.\<close>

lemma names_grow_shrink:
  assumes "name_base s \<le> name_base s'" "\<And>c n. holds_name s' c n \<Longrightarrow> holds_name s c n"
  shows "names_grow s s'"
  using assms unfolding names_grow_def names_ok_def by (meson less_le_trans)

lemma names_grow_same:
  assumes "next_major_number s' = next_major_number s" "next_minor_number s' = next_minor_number s"
    "\<And>c n. holds_name s' c n \<Longrightarrow> holds_name s c n"
  shows "names_grow s s'"
  using assms by (intro names_grow_shrink) (simp_all add: name_base_def)

interpretation names_base: frame_relation names_grow
  by unfold_locales (auto intro: names_grow_refl names_grow_trans)

lemma names_modify:
  assumes "\<And>s. next_major_number (g s) = next_major_number s" "\<And>s. next_minor_number (g s) = next_minor_number s"
    "\<And>s c n. holds_name (g s) c n \<Longrightarrow> holds_name s c n"
  shows "steps names_grow (modifyB g)"
  using assms by (intro steps_modify names_grow_same) simp_all

lemma names_alloc [steps_intros]: "steps names_grow allocB"
  by (intro names_base.steps_alloc names_grow_same) (simp_all add: holds_name_def)

lemma names_update_conn:
  assumes "\<And>d. cd_name (f d) = cd_name d"
  shows "steps names_grow (update_conn c f)"
  unfolding steps_def update_conn_def get_conn_def
  using assms
  by (auto simp: bindB_def derefB_def modifyB_def holds_name_def intro!: names_grow_same names_grow_refl
      split: option.splits if_splits)

lemma names_transaction_send: "steps names_grow (bus_transaction_send c m)"
  unfolding bus_transaction_send_def get_conn_def
  by (intro steps_intros names_update_conn names_modify) (simp_all add: holds_name_def)

interpretation names_requests: requests_frame names_grow
proof
  show "steps names_grow (bus_transaction_send c m)" for c m
    by (rule names_transaction_send)
  show "steps names_grow (update_conn c f)" if "\<And>d. account_of (f d) = account_of d" for c f
    using that by (intro names_update_conn) (auto simp: account_of_def)
qed (auto simp: bus_transaction_add_cancel_hook_def bus_connections_increment_stamp_def holds_name_def
    intro!: steps_intros names_modify names_update_conn)

definition only_memory :: "BusContext \<Rightarrow> BusContext \<Rightarrow> bool" where
  "only_memory s s' \<longleftrightarrow> (\<exists>v. s' = s \<lparr> oom := v \<rparr>)"

interpretation memory: frame_relation only_memory
proof
  show "only_memory s s" for s
    unfolding only_memory_def by (rule exI [of _ "oom s"]) simp
  show "only_memory s u" if "only_memory s t" "only_memory t u" for s t u
    using that by (auto simp: only_memory_def)
qed

lemma memory_allocs: "steps only_memory (foreachB (\<lambda>_. allocB) xs)"
  by (intro memory.steps_foreach memory.steps_alloc) (auto simp: only_memory_def)

lemma next_client_numbers_error: "next_client_numbers s = (Inl e, t) \<Longrightarrow> e = Abort"
  by (auto simp: next_client_numbers_def bus_op_defs split: prod.splits sum.splits if_splits)

lemma bindB_result:
  assumes "bindB m g s = (r, u)" "r \<noteq> Inl Abort"
  obtains e where "m s = (Inl e, u)" "r = Inl e" "e \<noteq> Abort"
  | x t where "m s = (Inr x, t)" "g x t = (r, u)"
  using assms by (auto simp: bindB_def split: prod.splits sum.splits)

lemma thenB_result:
  assumes "thenB m g s = (r, u)" "r \<noteq> Inl Abort"
  obtains e where "m s = (Inl e, u)" "r = Inl e" "e \<noteq> Abort"
  | x t where "m s = (Inr x, t)" "g t = (r, u)"
  using assms by (auto simp: thenB_def elim: bindB_result)

lemma create_round:
  assumes "create_unique_client_name (Suc k) s = (r, t)" "r \<noteq> Inl Abort"
  obtains major minor s1 v where "next_client_numbers s = (Inr (major, minor), s1)"
      "\<And>n. r \<noteq> Inr n" "t = s1 \<lparr> oom := v \<rparr>"
  | major minor s1 v where "next_client_numbers s = (Inr (major, minor), s1)"
      "r = Inr (unique_name major minor)"
      "t = s1 \<lparr> oom := v, next_minor_number := next_minor_number s1 + 1 \<rparr>" "service_hash s (unique_name major minor) = None"
  | major minor s1 v where "next_client_numbers s = (Inr (major, minor), s1)"
      "create_unique_client_name k (s1 \<lparr> oom := v, next_minor_number := next_minor_number s1 + 1 \<rparr>) = (r, t)"
proof -
  define body where "body = (\<lambda>(major, minor). thenB (foreachB (\<lambda>_. allocB) [1 :: nat ..< 5])
      (thenB (modifyB (\<lambda>s. s \<lparr> next_minor_number := next_minor_number s + 1 \<rparr>))
      (bindB (bus_registry_lookup (unique_name major minor)) (\<lambda>found.
         if found = None then returnB (unique_name major minor) else create_unique_client_name k))))"
  have "bindB next_client_numbers body s = (r, t)"
    using assms(1) unfolding create_unique_client_name.simps body_def .
  from this assms(2) obtain x s1 where "next_client_numbers s = (Inr x, s1)" "body x s1 = (r, t)"
    by (rule bindB_result) (simp add: next_client_numbers_error)
  then obtain major minor where numbers: "next_client_numbers s = (Inr (major, minor), s1)"
    and rest: "body (major, minor) s1 = (r, t)"
    by (cases x) simp
  have hash: "service_hash s1 = service_hash s"
    using numbers by (auto simp: next_client_numbers_def whenB_def split: if_splits)
  from rest [unfolded body_def prod.case] assms(2) show thesis
  proof (rule thenB_result)
    fix e
    assume "foreachB (\<lambda>_. allocB) [1 :: nat ..< 5] s1 = (Inl e, t)" "r = Inl e" "e \<noteq> Abort"
    then show thesis
      using steps_result [OF memory_allocs, of _ s1 "Inl e" t] that(1) [OF numbers] by (auto simp: only_memory_def)
  next
    fix x s2
    assume "foreachB (\<lambda>_. allocB) [1 :: nat ..< 5] s1 = (Inr x, s2)"
      and last: "thenB (modifyB (\<lambda>s. s \<lparr> next_minor_number := next_minor_number s + 1 \<rparr>))
      (bindB (bus_registry_lookup (unique_name major minor)) (\<lambda>found.
         if found = None then returnB (unique_name major minor) else create_unique_client_name k)) s2 = (r, t)"
    then obtain v where "s2 = s1 \<lparr> oom := v \<rparr>"
      using stepsD [OF memory_allocs] unfolding only_memory_def by metis
    then show thesis
      using last hash that(2) [OF numbers, of v] that(3) [OF numbers, of v]
      by (simp add: bus_op_defs bus_registry_lookup_def split: if_splits)
  qed
qed

lemma create_unique_client_name_number:
  assumes "create_unique_client_name k s = (r, t)" "r \<noteq> Inl Abort"
  shows "conns t = conns s \<and> name_base s \<le> name_base t \<and>
    (\<forall>n. r = Inr n \<longrightarrow> (\<exists>p. name_base s \<le> p \<and> p < name_base t \<and> n = client_name p))"
  using assms
proof (induction k arbitrary: s)
  case 0
  then show ?case
    by (simp add: raiseB_def)
next
  case (Suc k)
  have memory: "name_base (u \<lparr> oom := v \<rparr>) = name_base u"
    "name_base (u \<lparr> oom := v, next_minor_number := x \<rparr>) = name_base (u \<lparr> next_minor_number := x \<rparr>)" for u v x
    by (simp_all add: name_base_def)
  let ?next = "\<lambda>s1 v. s1 \<lparr> oom := v, next_minor_number := next_minor_number s1 + 1 \<rparr>"
  from Suc.prems show ?case
  proof (rule create_round)
    fix major minor s1 v
    assume numbers: "next_client_numbers s = (Inr (major, minor), s1)"
    note s1 = next_client_numbers_Inr [OF numbers]
    {
      assume "\<And>n. r \<noteq> Inr n" "t = s1 \<lparr> oom := v \<rparr>"
      then show ?thesis
        using s1 by (simp add: memory)
    next
      assume "r = Inr (unique_name major minor)" "t = ?next s1 v"
      then show ?thesis
        using s1 by (auto simp: memory)
    next
      assume run: "create_unique_client_name k (?next s1 v) = (r, t)"
      have "conns (?next s1 v) = conns s" "name_base s \<le> name_base (?next s1 v)"
        using s1 by (simp_all add: memory)
      then show ?thesis
        using Suc.IH [OF run Suc.prems(2)] le_trans by metis
    }
  qed
qed

text \<open>Completing a connection gives a name to this connection at most.\<close>

definition may_name :: "conn \<Rightarrow> dbus_string \<Rightarrow> BusContext \<Rightarrow> BusContext \<Rightarrow> bool" where
  "may_name c n s s' \<longleftrightarrow>
     next_major_number s' = next_major_number s \<and> next_minor_number s' = next_minor_number s \<and>
     (\<forall>c' n'. holds_name s' c' n' \<longrightarrow> holds_name s c' n' \<or> c' = c \<and> n' = n)"

interpretation naming: frame_relation "may_name c n" for c n
  by unfold_locales (auto simp: may_name_def)

lemma naming_alloc: "steps (may_name c n) allocB"
  by (rule naming.steps_alloc) (simp add: may_name_def holds_name_def)

lemma naming_modify:
  assumes "\<And>s. conns (g s) = conns s \<and> next_major_number (g s) = next_major_number s \<and>
    next_minor_number (g s) = next_minor_number s"
  shows "steps (may_name c n) (modifyB g)"
  using assms by (intro steps_modify) (simp add: may_name_def holds_name_def)

lemma naming_update_conn:
  assumes "\<And>d. cd_name (f d) \<in> {cd_name d, None} \<or> c' = c \<and> cd_name (f d) = Some n"
  shows "steps (may_name c n) (update_conn c' f)"
proof -
  have "may_name c n s (s \<lparr> conns := (conns s)(c' \<mapsto> f d) \<rparr>)" if "conns s c' = Some d" for s d
    using that assms [of d] by (auto simp: may_name_def holds_name_def)
  then show ?thesis
    by (auto simp: steps_def update_conn_def get_conn_def bindB_def derefB_def modifyB_def split: option.splits)
qed

lemma naming_close: "steps (may_name c n) (dbus_connection_close c')"
  unfolding dbus_connection_close_def by (rule naming_update_conn) simp

lemma naming_expire_loop: "steps (may_name c n) (expire_incomplete_loop cs)"
  by (induction cs) (auto simp: get_conn_def intro!: steps_intros naming_close)

lemma naming_complete: "steps (may_name c n) (bus_connection_complete c n)"
  unfolding bus_connection_complete_def get_conn_def adjust_connections_for_uid_def bus_connections_expire_incomplete_def
  by (intro steps_intros naming_update_conn naming_alloc naming_modify naming_expire_loop) simp_all

lemma names_grow_new:
  assumes p: "name_base s \<le> p" "p < name_base u"
    and new: "\<And>c' n. holds_name u c' n \<Longrightarrow> holds_name s c' n \<or> c' = c \<and> n = client_name p"
  shows "names_grow s u"
  unfolding names_grow_def
proof (intro conjI impI)
  show "name_base s \<le> name_base u"
    using p by simp
  show "\<forall>c n. holds_name u c n \<longrightarrow>
      holds_name s c n \<or> (\<exists>p. name_base s \<le> p \<and> p < name_base u \<and> n = client_name p)"
    using p new by blast
  assume ok: "names_ok s"
  have old: "n \<noteq> client_name p" if held: "holds_name s c' n" for c' n
  proof -
    obtain q where "q < name_base s" "n = client_name q"
      using ok held unfolding names_ok_def by blast
    then show ?thesis
      using p by (simp add: client_name_inject)
  qed
  have "\<exists>q < name_base u. n = client_name q" if held: "holds_name u c' n" for c' n
  proof (cases "holds_name s c' n")
    case True
    then obtain q where "q < name_base s" "n = client_name q"
      using ok unfolding names_ok_def by blast
    then show ?thesis
      using p by (intro exI [of _ q]) simp
  qed (use new [OF held] p in auto)
  moreover have "c1 = c2" if "holds_name u c1 n" "holds_name u c2 n" for c1 c2 n
    using new [OF that(1)] new [OF that(2)] old ok unfolding names_ok_def by blast
  ultimately show "names_ok u"
    unfolding names_ok_def by blast
qed

lemma names_create_and_complete:
  assumes "\<And>n. steps names_grow (rest n)"
  shows "steps names_grow (bindB (create_unique_client_name k) (\<lambda>n. thenB (bus_connection_complete c n) (rest n)))"
  unfolding steps_def
proof (intro allI impI)
  fix s r u
  assume "bindB (create_unique_client_name k) (\<lambda>n. thenB (bus_connection_complete c n) (rest n)) s = (r, u)"
    and r: "r \<noteq> Inl Abort"
  then show "names_grow s u"
  proof (rule bindB_result)
    fix e
    assume "create_unique_client_name k s = (Inl e, u)" "e \<noteq> Abort"
    then show ?thesis
      using create_unique_client_name_number [of k s "Inl e" u]
      by (intro names_grow_shrink) (simp_all add: holds_name_def)
  next
    fix n t
    assume "create_unique_client_name k s = (Inr n, t)"
    then obtain p where p: "conns t = conns s" "name_base s \<le> p" "p < name_base t" "n = client_name p"
      using create_unique_client_name_number [of k s "Inr n" t] by auto
    have named: "names_grow s u'" if "may_name c n t u'" for u'
      using that p by (intro names_grow_new [of s p]) (auto simp: may_name_def name_base_def holds_name_def)
    assume "thenB (bus_connection_complete c n) (rest n) t = (r, u)"
    then show ?thesis
      using r
    proof (rule thenB_result)
      show ?thesis if "bus_connection_complete c n t = (Inl e, u)" "e \<noteq> Abort" for e
        using steps_result [OF naming_complete that(1)] that(2) named by simp
      show ?thesis if "bus_connection_complete c n t = (Inr x, v)" "rest n v = (r, u)" for x v
        using stepsD [OF naming_complete that(1)] steps_result [OF assms that(2) r] named names_grow_trans by blast
    qed
  qed
qed

lemma names_hello: "steps names_grow (bus_driver_handle_hello c m)"
  unfolding bus_driver_handle_hello_def
  by (intro steps_intros names_create_and_complete)

interpretation names_frame: daemon_frame names_grow
  by unfold_locales
    (auto simp: holds_name_def split: if_splits intro!: names_hello names_modify names_update_conn)

section \<open>No message is left in a queue\<close>

text \<open>The connections that have messages of the transaction waiting are among the given ones.\<close>

definition waiting_in :: "conn set \<Rightarrow> BusContext \<Rightarrow> bool" where
  "waiting_in cs s \<longleftrightarrow> (\<forall>c d. conns s c = Some d \<longrightarrow> cd_transaction_messages d \<noteq> [] \<longrightarrow> c \<in> cs)"

definition settled :: "BusContext \<Rightarrow> bool" where
  "settled s \<longleftrightarrow> waiting_in {} s"

definition waiting_kept :: "BusContext \<Rightarrow> BusContext \<Rightarrow> bool" where
  "waiting_kept s s' \<longleftrightarrow> (\<forall>cs. waiting_in cs s \<longrightarrow> waiting_in cs s')"

lemma waiting_modify:
  assumes "\<And>s. conns (g s) = conns s"
  shows "steps waiting_kept (modifyB g)"
  using assms by (intro steps_modify) (simp add: waiting_kept_def waiting_in_def)

lemma waiting_update_conn:
  assumes "\<And>d. cd_transaction_messages (f d) \<in> {cd_transaction_messages d, []}"
  shows "steps waiting_kept (update_conn c f)"
proof -
  have "waiting_kept s (s \<lparr> conns := (conns s)(c \<mapsto> f d) \<rparr>)" if "conns s c = Some d" for s d
    using that assms [of d] by (auto simp: waiting_kept_def waiting_in_def)
  then show ?thesis
    by (auto simp: steps_def update_conn_def get_conn_def bindB_def derefB_def modifyB_def split: option.splits)
qed

interpretation waiting_objects: objects_frame waiting_kept
  by unfold_locales (auto simp: waiting_kept_def intro!: waiting_modify waiting_update_conn)

lemma waiting_alloc [steps_intros]: "steps waiting_kept allocB"
  by (rule waiting_objects.steps_alloc) (simp add: waiting_kept_def waiting_in_def)

lemma waiting_send_preallocated [steps_intros]: "steps waiting_kept (dbus_connection_send_preallocated c m)"
  unfolding dbus_connection_send_preallocated_def by (rule waiting_update_conn) simp

text \<open>Executing or cancelling the transaction empties the queue of every member.\<close>

lemma clear_queue_Inr:
  assumes "update_conn c (\<lambda>d. d \<lparr> cd_transaction_messages := [] \<rparr>) s = (Inr u, s')" "waiting_in (insert c cs) s"
  shows "waiting_in cs s'"
  using assms by (fastforce simp: update_conn_def get_conn_def waiting_in_def split: if_splits)

lemma execute_transaction_Inr:
  assumes run: "connection_execute_transaction c s = (Inr u, s')" and queue: "waiting_in (insert c cs) s"
  shows "waiting_in cs s'"
proof -
  from run obtain d :: BusConnectionData and x t where clear: "update_conn c (\<lambda>d. d \<lparr> cd_transaction_messages := [] \<rparr>) s = (Inr x, t)"
    and sends: "foreachB (dbus_connection_send_preallocated c) (rev (cd_transaction_messages d)) t = (Inr u, s')"
    unfolding connection_execute_transaction_def get_conn_def bindB_Inr thenB_Inr derefB_Inr by blast
  have "steps waiting_kept (foreachB (dbus_connection_send_preallocated c) ms)" for ms
    by (intro steps_intros)
  from stepsD [OF this sends] show ?thesis
    using clear_queue_Inr [OF clear queue] by (simp add: waiting_kept_def)
qed

lemma empty_queues_Inr:
  assumes each: "\<And>c s u s' cs. f c s = (Inr u, s') \<Longrightarrow> waiting_in (insert c cs) s \<Longrightarrow> waiting_in cs s'"
    and "foreachB f xs s = (Inr u, s')" "waiting_in (set xs) s"
  shows "settled s'"
  using assms(2,3)
proof (induction xs arbitrary: s)
  case (Cons c xs)
  then obtain v t where "f c s = (Inr v, t)" "foreachB f xs t = (Inr u, s')"
    by auto
  then show ?case
    using Cons each [of c s v t "set xs"] by simp
qed (simp add: settled_def)

text \<open>Operations that allocate nothing and set no error.\<close>

definition infallible :: "'a bus \<Rightarrow> bool" where
  "infallible m \<longleftrightarrow> (\<forall>s e s'. m s = (Inl e, s') \<longrightarrow> e = Abort)"

lemma infallible_bind: "infallible m \<Longrightarrow> (\<And>x. infallible (g x)) \<Longrightarrow> infallible (bindB m g)"
  unfolding infallible_def bindB_def by (auto split: prod.splits sum.splits)

lemma infallible_then: "infallible m \<Longrightarrow> infallible n \<Longrightarrow> infallible (thenB m n)"
  unfolding thenB_def by (intro infallible_bind)

lemma infallible_prims: "infallible (returnB x)" "infallible (modifyB g)" "infallible (getsB h)" "infallible (derefB k)"
  by (auto simp: infallible_def returnB_def modifyB_def getsB_def derefB_def split: option.splits)

lemma infallible_foreach: "(\<And>x. infallible (f x)) \<Longrightarrow> infallible (foreachB f xs)"
  by (induction xs) (simp_all add: infallible_then infallible_prims)

lemma infallible_update_conn: "infallible (update_conn c f)"
  unfolding update_conn_def get_conn_def by (intro infallible_bind infallible_prims)

lemma infallible_abort: "infallible (raiseB Abort)"
  by (simp add: infallible_def raiseB_def)

lemma infallible_case_option:
  "infallible m \<Longrightarrow> (\<And>x. infallible (n x)) \<Longrightarrow> infallible (case opt of None \<Rightarrow> m | Some x \<Rightarrow> n x)"
  by (cases opt) auto

lemmas infallible_intros =
  infallible_abort infallible_bind infallible_then infallible_prims infallible_foreach infallible_update_conn

definition member_queues :: "BusContext \<Rightarrow> bool" where
  "member_queues s \<longleftrightarrow> waiting_in (set (tr_connections (transaction s))) s"

lemma finish_transaction_settles:
  assumes each: "\<And>c s u s' cs. f c s = (Inr u, s') \<Longrightarrow> waiting_in (insert c cs) s \<Longrightarrow> waiting_in cs s'"
    and sure: "\<And>c. infallible (f c)" and rest: "\<And>t. steps waiting_kept (rest t)"
    and run: "bindB (getsB transaction) (\<lambda>t. thenB (foreachB f (tr_connections t)) (rest t)) s = (r, s')"
      "r \<noteq> Inl Abort" and queues: "member_queues s"
  shows "settled s'"
proof -
  have run': "thenB (foreachB f (tr_connections (transaction s))) (rest (transaction s)) s = (r, s')"
    using run(1) by (simp add: bindB_def getsB_def)
  have "infallible (foreachB f (tr_connections (transaction s)))"
    using sure by (rule infallible_foreach)
  then obtain u t where t: "foreachB f (tr_connections (transaction s)) s = (Inr u, t)" "rest (transaction s) t = (r, s')"
    using thenB_result [OF run' run(2)] unfolding infallible_def by metis
  have "settled t"
    using empty_queues_Inr [of f, OF each t(1)] queues by (simp add: member_queues_def)
  then show ?thesis
    using steps_result [OF rest t(2) run(2)] by (simp add: settled_def waiting_kept_def)
qed

lemma execute_settles:
  assumes "bus_transaction_execute_and_free s = (r, s')" "r \<noteq> Inl Abort" "member_queues s"
  shows "settled s'"
proof (rule finish_transaction_settles [OF execute_transaction_Inr _ _ assms(1) [unfolded bus_transaction_execute_and_free_def] assms(2,3)])
  show "infallible (connection_execute_transaction c)" for c
    unfolding connection_execute_transaction_def get_conn_def dbus_connection_send_preallocated_def
    by (intro infallible_intros)
qed (auto intro!: steps_intros waiting_modify)

lemma cancel_settles:
  assumes "bus_transaction_cancel_and_free s = (r, s')" "r \<noteq> Inl Abort" "member_queues s"
  shows "settled s'"
proof (rule finish_transaction_settles [OF _ _ _ assms(1) [unfolded bus_transaction_cancel_and_free_def] assms(2,3)])
  show "infallible (connection_cancel_transaction c)" for c
    unfolding connection_cancel_transaction_def by (intro infallible_intros)
  show "waiting_in cs s'" if "connection_cancel_transaction c s = (Inr u, s')" "waiting_in (insert c cs) s" for c s u s' cs
    using that unfolding connection_cancel_transaction_def by (rule clear_queue_Inr)
qed (auto intro!: steps_intros waiting_modify)

text \<open>Inside a transaction, connections with waiting messages are members.\<close>

definition members_kept :: "BusContext \<Rightarrow> BusContext \<Rightarrow> bool" where
  "members_kept s s' \<longleftrightarrow> (member_queues s \<longrightarrow> member_queues s')"

interpretation members_base: frame_relation members_kept
  by unfold_locales (auto simp: members_kept_def)

lemma members_modify:
  assumes "\<And>s. conns (g s) = conns s" "\<And>s. tr_connections (transaction (g s)) = tr_connections (transaction s)"
  shows "steps members_kept (modifyB g)"
  using assms by (intro steps_modify) (simp add: members_kept_def member_queues_def waiting_in_def)

lemma members_alloc [steps_intros]: "steps members_kept allocB"
  by (rule members_base.steps_alloc) (simp add: members_kept_def member_queues_def waiting_in_def)

lemma members_update_conn:
  assumes "\<And>d. cd_transaction_messages (f d) \<in> {cd_transaction_messages d, []}"
  shows "steps members_kept (update_conn c f)"
proof -
  have "members_kept s (s \<lparr> conns := (conns s)(c \<mapsto> f d) \<rparr>)" if "conns s c = Some d" for s d
    using that assms [of d] by (auto simp: members_kept_def member_queues_def waiting_in_def)
  then show ?thesis
    by (auto simp: steps_def update_conn_def get_conn_def bindB_def derefB_def modifyB_def split: option.splits)
qed

lemma allocB_cases: "allocB s = (r, t) \<Longrightarrow> (r = Inr () \<or> r = Inl NoMemory) \<and> (\<exists>v. t = s \<lparr> oom := v \<rparr>)"
  by (auto simp: allocB_def split: list.splits if_splits intro: exI [of _ "oom s"])

text \<open>The first message of a connection: on failure it is taken out again, otherwise the connection is a member.\<close>

definition enqueue_first :: "conn \<Rightarrow> BusConnectionData \<Rightarrow> DBusMessage \<Rightarrow> unit bus" where
  "enqueue_first c d m =
     thenB (update_conn c (\<lambda>d. d \<lparr> cd_transaction_messages := m # cd_transaction_messages d \<rparr>))
       (if cd_transaction_messages d \<noteq> [] then returnB ()
        else catchB allocB
               (\<lambda>e. thenB (update_conn c (\<lambda>d. d \<lparr> cd_transaction_messages := tl (cd_transaction_messages d) \<rparr>))
                                (raiseB NoMemory))
               (\<lambda>_. modifyB (\<lambda>s. s \<lparr> transaction := (transaction s)
                                      \<lparr> tr_connections := c # tr_connections (transaction s) \<rparr> \<rparr>)))"

lemma members_enqueue_first:
  assumes run: "enqueue_first c d m s = (r, s')" "r \<noteq> Inl Abort" and d: "conns s c = Some d"
  shows "members_kept s s'"
proof (cases "cd_transaction_messages d = []")
  case True
  obtain q t v where alloc: "allocB (s \<lparr> conns := (conns s)(c \<mapsto> d \<lparr> cd_transaction_messages := [m] \<rparr>) \<rparr>) = (q, t)"
    "q = Inr () \<or> q = Inl NoMemory"
    "t = s \<lparr> conns := (conns s)(c \<mapsto> d \<lparr> cd_transaction_messages := [m] \<rparr>), oom := v \<rparr>"
    using allocB_cases by (metis surj_pair)
  then show ?thesis
    using run d True
    by (auto simp: enqueue_first_def bus_op_defs get_conn_def update_conn_def members_kept_def member_queues_def waiting_in_def
        split: if_splits)
qed (use run d in \<open>auto simp: enqueue_first_def bus_op_defs get_conn_def update_conn_def members_kept_def
       member_queues_def waiting_in_def split: if_splits\<close>)

lemma members_after_alloc:
  assumes run: "thenB allocB f s = (r, s')" "r \<noteq> Inl Abort"
    and rest: "\<And>v. f (s \<lparr> oom := v \<rparr>) = (r, s') \<Longrightarrow> members_kept (s \<lparr> oom := v \<rparr>) s'"
  shows "members_kept s s'"
proof -
  have memory: "members_kept s (s \<lparr> oom := v \<rparr>)" for v
    by (simp add: members_kept_def member_queues_def waiting_in_def)
  from run show ?thesis
  proof (rule thenB_result)
    show ?thesis if "allocB s = (Inl e, s')" for e
      using allocB_cases [OF that] memory by auto
    show ?thesis if "allocB s = (Inr x, t)" "f t = (r, s')" for x t
      using allocB_cases [OF that(1)] that(2) rest memory members_base.R_trans by blast
  qed
qed

lemma members_transaction_send: "steps members_kept (bus_transaction_send c m)"
  unfolding steps_def
proof (intro allI impI)
  fix s r s'
  assume run: "bus_transaction_send c m s = (r, s')" and r: "r \<noteq> Inl Abort"
  then obtain d where d: "conns s c = Some d"
    and rest: "(if \<not> cd_connected d then returnB ()
      else thenB allocB (thenB allocB (thenB allocB (enqueue_first c d m)))) s = (r, s')"
    unfolding bus_transaction_send_def enqueue_first_def get_conn_def
    by (auto simp: assertB_def unlessB_def derefB_def returnB_def raiseB_def elim!: thenB_result bindB_result
        split: if_splits option.splits)
  show "members_kept s s'"
  proof (cases "cd_connected d")
    case True
    then have "thenB allocB (thenB allocB (thenB allocB (enqueue_first c d m))) s = (r, s')"
      using rest by simp
    from this r show ?thesis
      using r d
      by (elim members_after_alloc) (auto intro!: members_enqueue_first)
  qed (use rest in \<open>auto simp: returnB_def members_kept_def\<close>)
qed

interpretation members_frame: hello_frame members_kept
proof
  show "steps members_kept (bus_transaction_send c m)" for c m
    by (rule members_transaction_send)
  show "steps members_kept next_client_numbers"
    unfolding next_client_numbers_def by (intro steps_intros members_modify) simp_all
  show "steps members_kept (update_conn c f)" if "\<And>d. account_of (f d) = account_of d" for c f
    using that by (intro members_update_conn) (auto simp: account_of_def)
qed (auto simp: bus_transaction_add_cancel_hook_def bus_connections_increment_stamp_def
    intro!: steps_intros members_modify members_update_conn)

text \<open>Operations that end the transaction, on every path.\<close>

definition settled_kept :: "BusContext \<Rightarrow> BusContext \<Rightarrow> bool" where
  "settled_kept s s' \<longleftrightarrow> (settled s \<longrightarrow> settled s')"

definition settles :: "'a bus \<Rightarrow> bool" where
  "settles m \<longleftrightarrow> (\<forall>s r s'. member_queues s \<longrightarrow> m s = (r, s') \<longrightarrow> r \<noteq> Inl Abort \<longrightarrow> settled s')"

interpretation settled_base: frame_relation settled_kept
  by unfold_locales (auto simp: settled_kept_def)

lemma settled_waiting: "steps waiting_kept m \<Longrightarrow> steps settled_kept m"
  unfolding steps_def waiting_kept_def settled_kept_def settled_def by blast

lemma settled_members: "settled s \<Longrightarrow> member_queues s"
  by (simp add: settled_def member_queues_def waiting_in_def)

lemma settles_kept: "settles m \<Longrightarrow> steps settled_kept m"
  unfolding settles_def steps_def settled_kept_def using settled_members by blast

lemma settles_execute: "settles bus_transaction_execute_and_free"
  unfolding settles_def using execute_settles by blast

lemma settles_cancel: "settles bus_transaction_cancel_and_free"
  unfolding settles_def using cancel_settles by blast

lemma settles_abort: "settles (raiseB Abort)"
  by (simp add: settles_def raiseB_def)

lemma settles_then:
  assumes "settles m" "steps settled_kept n"
  shows "settles (thenB m n)"
  unfolding settles_def
proof (intro allI impI)
  fix s r s'
  assume "member_queues s" and run: "thenB m n s = (r, s')" "r \<noteq> Inl Abort"
  from run show "settled s'"
  proof (rule thenB_result)
    show ?thesis if "m s = (Inl e, s')" "e \<noteq> Abort" for e
      using assms(1) that \<open>member_queues s\<close> unfolding settles_def by blast
    show ?thesis if "m s = (Inr x, t)" "n t = (r, s')" for x t
      using assms(1) that(1) \<open>member_queues s\<close> steps_result [OF assms(2) that(2) run(2)]
      unfolding settles_def settled_kept_def by blast
  qed
qed

lemma settles_bind:
  assumes "infallible m" "steps members_kept m" "\<And>x. settles (g x)"
  shows "settles (bindB m g)"
  unfolding settles_def
proof (intro allI impI)
  fix s r s'
  assume "member_queues s" and run: "bindB m g s = (r, s')" "r \<noteq> Inl Abort"
  from run show "settled s'"
  proof (rule bindB_result)
    show ?thesis if "m s = (Inl e, s')" "e \<noteq> Abort" for e
      using assms(1) that unfolding infallible_def by blast
    show ?thesis if "m s = (Inr x, t)" "g x t = (r, s')" for x t
      using assms(3) stepsD [OF assms(2) that(1)] that(2) run(2) \<open>member_queues s\<close>
      unfolding settles_def members_kept_def by blast
  qed
qed

lemma infallible_try: "infallible (tryB m)"
  by (auto simp: infallible_def tryB_def split: prod.splits sum.splits bus_error.splits)

lemma settles_catch:
  assumes "steps members_kept m" "\<And>e. settles (h e)" "\<And>x. settles (k x)"
  shows "settles (catchB m h k)"
  unfolding catchB_def
proof (rule settles_bind [OF infallible_try members_base.steps_try [OF assms(1)]])
  show "settles (case x of Inl e \<Rightarrow> h e | Inr x \<Rightarrow> k x)" for x
    using assms(2,3) by (cases x) auto
qed

lemma settles_if: "settles m \<Longrightarrow> settles n \<Longrightarrow> settles (if b then m else n)"
  by simp

lemmas settles_intros = settles_execute settles_cancel settles_abort settles_then settles_bind settles_catch settles_if

lemma settled_new [steps_intros]: "steps settled_kept bus_transaction_new"
  unfolding bus_transaction_new_def
  by (intro settled_waiting waiting_objects.steps_then waiting_alloc waiting_modify) simp

subsection \<open>Every entry point\<close>

lemma settled_alloc [steps_intros]: "steps settled_kept allocB"
  by (intro settled_waiting waiting_alloc)

lemma settled_modify: "(\<And>s. conns (g s) = conns s) \<Longrightarrow> steps settled_kept (modifyB g)"
  by (intro settled_waiting waiting_modify) simp

lemma settled_update_conn:
  "(\<And>d. cd_transaction_messages (f d) \<in> {cd_transaction_messages d, []}) \<Longrightarrow> steps settled_kept (update_conn c f)"
  by (intro settled_waiting waiting_update_conn)

lemma settled_get_conn [steps_intros]: "steps settled_kept (get_conn c)"
  by (simp add: get_conn_def steps_intros)

lemma settled_get_pending [steps_intros]: "steps settled_kept (get_pending a)"
  by (simp add: get_pending_def steps_intros)

lemma settled_close [steps_intros]: "steps settled_kept (dbus_connection_close c)"
  unfolding dbus_connection_close_def by (rule settled_update_conn) simp

lemma settled_retry_loop: "steps settled_kept m \<Longrightarrow> steps settled_kept (retry_loop n m)"
  by (induction n) (auto intro!: steps_intros)

lemma settled_retry [steps_intros]: "steps settled_kept m \<Longrightarrow> steps settled_kept (retryB m)"
  unfolding retryB_def by (intro steps_intros settled_retry_loop)

lemma settled_transaction: "settles m \<Longrightarrow> steps settled_kept (thenB bus_transaction_new m)"
  by (intro settled_base.steps_then settled_new settles_kept)

lemma settles_case_error:
  "settles m1 \<Longrightarrow> (\<And>n. settles (m2 n)) \<Longrightarrow> settles m3 \<Longrightarrow>
     settles (case e of NoMemory \<Rightarrow> m1 | BusError n \<Rightarrow> m2 n | Abort \<Rightarrow> m3)"
  by (cases e) auto

lemma settled_activation_failed [steps_intros]: "steps settled_kept (pending_activation_failed a how)"
proof -
  have "steps members_kept (send_activation_failure how request)" for request
    unfolding send_activation_failure_def by (intro steps_intros)
  then have "settles (bindB (get_pending a) (\<lambda>p.
      catchB (foreachB (send_activation_failure how) (pa_entries p))
        (\<lambda>e. thenB bus_transaction_cancel_and_free (raiseB e)) (\<lambda>_. bus_transaction_execute_and_free)))"
    by (intro settles_intros steps_intros) (simp add: get_pending_def infallible_prims)
  then have "steps settled_kept (try_send_activation_failure a how)"
    unfolding try_send_activation_failure_def by (rule settled_transaction)
  moreover have "steps settled_kept (pending_hash_remove n)" for n
    by (intro settled_waiting waiting_objects.keeps_pending_hash_remove)
  ultimately show ?thesis
    unfolding pending_activation_failed_def by (intro steps_intros)
qed

lemma settled_babysitter: "steps settled_kept (babysitter_watch_callback a e st)"
  unfolding babysitter_watch_callback_def fail_if_same_exec_def by (intro steps_intros)

lemma settled_expire_incomplete_loop: "steps settled_kept (expire_incomplete_loop cs)"
  by (induction cs) (auto intro!: steps_intros)

lemma settled_expire_incomplete [steps_intros]: "steps settled_kept bus_connections_expire_incomplete"
  unfolding bus_connections_expire_incomplete_def by (intro steps_intros settled_expire_incomplete_loop)

lemma settled_setup: "steps settled_kept (bus_connections_setup_connection c u)"
proof -
  have "settled_kept s (s \<lparr> conns := (conns s)(c \<mapsto> d), incomplete := i, n_incomplete := n \<rparr>)"
    if "cd_transaction_messages d = []" for s :: BusContext and d i n
    using that by (auto simp: settled_kept_def settled_def waiting_in_def)
  then show ?thesis
    unfolding bus_connections_setup_connection_def
    by (auto intro!: steps_intros steps_modify split: list.split)
qed

lemma settled_drop_owned [steps_intros]: "steps settled_kept (drop_owned_service c a)"
proof -
  have "settles (catchB (bus_service_remove_owner a c)
      (\<lambda>e. case e of NoMemory \<Rightarrow> thenB bus_transaction_cancel_and_free (raiseB NoMemory) | _ \<Rightarrow> raiseB Abort)
      (\<lambda>_. bus_transaction_execute_and_free))"
    by (intro settles_intros settles_case_error steps_intros)
  then show ?thesis
    unfolding drop_owned_service_def by (rule settled_transaction)
qed

lemma settled_drop_owned_services [steps_intros]: "steps settled_kept (drop_owned_services n c)"
  by (induction n) (auto intro!: steps_intros)

lemma settled_disconnected_loop [steps_intros]: "steps settled_kept (disconnected_loop n c rules)"
  by (induction rules) (auto simp: bus_connection_remove_match_rule_def intro!: steps_intros settled_update_conn settled_modify)

lemma settled_adjust [steps_intros]: "steps settled_kept (adjust_connections_for_uid u n)"
  unfolding adjust_connections_for_uid_def by (intro steps_intros settled_modify) simp_all

lemma settled_free: "steps settled_kept (modifyB (\<lambda>s. s \<lparr> conns := (conns s)(c := None) \<rparr>))"
  by (intro steps_modify) (auto simp: settled_kept_def settled_def waiting_in_def split: if_splits)

lemma settled_free_connection [steps_intros]: "steps settled_kept (free_connection_data c)"
  unfolding free_connection_data_def by (intro steps_intros settled_free)

lemma settled_get_name [steps_intros]: "steps settled_kept (bus_connection_get_name c)"
  unfolding bus_connection_get_name_def by (intro steps_intros)

lemma settled_disconnected [steps_intros]: "steps settled_kept (bus_connection_disconnected c)"
  unfolding bus_connection_disconnected_def bus_matchmaker_disconnected_def bus_connection_remove_transactions_def
    leave_connection_list_def bus_connection_drop_pending_replies_def
  by (intro steps_intros settled_update_conn settled_modify) simp_all

lemma settles_first: "infallible m \<Longrightarrow> steps members_kept m \<Longrightarrow> settles n \<Longrightarrow> settles (thenB m n)"
  unfolding thenB_def by (rule settles_bind)

lemma settled_reply_expired [steps_intros]: "steps settled_kept (bus_pending_reply_expired p)"
proof -
  have "settles (thenB (modifyB (\<lambda>s. s \<lparr> pending_replies := remove1 p (pending_replies s) \<rparr>)) bus_transaction_execute_and_free)"
    by (intro settles_first infallible_prims settles_execute members_modify) simp_all
  then show ?thesis
    unfolding bus_pending_reply_expired_def bus_pending_reply_send_no_reply_def
    by (intro settled_transaction settles_catch)
      (assumption | intro settles_then [OF settles_cancel] steps_intros)+
qed

lemma settled_expirelist: "steps settled_kept bus_expirelist_expire"
proof -
  have "steps settled_kept (do_expiration_with_current_time ps w)" for ps w
    by (induction ps arbitrary: w) (auto intro!: steps_intros)
  then show ?thesis
    unfolding bus_expirelist_expire_def by (intro steps_intros)
qed

lemma settled_preallocate [steps_intros]: "steps settled_kept (bus_connection_preallocate_oom_error c)"
  unfolding bus_connection_preallocate_oom_error_def by (intro steps_intros settled_update_conn) simp

lemma settled_send_oom_error [steps_intros]: "steps settled_kept (bus_connection_send_oom_error c m)"
  unfolding bus_connection_send_oom_error_def dbus_connection_send_preallocated_def
  by (intro steps_intros settled_update_conn) simp_all

lemma settles_oom_error: "settles (cancel_with_oom_error c m)"
proof -
  have "infallible (bus_connection_send_oom_error c m)"
    unfolding bus_connection_send_oom_error_def get_conn_def dbus_connection_send_preallocated_def
    by (intro infallible_intros infallible_case_option)
  moreover have "steps members_kept (bus_connection_send_oom_error c m)"
    unfolding bus_connection_send_oom_error_def dbus_connection_send_preallocated_def
    by (intro steps_intros members_update_conn) simp_all
  ultimately show ?thesis
    unfolding cancel_with_oom_error_def by (intro settles_first settles_cancel)
qed

lemma settles_finish: "settles (finish_dispatch c m e)"
  unfolding finish_dispatch_def get_conn_def
  by (intro settles_bind infallible_prims steps_intros settles_if settles_execute settles_case_error
      settles_oom_error settles_catch settles_abort)

lemma settled_dispatch: "steps settled_kept (bus_dispatch c m)"
proof -
  define body where "body = catchB (dispatch_in_transaction c m) (finish_dispatch c m) (\<lambda>_. bus_transaction_execute_and_free)"
  have "settles body"
    unfolding body_def by (intro settles_catch steps_intros settles_finish settles_execute)
  then have "steps settled_kept body"
    by (rule settles_kept)
  then show ?thesis
    unfolding bus_dispatch_def body_def [symmetric] by (intro steps_intros)
qed

section \<open>The daemon as a state machine\<close>

text \<open>
  A step is one call from the main loop that comes back: a message (or the notice
  that a connection is gone) is dispatched, a connection is accepted, a timer
  runs, a child process has exited, the configuration is read again; or something
  changes outside the daemon: time passes, memory runs out or is given back,
  queued messages are written to the socket, the peer hangs up.
\<close>

inductive daemon_step :: "BusContext \<Rightarrow> BusContext \<Rightarrow> bool" where
  message: "bus_dispatch c m s = (r, s') \<Longrightarrow> r \<noteq> Inl Abort \<Longrightarrow> daemon_step s s'"
| accept: "conns s c = None \<Longrightarrow> bus_connections_setup_connection c u s = (r, s') \<Longrightarrow> r \<noteq> Inl Abort \<Longrightarrow> daemon_step s s'"
| expire_replies: "bus_expirelist_expire s = (r, s') \<Longrightarrow> r \<noteq> Inl Abort \<Longrightarrow> daemon_step s s'"
| expire_incomplete: "bus_connections_expire_incomplete s = (r, s') \<Longrightarrow> r \<noteq> Inl Abort \<Longrightarrow> daemon_step s s'"
| activation_timeout: "pending_activation_timed_out a s = (r, s') \<Longrightarrow> r \<noteq> Inl Abort \<Longrightarrow> daemon_step s s'"
| child_exit: "babysitter_watch_callback a e st s = (r, s') \<Longrightarrow> r \<noteq> Inl Abort \<Longrightarrow> daemon_step s s'"
| reload: "bus_context_reload_config s = (r, s') \<Longrightarrow> r \<noteq> Inl Abort \<Longrightarrow> daemon_step s s'"
| outside: "daemon_step s (s \<lparr> now := t, oom := memory, env := e \<rparr>)"
| written: "conns s c = Some d \<Longrightarrow> daemon_step s (s \<lparr> conns := (conns s)(c \<mapsto> d \<lparr> cd_outgoing := drop n (cd_outgoing d) \<rparr>) \<rparr>)"
| hang_up: "dbus_connection_close c s = (r, s') \<Longrightarrow> r \<noteq> Inl Abort \<Longrightarrow> daemon_step s s'"

inductive daemon_run :: "BusContext \<Rightarrow> BusContext \<Rightarrow> bool" where
  idle: "daemon_run s s"
| busy: "daemon_run s t \<Longrightarrow> daemon_step t u \<Longrightarrow> daemon_run s u"

text \<open>A daemon that has just started.\<close>

definition fresh_daemon :: "BusContext \<Rightarrow> bool" where
  "fresh_daemon s \<longleftrightarrow> conns s = Map.empty \<and> next_major_number s = 0 \<and> next_minor_number s = 0"

text \<open>A relation that every entry point keeps is kept by every run.\<close>

locale step_frame = frame_relation +
  assumes entry_dispatch: "steps R (bus_dispatch c m)"
    and entry_setup: "steps R (bus_connections_setup_connection c user)"
    and entry_expirelist: "steps R bus_expirelist_expire"
    and entry_expire_incomplete: "steps R bus_connections_expire_incomplete"
    and entry_timed_out: "steps R (pending_activation_timed_out a)"
    and entry_babysitter: "steps R (babysitter_watch_callback a how status)"
    and entry_reload: "steps R bus_context_reload_config"
    and entry_close: "steps R (dbus_connection_close c)"
    and outside_change: "R s (s \<lparr> now := t, oom := memory, env := e \<rparr>)"
    and outgoing_change: "conns s c = Some d \<Longrightarrow> R s (s \<lparr> conns := (conns s)(c \<mapsto> d \<lparr> cd_outgoing := ms \<rparr>) \<rparr>)"
begin

lemma kept_by_step: "daemon_step s s' \<Longrightarrow> R s s'"
  by (induction rule: daemon_step.induct)
    (erule (1) steps_result [OF entry_dispatch] steps_result [OF entry_setup] steps_result [OF entry_expirelist]
      steps_result [OF entry_expire_incomplete] steps_result [OF entry_timed_out] steps_result [OF entry_babysitter]
      steps_result [OF entry_reload] steps_result [OF entry_close] | rule outside_change | erule outgoing_change)+

lemma kept_by_run: "daemon_run s s' \<Longrightarrow> R s s'"
  by (induction rule: daemon_run.induct) (auto intro: R_refl R_trans kept_by_step)

end

interpretation names_steps: step_frame names_grow
proof
  show "steps names_grow (bus_dispatch c m)" "steps names_grow (bus_connections_setup_connection c user)"
    "steps names_grow bus_expirelist_expire" "steps names_grow bus_connections_expire_incomplete"
    "steps names_grow (pending_activation_timed_out a)" "steps names_grow (babysitter_watch_callback a how status)"
    "steps names_grow bus_context_reload_config" "steps names_grow (dbus_connection_close c)" for c m user a how status
    by (intro steps_intros)+
qed (auto intro!: names_grow_same simp: holds_name_def split: if_splits)

interpretation settled_steps: step_frame settled_kept
proof
  show "steps settled_kept bus_context_reload_config"
    unfolding bus_context_reload_config_def by (intro steps_intros settled_modify) simp_all
  show "steps settled_kept (pending_activation_timed_out a)" for a
    unfolding pending_activation_timed_out_def by (intro steps_intros)
qed (auto intro: settled_dispatch settled_setup settled_expirelist settled_expire_incomplete settled_babysitter
    settled_close simp: settled_kept_def settled_def waiting_in_def split: if_splits)

lemma run_trans: "daemon_run t u \<Longrightarrow> daemon_run s t \<Longrightarrow> daemon_run s u"
  by (induction rule: daemon_run.induct) (auto intro: daemon_run.intros)

lemma fresh_names_ok: "fresh_daemon s \<Longrightarrow> names_ok s"
  by (simp add: fresh_daemon_def names_ok_def holds_name_def)

lemma old_name_kept:
  assumes "names_grow s t" "holds_name t c (client_name p)" "p < name_base s"
  shows "holds_name s c (client_name p)"
proof -
  have "holds_name s c (client_name p) \<or> (\<exists>q. name_base s \<le> q \<and> client_name p = client_name q)"
    using assms(1,2) unfolding names_grow_def by blast
  then show ?thesis
    using assms(3) by (auto simp: client_name_inject)
qed

text \<open>
  C2: Whatever happens between two points of time, a unique name that was held
  before and is held after is held by the same connection, and was so all the
  time: a unique name is never given to a second connection, nor given again
  after it was given up.  This holds from the start of the daemon on, since the
  names that are held stay numbered below the counters.
\<close>

theorem unique_names_never_reused:
  assumes "names_ok s" and "daemon_run s t" and "daemon_run t u" and "holds_name s c n" and "holds_name u c' n"
  shows "c' = c \<and> holds_name t c n \<and> names_ok u"
proof -
  have grow: "names_grow s t" "names_grow t u"
    using assms names_steps.kept_by_run by blast+
  obtain p where p: "p < name_base s" "n = client_name p"
    using assms(1,4) unfolding names_ok_def by blast
  have "name_base s \<le> name_base t"
    using grow by (simp add: names_grow_def)
  then have "holds_name t c' n"
    using old_name_kept [OF grow(2)] assms(5) p by simp
  moreover from this have "holds_name s c' n"
    using old_name_kept [OF grow(1)] p by simp
  moreover from this have "c' = c"
    using assms(1,4) unfolding names_ok_def by blast
  ultimately show ?thesis
    using grow assms(1) by (simp add: names_grow_def)
qed

lemma demo_names_ok: "names_ok demo_bus"
proof -
  have "str '':1.1'' = client_name 2147483649" "str '':1.2'' = client_name 2147483650"
    by (simp_all add: client_name_def decimal.simps)
  then have held: "holds_name demo_bus c n \<longleftrightarrow>
      c = 1 \<and> n = client_name 2147483649 \<or> c = 2 \<and> n = client_name 2147483650" for c n
    by (auto simp: holds_name_def demo_bus_def demo_connection_def simp del: str_Cons)
  moreover have "name_base demo_bus = 2147483651"
    by (simp add: name_base_def demo_bus_def)
  ultimately show ?thesis
    unfolding names_ok_def held by (auto simp: client_name_inject)
qed

theorem unique_names_never_reused_witness:
  "let t = snd (dbus_connection_close 2 demo_bus)
   in daemon_run demo_bus t \<and> holds_name t 1 (str '':1.1'') \<and> names_ok t"
proof -
  let ?t = "snd (dbus_connection_close 2 demo_bus)"
  have "dbus_connection_close 2 demo_bus = (Inr (), ?t)"
    by (simp add: dbus_connection_close_def update_conn_def get_conn_def bus_op_defs demo_bus_def)
  then have run: "daemon_run demo_bus ?t"
    by (intro daemon_run.busy [OF daemon_run.idle] daemon_step.hang_up) auto
  moreover have "holds_name demo_bus 1 (str '':1.1'')" "holds_name ?t 1 (str '':1.1'')"
    by (simp_all add: holds_name_def demo_bus_def demo_connection_def dbus_connection_close_def update_conn_def
        get_conn_def bus_op_defs)
  ultimately show ?thesis
    using unique_names_never_reused [OF demo_names_ok run daemon_run.idle, of 1 "str '':1.1''" 1] by (simp add: Let_def)
qed

text \<open>
  C5: After every step no connection has a message of a transaction waiting: each
  transaction is executed or cancelled on every path, with errors and failing
  allocations, so that no message leaks into the transaction of a later one.
\<close>

theorem transactions_settle:
  assumes "daemon_run s s'" and "settled s"
  shows "settled s'"
  using settled_steps.kept_by_run [OF assms(1)] assms(2) by (simp add: settled_kept_def)

definition demo_expired :: BusContext where
  "demo_expired = demo_bus
     \<lparr> now := 100000000, oom := [True, False],
       pending_replies := [\<lparr> pr_addr = 7, will_get_reply = 1, will_send_reply = Some 2, pr_reply_serial = 5, pr_added = 0 \<rparr>] \<rparr>"

theorem transactions_settle_witness:
  "daemon_run demo_expired (snd (bus_expirelist_expire demo_expired)) \<and> settled (snd (bus_expirelist_expire demo_expired))"
proof -
  let ?t = "snd (bus_expirelist_expire demo_expired)"
  have "fst (bus_expirelist_expire demo_expired) = Inr OomWait"
    by code_simp
  then have run: "daemon_run demo_expired ?t"
    by (intro daemon_run.busy [OF daemon_run.idle] daemon_step.expire_replies) (auto intro: prod_eqI)
  have "settled demo_expired"
    by (auto simp: settled_def waiting_in_def demo_expired_def demo_bus_def demo_connection_def split: if_splits)
  with run show ?thesis
    using transactions_settle by blast
qed

section \<open>A free name is found\<close>

text \<open>Enough major numbers for the given number of rounds.\<close>

definition numbers_left :: "nat \<Rightarrow> BusContext \<Rightarrow> bool" where
  "numbers_left k s \<longleftrightarrow>
     0 \<le> sint (next_major_number s) \<and> (0 < sint (next_minor_number s) \<longrightarrow> 0 < sint (next_major_number s)) \<and>
     sint (next_major_number s) + int k < 2 ^ 31"

lemma next_client_numbers_returns:
  assumes "numbers_left (Suc k) s"
  obtains major minor t where "next_client_numbers s = (Inr (major, minor), t)"
    "service_hash t = service_hash s" "oom t = oom s"
    "numbers_left k (t \<lparr> next_minor_number := next_minor_number t + 1 \<rparr>)"
proof -
  define t where "t = (if sint (next_minor_number s) \<le> 0
    then s \<lparr> next_major_number := next_major_number s + 1, next_minor_number := 0 \<rparr> else s)"
  have major: "sint (next_major_number s + 1) = sint (next_major_number s) + 1"
    using assms sint_succ [of "next_major_number s"] by (simp add: numbers_left_def)
  have "next_client_numbers s = (Inr (next_major_number t, next_minor_number t), t)"
    using assms major by (auto simp: next_client_numbers_def bus_op_defs t_def numbers_left_def)
  moreover have "numbers_left k (t \<lparr> next_minor_number := next_minor_number t + 1 \<rparr>)"
    using assms major by (auto simp: t_def numbers_left_def)
  ultimately show thesis
    using that [of "next_major_number t" "next_minor_number t" t] by (simp add: t_def)
qed

lemma allocs_succeed: "oom s = [] \<Longrightarrow> foreachB (\<lambda>_. allocB) xs s = (Inr (), s)"
  by (induction xs) (simp_all add: bus_op_defs allocB_def)

definition taken :: "BusContext \<Rightarrow> dbus_string set" where
  "taken s = {n. service_hash s n \<noteq> None \<and> (\<exists>p \<ge> name_base s. n = client_name p)}"

lemma create_unique_client_name_returns:
  assumes "finite (dom (service_hash s))" "oom s = []" "numbers_left k s" "card (taken s) < k"
  shows "\<exists>n t. create_unique_client_name k s = (Inr n, t) \<and> service_hash s n = None"
  using assms
proof (induction k arbitrary: s)
  case (Suc k)
  obtain major minor t where t: "next_client_numbers s = (Inr (major, minor), t)"
    "service_hash t = service_hash s" "oom t = oom s"
    "numbers_left k (t \<lparr> next_minor_number := next_minor_number t + 1 \<rparr>)"
    using next_client_numbers_returns [OF Suc.prems(3)] .
  let ?n = "unique_name major minor" and ?u = "t \<lparr> next_minor_number := next_minor_number t + 1 \<rparr>"
  note numbers = next_client_numbers_Inr [OF t(1)]
  have run: "create_unique_client_name (Suc k) s =
      (if service_hash s ?n = None then (Inr ?n, ?u) else create_unique_client_name k ?u)"
    using Suc.prems(2) t
    by (simp add: allocs_succeed bindB_def thenB_def modifyB_def bus_registry_lookup_def getsB_def returnB_def del: foreachB.simps upt_Suc)
  show ?case
  proof (cases "service_hash s ?n = None")
    case False
    have "taken ?u \<subset> taken s"
    proof
      show "taken ?u \<subseteq> taken s"
        using numbers t(2) by (auto simp: taken_def client_name_inject)
      have "?n \<in> taken s" "?n \<notin> taken ?u"
        using False numbers by (auto simp: taken_def client_name_inject)
      then show "taken ?u \<noteq> taken s"
        by blast
    qed
    moreover have "finite (taken s)"
      using Suc.prems(1) by (rule rev_finite_subset) (auto simp: taken_def)
    ultimately have "card (taken ?u) < card (taken s)"
      by (simp add: psubset_card_mono)
    then have "card (taken ?u) < k"
      using Suc.prems(4) by simp
    then show ?thesis
      using Suc.IH [of ?u] Suc.prems(1,2) t(2-4) False by (simp only: run) simp
  next
    case True
    then show ?thesis
      unfolding run by simp
  qed
qed simp

lemma registered_names_bounded:
  assumes "wf_registry s"
  shows "finite (dom (service_hash s)) \<and> card (dom (service_hash s)) \<le> next_addr s"
proof -
  let ?at = "\<lambda>n. the (service_hash s n)"
  have inj: "inj_on ?at (dom (service_hash s))"
    using hash_inj [OF assms] by (auto simp: inj_on_def dom_def)
  have "?at ` dom (service_hash s) \<subseteq> {..< next_addr s}"
  proof clarsimp
    fix n a
    assume "service_hash s n = Some a"
    then obtain os where "S_of s a = Some (n, os)"
      using assms unfolding wf_registry_def by blast
    then show "a < next_addr s"
      using assms pools_ok_fresh [of s a] by (fastforce simp: wf_registry_def not_le [symmetric])
  qed
  then have "finite (?at ` dom (service_hash s))" "card (?at ` dom (service_hash s)) \<le> next_addr s"
    using finite_subset [OF _ finite_lessThan] card_mono [OF finite_lessThan] by force+
  then show ?thesis
    using card_image [OF inj] finite_imageD [OF _ inj] by simp
qed

text \<open>
  C14: The search for a unique name ends: when memory is available and the major
  numbers do not run out, a name that is not registered is found within one round
  more than there are objects of the registry, the bound \<open>name_rounds\<close> of Hello.
\<close>

theorem unique_name_found:
  assumes "wf_registry s" and "oom s = []" and "numbers_left (name_rounds s) s"
  shows "\<exists>n t. create_unique_client_name (name_rounds s) s = (Inr n, t) \<and> service_hash s n = None"
proof (rule create_unique_client_name_returns [OF _ assms(2,3)])
  have dom: "finite (dom (service_hash s))" "card (dom (service_hash s)) \<le> next_addr s"
    using registered_names_bounded [OF assms(1)] by simp_all
  then show "finite (dom (service_hash s))"
    by simp
  have "card (taken s) \<le> card (dom (service_hash s))"
    using dom(1) by (rule card_mono) (auto simp: taken_def)
  then show "card (taken s) < name_rounds s"
    using dom(2) by (simp add: name_rounds_def)
qed

theorem unique_name_found_witness:
  "\<exists>n t. create_unique_client_name 3 demo_owned = (Inr n, t) \<and> service_hash demo_owned n = None"
proof -
  have "name_rounds demo_owned = 3" "numbers_left 3 demo_owned" "oom demo_owned = []"
    by (simp_all add: name_rounds_def numbers_left_def demo_owned_def demo_bus_def)
  then show ?thesis
    using unique_name_found [OF wf_demo_owned] by simp
qed

end
