(* ===== verification/Bus_Confinement.thy ===== *)
theory Bus_Confinement
  imports Bus_Invariants
begin

text \<open>
  What a client can do that is connected but has not said Hello: the path of
  such a message through src/bus/dispatch.c, with all its errors, touches nothing
  but the connection itself.  The proofs show total correctness: the operations
  return, without failing an assertion of the code.
\<close>

section \<open>Operations that touch one connection\<close>

text \<open>Apart from memory and the transaction, only the data of one connection changes, and not its name.\<close>

definition touches_only :: "conn \<Rightarrow> BusContext \<Rightarrow> BusContext \<Rightarrow> bool" where
  "touches_only c s s' \<longleftrightarrow>
     (\<exists>v d t. s' = s \<lparr> oom := v, conns := (conns s)(c \<mapsto> d), transaction := t \<rparr> \<and> cd_name d = None)"

text \<open>An unregistered connection with its error message for lack of memory, alone in the transaction.\<close>

definition waiting_client :: "conn \<Rightarrow> BusContext \<Rightarrow> bool" where
  "waiting_client c s \<longleftrightarrow>
     (\<exists>d. conns s c = Some d \<and> cd_name d = None \<and> cd_oom_message d \<noteq> None) \<and>
     set (tr_connections (transaction s)) \<subseteq> {c} \<and> tr_cancel_hooks (transaction s) = []"

definition contained :: "conn \<Rightarrow> 'a bus \<Rightarrow> bool" where
  "contained c m \<longleftrightarrow>
     (\<forall>s. waiting_client c s \<longrightarrow>
        (\<exists>r s'. m s = (r, s') \<and> r \<noteq> Inl Abort \<and> waiting_client c s' \<and> touches_only c s s'))"

lemma touches_trans: "touches_only c s t \<Longrightarrow> touches_only c t u \<Longrightarrow> touches_only c s u"
  unfolding touches_only_def
  by (elim exE conjE, rule_tac x = va in exI, rule_tac x = da in exI, rule_tac x = ta in exI) simp

lemma touches_change:
  "cd_name d = None \<Longrightarrow> touches_only c s (s \<lparr> oom := v, conns := (conns s)(c \<mapsto> d), transaction := t \<rparr>)"
  unfolding touches_only_def by blast

lemma touches_conn: "cd_name d = None \<Longrightarrow> touches_only c s (s \<lparr> conns := (conns s)(c \<mapsto> d) \<rparr>)"
  using touches_change [where s = s and v = "oom s" and t = "transaction s"] by simp

lemma touches_transaction:
  "conns s c = Some d \<Longrightarrow> cd_name d = None \<Longrightarrow> touches_only c s (s \<lparr> oom := v, transaction := t \<rparr>)"
  using touches_change [of d c s] by (simp add: fun_upd_idem)

lemma touches_refl: "waiting_client c s \<Longrightarrow> touches_only c s s"
  using touches_transaction [where s = s and v = "oom s" and t = "transaction s"] by (auto simp: waiting_client_def)

named_theorems contained_intros \<open>operations that touch one unregistered connection only\<close>

lemma contained_return [contained_intros]: "contained c (returnB x)"
  by (simp add: contained_def returnB_def touches_refl)

lemma contained_raise [contained_intros]: "e \<noteq> Abort \<Longrightarrow> contained c (raiseB e)"
  by (simp add: contained_def raiseB_def touches_refl)

lemma contained_bind [contained_intros]:
  assumes "contained c m" "\<And>x. contained c (g x)"
  shows "contained c (bindB m g)"
  unfolding contained_def
proof (intro allI impI)
  fix s
  assume "waiting_client c s"
  then obtain r t where t: "m s = (r, t)" "r \<noteq> Inl Abort" "waiting_client c t" "touches_only c s t"
    using assms(1) unfolding contained_def by blast
  show "\<exists>r s'. bindB m g s = (r, s') \<and> r \<noteq> Inl Abort \<and> waiting_client c s' \<and> touches_only c s s'"
  proof (cases r)
    case (Inr x)
    then obtain q u where "g x t = (q, u)" "q \<noteq> Inl Abort" "waiting_client c u" "touches_only c t u"
      using assms(2) t(3) unfolding contained_def by blast
    then show ?thesis
      using t Inr touches_trans by (auto simp: bindB_def)
  qed (use t in \<open>simp add: bindB_def\<close>)
qed

lemma contained_then [contained_intros]: "contained c m \<Longrightarrow> contained c n \<Longrightarrow> contained c (thenB m n)"
  unfolding thenB_def by (intro contained_bind)

lemma contained_gets:
  assumes "\<And>s. waiting_client c s \<Longrightarrow> contained c (g (f s))"
  shows "contained c (bindB (getsB f) g)"
  using assms unfolding contained_def bindB_def getsB_def by auto

lemma contained_get_conn:
  assumes "\<And>d. cd_name d = None \<Longrightarrow> cd_oom_message d \<noteq> None \<Longrightarrow> contained c (g d)"
  shows "contained c (bindB (get_conn c) g)"
  using assms unfolding contained_def bindB_def get_conn_def derefB_def waiting_client_def by auto

lemma contained_try [contained_intros]: "contained c m \<Longrightarrow> contained c (tryB m)"
  unfolding contained_def tryB_def by (fastforce split: sum.split bus_error.split)

lemma contained_case_sum [contained_intros]:
  "(\<And>e. contained c (h e)) \<Longrightarrow> (\<And>x. contained c (k x)) \<Longrightarrow> contained c (case r of Inl e \<Rightarrow> h e | Inr x \<Rightarrow> k x)"
  by (cases r) auto

lemma contained_catch [contained_intros]:
  "contained c m \<Longrightarrow> (\<And>e. contained c (h e)) \<Longrightarrow> (\<And>x. contained c (k x)) \<Longrightarrow> contained c (catchB m h k)"
  unfolding catchB_def by (intro contained_intros)

lemma contained_alloc [contained_intros]: "contained c allocB"
  unfolding contained_def
proof (intro allI impI)
  fix s
  assume "waiting_client c s"
  moreover obtain r t v where "allocB s = (r, t)" "r = Inr () \<or> r = Inl NoMemory" "t = s \<lparr> oom := v \<rparr>"
    using allocB_cases by (metis surj_pair)
  ultimately show "\<exists>r s'. allocB s = (r, s') \<and> r \<noteq> Inl Abort \<and> waiting_client c s' \<and> touches_only c s s'"
    using touches_transaction [where s = s and v = v and t = "transaction s"] by (auto simp: waiting_client_def)
qed

lemma contained_update_conn:
  assumes "\<And>d. cd_name (f d) = cd_name d" "\<And>d. cd_oom_message d \<noteq> None \<Longrightarrow> cd_oom_message (f d) \<noteq> None"
  shows "contained c (update_conn c f)"
  unfolding contained_def update_conn_def get_conn_def
  using assms touches_conn by (fastforce simp: bus_op_defs waiting_client_def)

lemma contained_transaction:
  assumes "\<And>s. waiting_client c s \<Longrightarrow> set (tr_connections (g s)) \<subseteq> {c} \<and> tr_cancel_hooks (g s) = []"
  shows "contained c (modifyB (\<lambda>s. s \<lparr> transaction := g s \<rparr>))"
  unfolding contained_def
proof (intro allI impI)
  fix s
  assume s: "waiting_client c s"
  then show "\<exists>r s'. modifyB (\<lambda>s. s \<lparr> transaction := g s \<rparr>) s = (r, s') \<and> r \<noteq> Inl Abort \<and> waiting_client c s' \<and> touches_only c s s'"
    using assms [OF s] touches_transaction [where s = s and v = "oom s" and t = "g s"]
    by (auto simp: modifyB_def waiting_client_def)
qed

lemma contained_send [contained_intros]:
  assumes "msg_sender m \<noteq> None"
  shows "contained c (bus_transaction_send c m)"
  unfolding bus_transaction_send_def assertB_def unlessB_def
  using assms
  by (auto intro!: contained_get_conn contained_intros contained_update_conn contained_transaction
      simp: waiting_client_def subset_iff)

lemma inactive_waiting: "waiting_client c s \<Longrightarrow> \<not> bus_connection_is_active s c"
  by (auto simp: waiting_client_def bus_connection_is_active_def)

lemma contained_check [contained_intros]:
  "contained c (bus_context_check_security_policy None (Some c) (Some c) m)"
  unfolding bus_context_check_security_policy_def check_policies_and_limits_def recipient_policy_of_def assertB_def unlessB_def
  by (auto intro!: contained_gets contained_get_conn contained_intros simp: inactive_waiting split: option.split)

lemma contained_error_reply [contained_intros]: "contained c (bus_transaction_send_error_reply c e m)"
  unfolding bus_transaction_send_error_reply_def bus_transaction_send_from_driver_def
  by (auto intro!: contained_gets contained_intros simp: inactive_waiting Let_def)

lemma contained_foreach:
  assumes "contained c (f c)" "set cs \<subseteq> {c}"
  shows "contained c (foreachB f cs)"
  using assms(2) by (induction cs) (use assms(1) in \<open>auto intro!: contained_intros\<close>)

lemma contained_execute [contained_intros]: "contained c bus_transaction_execute_and_free"
proof -
  have "contained c (foreachB (dbus_connection_send_preallocated c) ms)" for ms
    unfolding dbus_connection_send_preallocated_def
    by (induction ms) (auto intro!: contained_intros contained_update_conn)
  then have "contained c (connection_execute_transaction c)"
    unfolding connection_execute_transaction_def
    by (auto intro!: contained_get_conn contained_intros contained_update_conn)
  then show ?thesis
    unfolding bus_transaction_execute_and_free_def
    by (auto intro!: contained_gets contained_intros contained_foreach contained_transaction simp: waiting_client_def)
qed

lemma contained_cancel: "contained c bus_transaction_cancel_and_free"
  unfolding bus_transaction_cancel_and_free_def connection_cancel_transaction_def
  by (auto intro!: contained_gets contained_intros contained_foreach contained_update_conn contained_transaction
      simp: waiting_client_def)

lemma contained_oom_error:
  assumes "waiting_client c s"
  shows "\<exists>s'. cancel_with_oom_error c m s = (Inr (), s') \<and> touches_only c s s'"
proof -
  obtain d e where d: "conns s c = Some d" "cd_name d = None" "cd_oom_message d = Some e"
    and own: "set (tr_connections (transaction s)) \<subseteq> {c}" "tr_cancel_hooks (transaction s) = []"
    using assms by (auto simp: waiting_client_def)
  let ?d = "d \<lparr> cd_outgoing := cd_outgoing d @ [e \<lparr> msg_reply_serial := msg_serial m \<rparr>], cd_oom_message := None \<rparr>"
  let ?t = "s \<lparr> conns := (conns s)(c \<mapsto> ?d) \<rparr>"
  have send: "bus_connection_send_oom_error c m s = (Inr (), ?t)"
    using d by (simp add: bus_connection_send_oom_error_def dbus_connection_send_preallocated_def update_conn_def
        get_conn_def bus_op_defs)
  let ?cs = "\<lambda>c'. if c' \<in> set (tr_connections (transaction s))
       then map_option (\<lambda>d. d \<lparr> cd_transaction_messages := [] \<rparr>) (conns ?t c') else conns ?t c'"
  have "foreachB connection_cancel_transaction (tr_connections (transaction s)) ?t = (Inr (), ?t \<lparr> conns := ?cs \<rparr>)"
    using own by (intro cancel_connections) auto
  then have "cancel_with_oom_error c m s =
      (Inr (), s \<lparr> conns := ?cs, transaction := \<lparr> tr_connections = [], tr_cancel_hooks = [] \<rparr> \<rparr>)"
    using own by (simp add: cancel_with_oom_error_def bus_transaction_cancel_and_free_def bus_op_defs send)
  moreover have "?cs = (conns s)(c \<mapsto> if c \<in> set (tr_connections (transaction s))
      then ?d \<lparr> cd_transaction_messages := [] \<rparr> else ?d)"
    using own(1) by (auto simp: fun_eq_iff)
  ultimately show ?thesis
    using d(2) touches_change [where s = s and v = "oom s"] by auto
qed

lemma retry_loop_returns:
  assumes step: "\<And>s. P s \<Longrightarrow> (\<exists>s'. m s = (Inr (), s') \<and> Q s s' \<and> F s') \<or>
      (\<exists>e s'. m s = (Inl e, s') \<and> e \<noteq> Abort \<and> P s' \<and> length (oom s') < length (oom s) \<and> Q s s')"
    and trans: "\<And>s t u. Q s t \<Longrightarrow> Q t u \<Longrightarrow> Q s u"
  shows "P s \<Longrightarrow> length (oom s) < n \<Longrightarrow> \<exists>s'. retry_loop n m s = (Inr (), s') \<and> Q s s' \<and> F s'"
proof (induction n arbitrary: s)
  case (Suc n)
  from step [OF Suc.prems(1)] show ?case
  proof (elim disjE exE conjE)
    fix e s'
    assume s': "m s = (Inl e, s')" "e \<noteq> Abort" "P s'" "length (oom s') < length (oom s)" "Q s s'"
    then obtain u where "retry_loop n m s' = (Inr (), u)" "Q s' u" "F u"
      using Suc.IH [of s'] Suc.prems(2) by auto
    then show ?thesis
      using s' trans by (cases e) (auto simp: catchB_def tryB_def bindB_def)
  qed (auto simp: catchB_def tryB_def bindB_def returnB_def)
qed simp

lemma allocs_cases:
  "\<exists>v. foreachB (\<lambda>_. allocB) xs s = (Inr (), s \<lparr> oom := v \<rparr>) \<or>
     foreachB (\<lambda>_. allocB) xs s = (Inl NoMemory, s \<lparr> oom := v \<rparr>) \<and> length v < length (oom s)"
proof (induction xs arbitrary: s)
  case Nil
  show ?case
    by (rule exI [of _ "oom s"]) (simp add: returnB_def)
next
  case (Cons x xs)
  show ?case
  proof (cases "oom s")
    case Nil
    then show ?thesis
      using Cons.IH [of s] by (simp add: thenB_def bindB_def allocB_def)
  next
    case (Cons ok rest)
    then show ?thesis
      using Cons.IH [of "s \<lparr> oom := rest \<rparr>"] by (cases ok) (auto simp: thenB_def bindB_def allocB_def)
  qed
qed

lemma preallocate_returns:
  assumes "conns s c = Some d" "cd_name d = None"
  shows "\<exists>s'. retryB (bus_connection_preallocate_oom_error c) s = (Inr (), s') \<and> touches_only c s s' \<and>
    (\<exists>d'. conns s' c = Some d' \<and> cd_oom_message d' \<noteq> None)"
proof -
  let ?m = "bus_connection_preallocate_oom_error c"
  let ?P = "\<lambda>s. \<exists>d. conns s c = Some d \<and> cd_name d = None"
  let ?F = "\<lambda>s. \<exists>d'. conns s c = Some d' \<and> cd_oom_message d' \<noteq> None"
  have "(\<exists>s'. ?m s = (Inr (), s') \<and> touches_only c s s' \<and> ?F s') \<or>
      (\<exists>e s'. ?m s = (Inl e, s') \<and> e \<noteq> Abort \<and> ?P s' \<and> length (oom s') < length (oom s) \<and> touches_only c s s')"
    if "?P s" for s
  proof -
    from that obtain d where d: "conns s c = Some d" "cd_name d = None"
      by blast
    note unchanged = touches_transaction [OF d, where t = "transaction s"]
    show ?thesis
    proof (cases "cd_oom_message d = None")
      case False
      then show ?thesis
        using d unchanged [of "oom s"] by (auto simp: bus_connection_preallocate_oom_error_def get_conn_def bus_op_defs)
    next
      case True
      obtain v where v: "foreachB (\<lambda>_. allocB) [1 :: nat ..< 7] s = (Inr (), s \<lparr> oom := v \<rparr>) \<or>
          foreachB (\<lambda>_. allocB) [1 :: nat ..< 7] s = (Inl NoMemory, s \<lparr> oom := v \<rparr>) \<and> length v < length (oom s)"
        using allocs_cases by blast
      show ?thesis
        using v
      proof (elim disjE conjE)
        assume run: "foreachB (\<lambda>_. allocB) [1 :: nat ..< 7] s = (Inr (), s \<lparr> oom := v \<rparr>)"
        obtain e where "?m s = (Inr (), s \<lparr> oom := v, conns := (conns s)(c \<mapsto> d \<lparr> cd_oom_message := Some e \<rparr>) \<rparr>)"
          using run d True
          by (simp add: bus_connection_preallocate_oom_error_def get_conn_def update_conn_def bus_op_defs
              del: foreachB.simps upt_Suc)
        then show ?thesis
          using d touches_change [where s = s and v = v and t = "transaction s" and c = c
              and d = "d \<lparr> cd_oom_message := Some e \<rparr>"]
          by simp
      next
        assume run: "foreachB (\<lambda>_. allocB) [1 :: nat ..< 7] s = (Inl NoMemory, s \<lparr> oom := v \<rparr>)" "length v < length (oom s)"
        then show ?thesis
          using d True unchanged [of v]
          by (simp add: bus_connection_preallocate_oom_error_def get_conn_def update_conn_def bus_op_defs
              del: foreachB.simps upt_Suc)
      qed
    qed
  qed
  from retry_loop_returns [where P = ?P and F = ?F and Q = "touches_only c" and s = s and n = "Suc (length (oom s))",
      OF this touches_trans]
  show ?thesis
    using assms by (simp add: retryB_def bindB_def getsB_def del: retry_loop.simps)
qed

lemma unregistered_refused:
  assumes "waiting_client c s" "\<not> dbus_message_is_method_call m DBUS_INTERFACE_DBUS (str ''Hello'')"
  shows "\<exists>r s'. dispatch_in_transaction c m s = (r, s') \<and> r \<noteq> Inl Abort \<and> waiting_client c s' \<and> touches_only c s s'"
proof (cases "msg_destination m = Some DBUS_SERVICE_DBUS")
  case True
  then have "bus_context_check_security_policy (Some c) None None m s = (Inl (BusError DBUS_ERROR_ACCESS_DENIED), s)"
    using assms inactive_waiting [OF assms(1)] by (simp add: bus_context_check_security_policy_def bus_op_defs)
  then have "dispatch_in_transaction c m s = (Inl (BusError DBUS_ERROR_ACCESS_DENIED), s)"
    using True inactive_waiting [OF assms(1)]
    by (simp add: dispatch_in_transaction_def bindB_def getsB_def returnB_def thenB_def)
  then show ?thesis
    using assms(1) touches_refl by simp
next
  case False
  then have "dispatch_in_transaction c m s = dbus_connection_close c s"
    using inactive_waiting [OF assms(1)] by (simp add: dispatch_in_transaction_def bindB_def getsB_def returnB_def)
  moreover have "contained c (dbus_connection_close c)"
    unfolding dbus_connection_close_def by (rule contained_update_conn) simp_all
  ultimately show ?thesis
    using assms(1) unfolding contained_def by simp
qed

lemma execute_returns:
  assumes "waiting_client c s"
  shows "\<exists>s'. bus_transaction_execute_and_free s = (Inr (), s') \<and> touches_only c s s'"
proof -
  obtain r s' where s': "bus_transaction_execute_and_free s = (r, s')" "r \<noteq> Inl Abort" "touches_only c s s'"
    using contained_execute assms unfolding contained_def by blast
  let ?finish = "thenB (foreachB connection_execute_transaction (tr_connections (transaction s)))
    (modifyB (\<lambda>s. s \<lparr> transaction := \<lparr> tr_connections = [], tr_cancel_hooks = [] \<rparr> \<rparr>))"
  have "?finish s = (r, s')"
    using s'(1) assms
    by (auto simp: bus_transaction_execute_and_free_def waiting_client_def bus_op_defs split: prod.splits sum.splits)
  moreover have "infallible ?finish"
    unfolding connection_execute_transaction_def get_conn_def dbus_connection_send_preallocated_def
    by (intro infallible_intros)
  ultimately show ?thesis
    using s' unfolding infallible_def by (cases r) auto
qed

lemma finish_dispatch_returns:
  assumes "waiting_client c s" "e \<noteq> Abort"
  shows "\<exists>s'. finish_dispatch c m e s = (Inr (), s') \<and> touches_only c s s'"
proof -
  obtain d where d: "conns s c = Some d"
    using assms(1) by (auto simp: waiting_client_def)
  have reply: "\<exists>s'. catchB (bus_transaction_send_error_reply c name m) (\<lambda>_. cancel_with_oom_error c m)
      (\<lambda>_. bus_transaction_execute_and_free) s = (Inr (), s') \<and> touches_only c s s'" for name
  proof -
    obtain r t where t: "bus_transaction_send_error_reply c name m s = (r, t)" "r \<noteq> Inl Abort"
      "waiting_client c t" "touches_only c s t"
      using contained_error_reply assms(1) unfolding contained_def by blast
    have "catchB (bus_transaction_send_error_reply c name m) (\<lambda>_. cancel_with_oom_error c m)
        (\<lambda>_. bus_transaction_execute_and_free) s =
        (case r of Inl e \<Rightarrow> cancel_with_oom_error c m t | Inr _ \<Rightarrow> bus_transaction_execute_and_free t)"
      using t(1,2) by (auto simp: catchB_def tryB_def bindB_def split: bus_error.split sum.split)
    then show ?thesis
      using execute_returns [OF t(3)] contained_oom_error [OF t(3), of m] touches_trans [OF t(4)]
      by (cases r) auto
  qed
  show ?thesis
    using assms(2) d execute_returns [OF assms(1)] contained_oom_error [OF assms(1), of m] reply
    by (cases e) (simp_all add: finish_dispatch_def get_conn_def bindB_def derefB_def)
qed

text \<open>
  C3: A client that has not said Hello can do nothing to the bus: whatever it
  sends, except for Hello and short of hanging up, is handled and changes its own
  connection only (an error is queued for it, or it is closed).  No name, match
  rule, pending reply or activation and no other connection is touched, also
  when memory runs out on the way.
\<close>

theorem unregistered_clients_confined:
  assumes client: "conns s c = Some d" "cd_name d = None"
    and other: "\<not> dbus_message_is_method_call m DBUS_INTERFACE_DBUS (str ''Hello'')"
      "\<not> (msg_destination m = None \<and> dbus_message_is_signal m DBUS_INTERFACE_LOCAL (str ''Disconnected''))"
  shows "\<exists>r s'. bus_dispatch c m s = (Inr r, s') \<and> touches_only c s s'"
proof -
  obtain t d' where t: "retryB (bus_connection_preallocate_oom_error c) s = (Inr (), t)" "touches_only c s t"
    "conns t c = Some d'" "cd_oom_message d' \<noteq> None"
    using preallocate_returns [OF client] by blast
  then have d': "cd_name d' = None"
    by (auto simp: touches_only_def)
  define body where "body = thenB (catchB (dispatch_in_transaction c m) (finish_dispatch c m)
    (\<lambda>_. bus_transaction_execute_and_free)) (returnB DBUS_HANDLER_RESULT_HANDLED)"
  have dispatched: "\<exists>r u'. body u = (Inr r, u') \<and> touches_only c u u'" if u: "waiting_client c u" for u
  proof -
    obtain r v where v: "dispatch_in_transaction c m u = (r, v)" "r \<noteq> Inl Abort" "waiting_client c v" "touches_only c u v"
      using unregistered_refused [OF u other(1)] by blast
    have "body u = thenB (case r of Inl e \<Rightarrow> finish_dispatch c m e | Inr _ \<Rightarrow> bus_transaction_execute_and_free)
        (returnB DBUS_HANDLER_RESULT_HANDLED) v"
      using v(1,2) by (auto simp: body_def thenB_def catchB_def tryB_def bindB_def split: bus_error.split sum.split)
    moreover have "\<exists>w. (case r of Inl e \<Rightarrow> finish_dispatch c m e | Inr _ \<Rightarrow> bus_transaction_execute_and_free) v = (Inr (), w)
        \<and> touches_only c v w"
      using v(2,3) finish_dispatch_returns execute_returns by (cases r) auto
    ultimately show ?thesis
      using touches_trans [OF v(4)] by (auto simp: thenB_def bindB_def returnB_def)
  qed
  obtain r v where alloc: "allocB t = (r, t \<lparr> oom := v \<rparr>)" "r = Inr () \<or> r = Inl NoMemory"
    using allocB_cases by (metis surj_pair)
  let ?u = "t \<lparr> oom := v, transaction := \<lparr> tr_connections = [], tr_cancel_hooks = [] \<rparr> \<rparr>"
  have u: "waiting_client c ?u" "touches_only c t ?u" "touches_only c t (t \<lparr> oom := v \<rparr>)"
    using t(3,4) d' touches_transaction [OF t(3) d', where v = v] touches_transaction [OF t(3) d', where v = v and t = "transaction t"]
    by (simp_all add: waiting_client_def)
  have "\<exists>r s'. catchB bus_transaction_new
      (\<lambda>e. bindB (get_conn c) (\<lambda>d. thenB (whenB (cd_connected d) (bus_connection_send_oom_error c m))
               (returnB DBUS_HANDLER_RESULT_HANDLED))) (\<lambda>_. body) t = (Inr r, s') \<and> touches_only c t s'"
    using alloc(2)
  proof
    assume "r = Inr ()"
    then show ?thesis
      using alloc(1) dispatched [OF u(1)] touches_trans [OF u(2)]
      by (auto simp: bus_transaction_new_def catchB_def tryB_def thenB_def bindB_def modifyB_def)
  next
    assume "r = Inl NoMemory"
    moreover have "touches_only c (t \<lparr> oom := v \<rparr>) (t \<lparr> oom := v, conns := (conns t)(c \<mapsto> d) \<rparr>)"
      if "cd_name d = None" for d
      using touches_conn [of d c "t \<lparr> oom := v \<rparr>"] that by simp
    ultimately show ?thesis
      using alloc(1) t(3,4) d' touches_trans [OF u(3)] u(3)
      by (auto simp: bus_transaction_new_def catchB_def tryB_def bus_op_defs get_conn_def
          bus_connection_send_oom_error_def dbus_connection_send_preallocated_def update_conn_def)
  qed
  then show ?thesis
    using t(1,2) other(2) touches_trans [OF t(2)]
    by (auto simp: bus_dispatch_def body_def [symmetric] thenB_def [of "retryB _"] bindB_def returnB_def)
qed

definition demo_stranger :: BusContext where
  "demo_stranger = demo_bus
     \<lparr> oom := [True, True, False], conns := (conns demo_bus)(3 \<mapsto> demo_connection '':1.3'' \<lparr> cd_name := None, cd_policy := None \<rparr>),
       incomplete := [3], n_incomplete := 1 \<rparr>"

theorem unregistered_clients_confined_witness:
  "\<exists>r s'. bus_dispatch 3 (demo_call \<lparr> msg_destination := Some (str ''a.b'') \<rparr>) demo_stranger = (Inr r, s') \<and>
     touches_only 3 demo_stranger s'"
proof (rule unregistered_clients_confined)
  show "conns demo_stranger 3 = Some (demo_connection '':1.3'' \<lparr> cd_name := None, cd_policy := None \<rparr>)"
    by (simp add: demo_stranger_def)
qed (simp_all add: demo_call_def dbus_message_new_def dbus_message_is_method_call_def dbus_message_is_signal_def
    message_has_type_interface_member_def demo_connection_def)

end
