(* ===== verification/Dbus_Credentials.thy ===== *)
theory Dbus_Credentials
  imports Dbus_String
begin

text \<open>
  Credentials of a peer (src/dbus/dbus-credentials.c) and the part of the user
  database that turns the name a client gives into a user id (dbus-userdb.c).
  An id that is not known has the value \<open>-1\<close> of its unsigned type; the SID and the
  audit data are pointers that may be \<open>NULL\<close>.  A function that allocates takes the
  outcome of its allocation as an argument and returns the C return value together
  with the credentials as it leaves them.
\<close>

type_synonym dbus_uid = "64 word"
type_synonym dbus_pid = "64 word"

definition DBUS_UID_UNSET :: dbus_uid where "DBUS_UID_UNSET = - 1"
definition DBUS_PID_UNSET :: dbus_pid where "DBUS_PID_UNSET = - 1"

record DBusCredentials =
  cr_unix_uid :: dbus_uid
  cr_unix_pid :: dbus_pid
  cr_windows_sid :: "dbus_string option"
  cr_adt_audit_data :: "dbus_string option"

datatype (plugins only: code size) DBusCredentialType =
  DBUS_CREDENTIAL_UNIX_PROCESS_ID
| DBUS_CREDENTIAL_UNIX_USER_ID
| DBUS_CREDENTIAL_ADT_AUDIT_DATA_ID
| DBUS_CREDENTIAL_WINDOWS_SID

definition dbus_credentials_new :: DBusCredentials where
  "dbus_credentials_new =
     \<lparr> cr_unix_uid = DBUS_UID_UNSET, cr_unix_pid = DBUS_PID_UNSET, cr_windows_sid = None, cr_adt_audit_data = None \<rparr>"

definition dbus_credentials_add_unix_pid :: "DBusCredentials \<Rightarrow> dbus_pid \<Rightarrow> bool \<times> DBusCredentials" where
  "dbus_credentials_add_unix_pid credentials pid = (True, credentials \<lparr> cr_unix_pid := pid \<rparr>)"

definition dbus_credentials_add_unix_uid :: "DBusCredentials \<Rightarrow> dbus_uid \<Rightarrow> bool \<times> DBusCredentials" where
  "dbus_credentials_add_unix_uid credentials uid = (True, credentials \<lparr> cr_unix_uid := uid \<rparr>)"

definition dbus_credentials_add_windows_sid :: "bool \<Rightarrow> DBusCredentials \<Rightarrow> dbus_string \<Rightarrow> bool \<times> DBusCredentials" where
  "dbus_credentials_add_windows_sid memory credentials sid =
     (if memory then (True, credentials \<lparr> cr_windows_sid := Some sid \<rparr>) else (False, credentials))"

definition dbus_credentials_add_adt_audit_data :: "bool \<Rightarrow> DBusCredentials \<Rightarrow> dbus_string \<Rightarrow> bool \<times> DBusCredentials" where
  "dbus_credentials_add_adt_audit_data memory credentials data =
     (if memory then (True, credentials \<lparr> cr_adt_audit_data := Some data \<rparr>) else (False, credentials))"

definition dbus_credentials_include :: "DBusCredentials \<Rightarrow> DBusCredentialType \<Rightarrow> bool" where
  "dbus_credentials_include credentials type =
     (case type of
        DBUS_CREDENTIAL_UNIX_PROCESS_ID \<Rightarrow> cr_unix_pid credentials \<noteq> DBUS_PID_UNSET
      | DBUS_CREDENTIAL_UNIX_USER_ID \<Rightarrow> cr_unix_uid credentials \<noteq> DBUS_UID_UNSET
      | DBUS_CREDENTIAL_WINDOWS_SID \<Rightarrow> cr_windows_sid credentials \<noteq> None
      | DBUS_CREDENTIAL_ADT_AUDIT_DATA_ID \<Rightarrow> cr_adt_audit_data credentials \<noteq> None)"

text \<open>
  The audit data is compared with \<open>memcmp\<close> over the size of the data in \<open>credentials\<close>,
  without regard to the size of the other; where the other is shorter, which makes the
  C function read behind its end, the model yields \<open>False\<close>.
\<close>

definition dbus_credentials_are_superset :: "DBusCredentials \<Rightarrow> DBusCredentials \<Rightarrow> bool" where
  "dbus_credentials_are_superset credentials possible_subset \<longleftrightarrow>
     (cr_unix_pid possible_subset = DBUS_PID_UNSET \<or> cr_unix_pid possible_subset = cr_unix_pid credentials) \<and>
     (cr_unix_uid possible_subset = DBUS_UID_UNSET \<or> cr_unix_uid possible_subset = cr_unix_uid credentials) \<and>
     (case cr_windows_sid possible_subset of
        None \<Rightarrow> True
      | Some sid \<Rightarrow> cr_windows_sid credentials = Some sid) \<and>
     (case cr_adt_audit_data possible_subset of
        None \<Rightarrow> True
      | Some d \<Rightarrow>
          (case cr_adt_audit_data credentials of
             None \<Rightarrow> False
           | Some d' \<Rightarrow> take (length d') d = d'))"

definition dbus_credentials_are_empty :: "DBusCredentials \<Rightarrow> bool" where
  "dbus_credentials_are_empty credentials \<longleftrightarrow>
     cr_unix_pid credentials = DBUS_PID_UNSET \<and> cr_unix_uid credentials = DBUS_UID_UNSET \<and>
     cr_windows_sid credentials = None \<and> cr_adt_audit_data credentials = None"

definition dbus_credentials_are_anonymous :: "DBusCredentials \<Rightarrow> bool" where
  "dbus_credentials_are_anonymous credentials \<longleftrightarrow>
     cr_unix_uid credentials = DBUS_UID_UNSET \<and> cr_windows_sid credentials = None"

definition dbus_credentials_add_credential ::
  "bool \<Rightarrow> DBusCredentials \<Rightarrow> DBusCredentialType \<Rightarrow> DBusCredentials \<Rightarrow> bool \<times> DBusCredentials" where
  "dbus_credentials_add_credential memory credentials which other =
     (if which = DBUS_CREDENTIAL_UNIX_PROCESS_ID \<and> cr_unix_pid other \<noteq> DBUS_PID_UNSET
      then dbus_credentials_add_unix_pid credentials (cr_unix_pid other)
      else if which = DBUS_CREDENTIAL_UNIX_USER_ID \<and> cr_unix_uid other \<noteq> DBUS_UID_UNSET
      then dbus_credentials_add_unix_uid credentials (cr_unix_uid other)
      else if which = DBUS_CREDENTIAL_WINDOWS_SID \<and> cr_windows_sid other \<noteq> None
      then dbus_credentials_add_windows_sid memory credentials (the (cr_windows_sid other))
      else if which = DBUS_CREDENTIAL_ADT_AUDIT_DATA_ID \<and> cr_adt_audit_data other \<noteq> None
      then dbus_credentials_add_adt_audit_data memory credentials (the (cr_adt_audit_data other))
      else (True, credentials))"

text \<open>\<open>m1\<close> and \<open>m2\<close> are the outcomes of copying the audit data and the SID.\<close>

definition dbus_credentials_add_credentials ::
  "bool \<Rightarrow> bool \<Rightarrow> DBusCredentials \<Rightarrow> DBusCredentials \<Rightarrow> bool \<times> DBusCredentials" where
  "dbus_credentials_add_credentials m1 m2 credentials other =
     (let (ok1, c1) = dbus_credentials_add_credential True credentials DBUS_CREDENTIAL_UNIX_PROCESS_ID other in
      if \<not> ok1 then (False, c1)
      else let (ok2, c2) = dbus_credentials_add_credential True c1 DBUS_CREDENTIAL_UNIX_USER_ID other in
      if \<not> ok2 then (False, c2)
      else let (ok3, c3) = dbus_credentials_add_credential m1 c2 DBUS_CREDENTIAL_ADT_AUDIT_DATA_ID other in
      if \<not> ok3 then (False, c3)
      else dbus_credentials_add_credential m2 c3 DBUS_CREDENTIAL_WINDOWS_SID other)"

definition dbus_credentials_clear :: "DBusCredentials \<Rightarrow> DBusCredentials" where
  "dbus_credentials_clear credentials =
     credentials \<lparr> cr_unix_pid := DBUS_PID_UNSET, cr_unix_uid := DBUS_UID_UNSET,
       cr_windows_sid := None, cr_adt_audit_data := None \<rparr>"

definition dbus_credentials_copy :: "bool \<Rightarrow> bool \<Rightarrow> bool \<Rightarrow> DBusCredentials \<Rightarrow> DBusCredentials option" where
  "dbus_credentials_copy m0 m1 m2 credentials =
     (if \<not> m0 then None
      else case dbus_credentials_add_credentials m1 m2 dbus_credentials_new credentials of
             (ok, copy) \<Rightarrow> if ok then Some copy else None)"

definition dbus_credentials_same_user :: "DBusCredentials \<Rightarrow> DBusCredentials \<Rightarrow> bool" where
  "dbus_credentials_same_user credentials other \<longleftrightarrow>
     cr_unix_uid credentials = cr_unix_uid other \<and> cr_windows_sid credentials = cr_windows_sid other"

section \<open>User names\<close>

definition dbus_is_a_number :: "dbus_string \<Rightarrow> nat option" where
  "dbus_is_a_number s =
     (case dbus_string_parse_uint s of
        None \<Rightarrow> None
      | Some (n, e) \<Rightarrow> if e = length s then Some n else None)"

text \<open>
  \<open>_dbus_user_database_lookup\<close> without its cache: a name that is a number is taken as a
  user id.  \<open>getpwuid\<close> and \<open>getpwnam\<close> stand for the password database of the system.
\<close>

definition dbus_user_database_lookup ::
  "(dbus_uid \<Rightarrow> dbus_uid option) \<Rightarrow> (dbus_string \<Rightarrow> dbus_uid option) \<Rightarrow> dbus_uid \<Rightarrow> dbus_string \<Rightarrow> dbus_uid option" where
  "dbus_user_database_lookup getpwuid getpwnam uid username =
     (let uid' = (if uid = DBUS_UID_UNSET
                  then (case dbus_is_a_number username of None \<Rightarrow> uid | Some n \<Rightarrow> of_nat n)
                  else uid)
      in if uid' \<noteq> DBUS_UID_UNSET then getpwuid uid' else getpwnam username)"

definition dbus_credentials_add_from_user ::
  "(dbus_uid \<Rightarrow> dbus_uid option) \<Rightarrow> (dbus_string \<Rightarrow> dbus_uid option) \<Rightarrow> DBusCredentials \<Rightarrow> dbus_string \<Rightarrow>
   bool \<times> DBusCredentials" where
  "dbus_credentials_add_from_user getpwuid getpwnam credentials username =
     (case dbus_user_database_lookup getpwuid getpwnam DBUS_UID_UNSET username of
        None \<Rightarrow> (False, credentials)
      | Some uid \<Rightarrow> dbus_credentials_add_unix_uid credentials uid)"

section \<open>Adding credentials\<close>

text \<open>What a call of the adding functions, complete or not, can leave in the fields.\<close>

lemma dbus_credentials_clear_eq [simp]: "dbus_credentials_clear c = dbus_credentials_new"
  by (simp add: dbus_credentials_clear_def dbus_credentials_new_def)

lemma add_credential_fields:
  assumes "dbus_credentials_add_credential m c which other = (ok, c')"
  shows "cr_unix_uid c' \<in> {cr_unix_uid c, cr_unix_uid other} \<and> cr_windows_sid c' \<in> {cr_windows_sid c, cr_windows_sid other}"
  using assms
  by (auto simp: dbus_credentials_add_credential_def dbus_credentials_add_unix_pid_def dbus_credentials_add_unix_uid_def
      dbus_credentials_add_windows_sid_def dbus_credentials_add_adt_audit_data_def split: if_splits)

lemma add_credentials_fields:
  assumes "dbus_credentials_add_credentials m1 m2 c other = (ok, c')"
  shows "cr_unix_uid c' \<in> {cr_unix_uid c, cr_unix_uid other}" "cr_windows_sid c' \<in> {cr_windows_sid c, cr_windows_sid other}"
  using assms
  by (auto simp: dbus_credentials_add_credentials_def Let_def split: prod.splits if_splits dest!: add_credential_fields)

text \<open>Where memory suffices, \<open>_dbus_credentials_copy\<close> copies, and adding to empty credentials does.\<close>

lemma add_credentials_new [simp]: "dbus_credentials_add_credentials True True dbus_credentials_new c = (True, c)"
  for c :: DBusCredentials
  by (cases c) (auto simp: dbus_credentials_add_credentials_def dbus_credentials_add_credential_def dbus_credentials_new_def
      dbus_credentials_add_unix_pid_def dbus_credentials_add_unix_uid_def dbus_credentials_add_windows_sid_def
      dbus_credentials_add_adt_audit_data_def)

lemma credentials_copy_eq: "dbus_credentials_copy True True True c = Some c" for c :: DBusCredentials
  by (simp add: dbus_credentials_copy_def)

lemma add_credentials_new_ok:
  "dbus_credentials_add_credentials m1 m2 dbus_credentials_new c = (True, c') \<Longrightarrow> c' = c" for c :: DBusCredentials
  by (cases c) (auto simp: dbus_credentials_add_credentials_def dbus_credentials_add_credential_def dbus_credentials_new_def
      dbus_credentials_add_unix_pid_def dbus_credentials_add_unix_uid_def dbus_credentials_add_windows_sid_def
      dbus_credentials_add_adt_audit_data_def split: if_splits)

lemma credentials_copyD: "dbus_credentials_copy m0 m1 m2 c = Some c' \<Longrightarrow> c' = c" for c :: DBusCredentials
  by (auto simp: dbus_credentials_copy_def split: if_splits prod.splits dest: add_credentials_new_ok)

lemma superset_user:
  "dbus_credentials_are_superset c s \<Longrightarrow> cr_unix_uid s \<in> {DBUS_UID_UNSET, cr_unix_uid c}"
  "dbus_credentials_are_superset c s \<Longrightarrow> cr_windows_sid s \<in> {None, cr_windows_sid c}"
  by (auto simp: dbus_credentials_are_superset_def split: option.splits)

end
