(* ===== verification/Dbus_Keyring.thy ===== *)
theory Dbus_Keyring
  imports Dbus_Credentials
begin

text \<open>
  The keyring of cookies (src/dbus/dbus-keyring.c).  A keyring is a file of lines
  \<open>id time secret\<close> in a private directory of a user; the server adds keys to it, and
  a client that can read the file proves with a key that it acts for that user.

  \<open>world\<close> is what the processes share: the outcomes of allocations to come, the
  files, the clock, and how many times random bytes were drawn.  \<open>system\<close> collects
  the operating system calls that the code makes.  Allocation inside the keyring
  functions is one outcome in \<open>_dbus_keyring_new_for_credentials\<close> and is taken to
  succeed in the others.
\<close>

section \<open>The world\<close>

record world =
  wd_memory :: "bool list"
  wd_files :: "dbus_string \<Rightarrow> dbus_string option"
  wd_now :: int
  wd_random :: nat

text \<open>
  \<open>os_random i n\<close> are the \<open>n\<close> bytes of the \<open>i\<close>-th draw; \<open>os_create_lock i\<close> tells whether the
  \<open>i\<close>-th attempt to create the lock file succeeds; \<open>os_keyring_directory\<close> is the keyring
  directory of a user, if the user has a home directory.
\<close>

record system =
  os_getpwuid :: "dbus_uid \<Rightarrow> dbus_uid option"
  os_getpwnam :: "dbus_string \<Rightarrow> dbus_uid option"
  os_geteuid :: dbus_uid
  os_getpid :: dbus_pid
  os_random :: "nat \<Rightarrow> nat \<Rightarrow> byte list"
  os_directory_is_private :: "dbus_string \<Rightarrow> bool"
  os_keyring_directory :: "DBusCredentials \<Rightarrow> dbus_string option"
  os_create_lock :: "nat \<Rightarrow> bool"
  os_delete_lock :: bool
  os_save :: "dbus_string \<Rightarrow> bool"
  build_version :: dbus_string

definition dbus_generate_random_bytes :: "system \<Rightarrow> nat \<Rightarrow> world \<Rightarrow> byte list \<times> world" where
  "dbus_generate_random_bytes os n w = (os_random os (wd_random w) n, w \<lparr> wd_random := Suc (wd_random w) \<rparr>)"

section \<open>Keys\<close>

definition NEW_KEY_TIMEOUT_SECONDS :: int where "NEW_KEY_TIMEOUT_SECONDS = 60 * 5"
definition EXPIRE_KEYS_TIMEOUT_SECONDS :: int where "EXPIRE_KEYS_TIMEOUT_SECONDS = NEW_KEY_TIMEOUT_SECONDS + 60 * 2"
definition MAX_TIME_TRAVEL_SECONDS :: int where "MAX_TIME_TRAVEL_SECONDS = 60 * 5"
definition MAX_KEYS_IN_FILE :: nat where "MAX_KEYS_IN_FILE = 256"
definition MAX_LOCK_TIMEOUTS :: nat where "MAX_LOCK_TIMEOUTS = 32"
definition KEY_LENGTH_BYTES :: nat where "KEY_LENGTH_BYTES = 24"
definition DBUS_INT32_MAX :: int where "DBUS_INT32_MAX = 2147483647"

record DBusKey =
  key_id :: int
  key_creation_time :: int
  key_secret :: dbus_string

record DBusKeyring =
  kr_directory :: dbus_string
  kr_filename :: dbus_string
  kr_filename_lock :: dbus_string
  kr_keys :: "DBusKey list"
  kr_credentials :: DBusCredentials

datatype (plugins only: code size) keyring_failure =
  KeyringError
| KeyringNoMemory
| KeyringAborted
| KeyringDiverges

fun find_key_by_id :: "DBusKey list \<Rightarrow> int \<Rightarrow> DBusKey option" where
  "find_key_by_id [] ident = None"
| "find_key_by_id (k # keys) ident = (if key_id k = ident then Some k else find_key_by_id keys ident)"

definition dbus_keyring_lock :: "system \<Rightarrow> bool" where
  "dbus_keyring_lock os =
     (list_ex (os_create_lock os) [0..<MAX_LOCK_TIMEOUTS] \<or> (os_delete_lock os \<and> os_create_lock os MAX_LOCK_TIMEOUTS))"

text \<open>
  The loop at \<open>retry\<close> in \<open>add_new_key\<close>: draw four bytes until they make an id that
  is not taken.  The negation of the smallest 32 bit integer is itself, which the
  assertion behind it catches.
\<close>

definition key_id_of :: "byte list \<Rightarrow> int" where
  "key_id_of s =
     (let w = (ucast (s ! 0) OR push_bit 8 (ucast (s ! 1)) OR push_bit 16 (ucast (s ! 2)) OR push_bit 24 (ucast (s ! 3)) :: 32 word)
      in if sint w < 0 then sint (- w) else sint w)"

partial_function (option) fresh_key_id ::
  "system \<Rightarrow> DBusKey list \<Rightarrow> world \<Rightarrow> (keyring_failure + int \<times> world) option" where
  "fresh_key_id os keys w =
     (case dbus_generate_random_bytes os 4 w of
        (s, w') \<Rightarrow>
          (if key_id_of s < 0 then Some (Inl KeyringAborted)
           else if find_key_by_id keys (key_id_of s) \<noteq> None then fresh_key_id os keys w'
           else Some (Inr (key_id_of s, w'))))"

declare fresh_key_id.simps [code]

definition add_new_key :: "system \<Rightarrow> DBusKey list \<Rightarrow> world \<Rightarrow> keyring_failure + DBusKey list \<times> world" where
  "add_new_key os keys w =
     (case fresh_key_id os keys w of
        None \<Rightarrow> Inl KeyringDiverges
      | Some (Inl e) \<Rightarrow> Inl e
      | Some (Inr (ident, w1)) \<Rightarrow>
          (case dbus_generate_random_bytes os KEY_LENGTH_BYTES w1 of
             (bytes, w2) \<Rightarrow>
               Inr (keys @ [\<lparr> key_id = ident, key_creation_time = wd_now w2, key_secret = bytes \<rparr>], w2)))"

section \<open>Loading and saving\<close>

text \<open>One line of the file; \<open>None\<close> stands for a line that is ignored.\<close>

definition parse_key_line :: "int \<Rightarrow> dbus_string \<Rightarrow> keyring_failure + DBusKey option" where
  "parse_key_line now line =
     (case dbus_string_parse_int line 0 of
        None \<Rightarrow> Inr None
      | Some (val, n1) \<Rightarrow>
          (if DBUS_INT32_MAX < val \<or> val < 0 then Inr None
           else case dbus_string_skip_blank line n1 of
             None \<Rightarrow> Inl KeyringAborted
           | Some n2 \<Rightarrow>
               (case dbus_string_parse_int line n2 of
                  None \<Rightarrow> Inr None
                | Some (timestamp, n3) \<Rightarrow>
                    (if timestamp < 0 \<or> now + MAX_TIME_TRAVEL_SECONDS < timestamp
                          \<or> timestamp < now - EXPIRE_KEYS_TIMEOUT_SECONDS
                     then Inr None
                     else case dbus_string_skip_blank line n3 of
                       None \<Rightarrow> Inl KeyringAborted
                     | Some n4 \<Rightarrow>
                         (if length line - n4 = 0 then Inr None
                          else case dbus_string_hex_decode line n4 of
                            (secret, end_pos) \<Rightarrow>
                              (if length line \<noteq> end_pos then Inr None
                               else Inr (Some \<lparr> key_id = val, key_creation_time = timestamp, key_secret = secret \<rparr>)))))))"

function load_keys :: "nat \<Rightarrow> int \<Rightarrow> dbus_string \<Rightarrow> DBusKey list \<Rightarrow> keyring_failure + DBusKey list" where
  "load_keys limit now contents keys =
     (case dbus_string_pop_line contents of
        None \<Rightarrow> Inr keys
      | Some (line, rest) \<Rightarrow>
          (if limit \<le> length keys then Inr keys
           else case parse_key_line now line of
             Inl e \<Rightarrow> Inl e
           | Inr None \<Rightarrow> load_keys limit now rest keys
           | Inr (Some k) \<Rightarrow> load_keys limit now rest (keys @ [k])))"
  by pat_completeness auto

lemma find_eol_from_bounds: "find_eol_from i s = Some (eol, n) \<Longrightarrow> i \<le> eol \<and> 0 < n \<and> eol - i + n \<le> length s"
proof (induction i s rule: find_eol_from.induct)
  case (2 i b bs)
  then show ?case
    by (cases bs) (auto split: if_splits)
qed simp

lemma pop_line_shorter: "dbus_string_pop_line s = Some (line, rest) \<Longrightarrow> length rest < length s"
  by (auto simp: dbus_string_pop_line_def dbus_string_find_eol_def split: option.splits if_splits
      dest!: find_eol_from_bounds)

termination load_keys
  by (relation "measure (\<lambda>(limit, now, contents, keys). length contents)") (auto dest: pop_line_shorter)

definition key_line :: "DBusKey \<Rightarrow> dbus_string" where
  "key_line k =
     dbus_string_append_int [] (key_id k) @ [32] @ dbus_string_append_int [] (key_creation_time k) @ [32]
     @ dbus_string_hex_encode (key_secret k) 0 @ [10]"

definition dbus_keyring_reload ::
  "system \<Rightarrow> DBusKeyring \<Rightarrow> bool \<Rightarrow> world \<Rightarrow> keyring_failure + DBusKeyring \<times> world" where
  "dbus_keyring_reload os keyring add_new w =
     (if \<not> os_directory_is_private os (kr_directory keyring) then Inl KeyringError
      else if add_new \<and> \<not> dbus_keyring_lock os then Inl KeyringError
      else
        (let read = (case wd_files w (kr_filename keyring) of None \<Rightarrow> [] | Some c \<Rightarrow> c);
             contents = (if dbus_string_validate_ascii read 0 (length read) then read else [])
         in case load_keys (if add_new then MAX_KEYS_IN_FILE - 1 else MAX_KEYS_IN_FILE) (wd_now w) contents [] of
              Inl e \<Rightarrow> Inl e
            | Inr keys \<Rightarrow>
                (if \<not> add_new then Inr (keyring \<lparr> kr_keys := keys \<rparr>, w)
                 else case add_new_key os keys w of
                   Inl e \<Rightarrow> Inl e
                 | Inr (keys', w') \<Rightarrow>
                     (if os_save os (kr_filename keyring)
                      then Inr (keyring \<lparr> kr_keys := keys' \<rparr>,
                                w' \<lparr> wd_files := (wd_files w') (kr_filename keyring := Some (concat (map key_line keys'))) \<rparr>)
                      else Inl KeyringError))))"

definition dbus_keyring_validate_context :: "dbus_string \<Rightarrow> bool" where
  "dbus_keyring_validate_context context \<longleftrightarrow>
     length context \<noteq> 0 \<and>
     dbus_string_validate_ascii context 0 (length context) \<and>
     dbus_string_find context 0 (str ''/'') = None \<and>
     dbus_string_find context 0 [92] = None \<and>
     dbus_string_find context 0 (str ''.'') = None \<and>
     \<not> fst (dbus_string_find_blank context 0) \<and>
     dbus_string_find context 0 [10] = None \<and>
     dbus_string_find context 0 [13] = None"

definition dbus_concat_dir_and_file :: "dbus_string \<Rightarrow> dbus_string \<Rightarrow> dbus_string" where
  "dbus_concat_dir_and_file dir next_component =
     (if length dir = 0 \<or> length next_component = 0 then dir
      else if last dir = 47 \<and> hd next_component = 47 then butlast dir @ next_component
      else if \<not> (last dir = 47 \<or> hd next_component = 47) then dir @ [47] @ next_component
      else dir @ next_component)"

definition dbus_keyring_new_for_credentials ::
  "system \<Rightarrow> DBusCredentials option \<Rightarrow> dbus_string \<Rightarrow> bool \<Rightarrow> world \<Rightarrow> keyring_failure + DBusKeyring" where
  "dbus_keyring_new_for_credentials os credentials context memory w =
     (if \<not> memory then Inl KeyringNoMemory
      else
        (let process = (\<lambda>c. c \<lparr> cr_unix_pid := os_getpid os, cr_unix_uid := os_geteuid os \<rparr>);
             our = (case credentials of Some c \<Rightarrow> c | None \<Rightarrow> process dbus_credentials_new);
             our' = (if dbus_credentials_are_anonymous our then process our else our)
         in case os_keyring_directory os our' of
              None \<Rightarrow> Inl KeyringNoMemory
            | Some ringdir \<Rightarrow>
                (if \<not> dbus_keyring_validate_context context then Inl KeyringError
                 else
                   (let filename = dbus_concat_dir_and_file ringdir context;
                        keyring = \<lparr> kr_directory = ringdir, kr_filename = filename,
                                    kr_filename_lock = filename @ str ''.lock'', kr_keys = [], kr_credentials = our' \<rparr>
                    in case dbus_keyring_reload os keyring False w of
                         Inr (keyring', w') \<Rightarrow> Inr keyring'
                       | Inl KeyringAborted \<Rightarrow> Inl KeyringAborted
                       | Inl _ \<Rightarrow> Inr keyring))))"

section \<open>Using keys\<close>

fun find_recent_key :: "int \<Rightarrow> DBusKey list \<Rightarrow> DBusKey option" where
  "find_recent_key now [] = None"
| "find_recent_key now (k # keys) =
     (if now - NEW_KEY_TIMEOUT_SECONDS < key_creation_time k then Some k else find_recent_key now keys)"

text \<open>\<open>_dbus_keyring_get_best_key\<close>; the value \<open>-1\<close> of the C function is a failure here.\<close>

definition dbus_keyring_get_best_key ::
  "system \<Rightarrow> DBusKeyring \<Rightarrow> world \<Rightarrow> keyring_failure + int \<times> DBusKeyring \<times> world" where
  "dbus_keyring_get_best_key os keyring w =
     (case find_recent_key (wd_now w) (kr_keys keyring) of
        Some k \<Rightarrow> Inr (key_id k, keyring, w)
      | None \<Rightarrow>
          (case dbus_keyring_reload os keyring True w of
             Inl e \<Rightarrow> Inl e
           | Inr (keyring', w') \<Rightarrow>
               (case find_recent_key (wd_now w') (kr_keys keyring') of
                  Some k \<Rightarrow> Inr (key_id k, keyring', w')
                | None \<Rightarrow> Inl KeyringError)))"

definition dbus_keyring_is_for_credentials :: "DBusKeyring \<Rightarrow> DBusCredentials \<Rightarrow> bool" where
  "dbus_keyring_is_for_credentials keyring credentials = dbus_credentials_same_user (kr_credentials keyring) credentials"

definition dbus_keyring_get_hex_key :: "DBusKeyring \<Rightarrow> int \<Rightarrow> dbus_string" where
  "dbus_keyring_get_hex_key keyring ident =
     (case find_key_by_id (kr_keys keyring) ident of
        None \<Rightarrow> []
      | Some k \<Rightarrow> dbus_string_hex_encode (key_secret k) 0)"

section \<open>What is saved can be loaded\<close>

definition key_ok :: "int \<Rightarrow> DBusKey \<Rightarrow> bool" where
  "key_ok now k \<longleftrightarrow>
     0 \<le> key_id k \<and> key_id k \<le> DBUS_INT32_MAX \<and> 0 \<le> key_creation_time k \<and>
     key_creation_time k \<le> now + MAX_TIME_TRAVEL_SECONDS \<and> now - EXPIRE_KEYS_TIMEOUT_SECONDS \<le> key_creation_time k \<and>
     key_secret k \<noteq> []"

lemmas keyring_limits = DBUS_INT32_MAX_def MAX_TIME_TRAVEL_SECONDS_def EXPIRE_KEYS_TIMEOUT_SECONDS_def
  NEW_KEY_TIMEOUT_SECONDS_def MAX_KEYS_IN_FILE_def KEY_LENGTH_BYTES_def

lemma append_int_bytes:
  assumes "0 \<le> v" "b \<in> set (dbus_string_append_int [] v)"
  shows "is_decimal_digit b"
  using assms decimal_digit [of b "nat v"] by (simp add: dbus_string_append_int_def is_decimal_digit_def)

lemma decimal_digit_ascii: "is_decimal_digit b \<Longrightarrow> DBUS_ISASCII b \<and> \<not> DBUS_IS_ASCII_WHITE b"
proof -
  have "list_all (\<lambda>n. DBUS_ISASCII (of_nat n) \<and> \<not> DBUS_IS_ASCII_WHITE (of_nat n)) [48..<58]"
    by code_simp
  moreover assume "is_decimal_digit b"
  then have "unat b \<in> {48..<58}"
    unfolding is_decimal_digit_def atLeastLessThan_iff by linarith
  ultimately have "DBUS_ISASCII (of_nat (unat b)) \<and> \<not> DBUS_IS_ASCII_WHITE (of_nat (unat b))"
    unfolding list_all_iff set_upt by blast
  then show ?thesis
    by simp
qed

definition key_text :: "DBusKey \<Rightarrow> dbus_string" where
  "key_text k =
     dbus_string_append_int [] (key_id k) @ [32] @ dbus_string_append_int [] (key_creation_time k) @ [32]
     @ dbus_string_hex_encode (key_secret k) 0"

lemma key_line_text: "key_line k = key_text k @ [10]"
  by (simp add: key_line_def key_text_def)

lemma key_text_bytes: "key_ok now k \<Longrightarrow> b \<in> set (key_text k) \<Longrightarrow> DBUS_ISASCII b \<and> b \<noteq> 10 \<and> b \<noteq> 13"
  using hex_encode_bytes [of b "key_secret k"] append_int_bytes [of "key_id k" b] append_int_bytes [of "key_creation_time k" b]
    decimal_digit_ascii [of b]
  by (auto simp: key_ok_def key_text_def DBUS_IS_ASCII_WHITE_def) (simp add: DBUS_ISASCII_def)

lemma pop_line_text:
  assumes "\<forall>b \<in> set xs. b \<noteq> 10 \<and> b \<noteq> 13"
  shows "dbus_string_pop_line (xs @ 10 # rest) = Some (xs, rest)"
proof -
  have "find_eol_from i (xs @ 10 # rest) = Some (i + length xs, 1)" for i
    using assms by (induction xs arbitrary: i) auto
  then show ?thesis
    by (simp add: dbus_string_pop_line_def dbus_string_find_eol_def)
qed

lemma skip_blank_one:
  assumes "s = xs @ 32 # ys" "ys \<noteq> []" "\<not> DBUS_IS_ASCII_WHITE (hd ys)"
  shows "dbus_string_skip_blank s (length xs) = Some (length xs + 1)"
proof -
  obtain y zs where "ys = y # zs"
    using assms(2) by (cases ys) auto
  then show ?thesis
    using assms by (simp add: dbus_string_skip_blank_def DBUS_IS_ASCII_WHITE_def DBUS_IS_ASCII_BLANK_def nth_append)
qed

lemma hd_append_int: "0 \<le> v \<Longrightarrow> dbus_string_append_int [] v \<noteq> [] \<and> \<not> DBUS_IS_ASCII_WHITE (hd (dbus_string_append_int [] v))"
  using append_int_bytes [of v "hd (dbus_string_append_int [] v)"] decimal_digit_ascii
  by (auto simp: dbus_string_append_int_def)

lemma parse_key_text:
  assumes "key_ok now k" "now < 2 ^ 62"
  shows "parse_key_line now (key_text k) = Inr (Some k)"
proof -
  define A where "A = dbus_string_append_int [] (key_id k)"
  define B where "B = dbus_string_append_int [] (key_creation_time k)"
  define C where "C = dbus_string_hex_encode (key_secret k) 0"
  have kt: "key_text k = A @ 32 # B @ 32 # C"
    by (simp add: key_text_def A_def B_def C_def)
  have "length C = 2 * length (key_secret k)" "key_secret k \<noteq> []"
    using assms(1) by (simp_all add: C_def key_ok_def)
  then have "C \<noteq> []"
    by auto
  then have C: "C \<noteq> []" "\<not> DBUS_IS_ASCII_WHITE (hd C)"
    using hex_encode_bytes [of "hd C" "key_secret k"] by (simp_all add: C_def)
  have ranges: "0 \<le> key_id k" "key_id k < 2 ^ 63" "0 \<le> key_creation_time k" "key_creation_time k < 2 ^ 63"
    using assms by (auto simp: key_ok_def keyring_limits)
  have p1: "dbus_string_parse_int (key_text k) 0 = Some (key_id k, length A)"
    using parse_int_append_int [OF ranges(1,2), of "32 # B @ 32 # C" "[]"] by (simp add: kt A_def digit_value_def)
  have s1: "dbus_string_skip_blank (key_text k) (length A) = Some (length A + 1)"
    using skip_blank_one [OF kt] hd_append_int [OF ranges(3)] by (simp add: B_def)
  have p2: "dbus_string_parse_int (key_text k) (length A + 1) = Some (key_creation_time k, length A + 1 + length B)"
    using parse_int_append_int [OF ranges(3,4), of "32 # C" "A @ [32]"] by (simp add: kt B_def digit_value_def)
  have s2: "dbus_string_skip_blank (key_text k) (length A + 1 + length B) = Some (length A + 1 + length B + 1)"
    using skip_blank_one [of "key_text k" "A @ 32 # B" C] C by (simp add: kt)
  have h: "dbus_string_hex_decode (key_text k) (length A + 1 + length B + 1) = (key_secret k, length (key_text k))"
    using hex_decode_encode [of "key_secret k"]
    by (simp add: kt dbus_string_hex_decode_def C_def split: prod.splits)
  show ?thesis
    using assms(1) p1 s1 p2 s2 h C(1) by (simp add: parse_key_line_def key_ok_def kt)
qed

declare load_keys.simps [simp del]

lemma load_keys_concat:
  assumes "\<forall>k \<in> set ks. key_ok now k" "now < 2 ^ 62" "length acc + length ks \<le> limit"
  shows "load_keys limit now (concat (map key_line ks)) acc = Inr (acc @ ks)"
  using assms
proof (induction ks arbitrary: acc)
  case Nil
  then show ?case
    by (simp add: load_keys.simps dbus_string_pop_line_def dbus_string_find_eol_def)
next
  case (Cons k ks)
  have "dbus_string_pop_line (concat (map key_line (k # ks))) = Some (key_text k, concat (map key_line ks))"
    using pop_line_text [of "key_text k"] key_text_bytes [of now k] Cons.prems(1) by (simp add: key_line_text)
  then show ?case
    using parse_key_text [of now k] Cons by (subst load_keys.simps) simp
qed

lemma hex_decode_nonempty:
  assumes "dbus_string_hex_decode s start = (r, length s)" "start < length s"
  shows "r \<noteq> []"
proof -
  have "hex_decode_loop hb res n ps = (r, n') \<Longrightarrow> res \<noteq> [] \<Longrightarrow> r \<noteq> []" for hb res n ps n'
    by (induction hb res n ps rule: hex_decode_loop.induct) (auto split: option.splits if_splits)
  moreover obtain p ps where "drop start s = p # ps"
    using assms(2) by (cases "drop start s") auto
  ultimately show ?thesis
    using assms by (auto simp: dbus_string_hex_decode_def split: prod.splits option.splits)
qed

lemma parse_key_line_ok: "parse_key_line now line = Inr (Some k) \<Longrightarrow> key_ok now k"
  using hex_decode_nonempty [of line]
  by (auto simp: parse_key_line_def key_ok_def not_less not_le split: option.splits if_splits prod.splits)

lemma load_keys_ok:
  "load_keys limit now contents keys = Inr ks \<Longrightarrow> \<forall>k \<in> set keys. key_ok now k \<Longrightarrow> length keys \<le> limit \<Longrightarrow>
   (\<forall>k \<in> set ks. key_ok now k) \<and> length ks \<le> limit"
proof (induction limit now contents keys rule: load_keys.induct)
  case (1 limit now contents keys)
  note step = 1(3) [unfolded load_keys.simps [of limit now contents keys]]
  show ?case
  proof (cases "dbus_string_pop_line contents")
    case None
    then show ?thesis
      using step 1(4,5) by simp
  next
    case (Some lr)
    obtain line rest where lr: "lr = (line, rest)"
      by fastforce
    show ?thesis
      using step 1(1) [OF Some lr [symmetric]] 1(2) [OF Some lr [symmetric]] 1(4,5) Some lr parse_key_line_ok [of now line]
      by (auto split: if_splits sum.splits option.splits)
  qed
qed

lemma key_id_of_bound: "key_id_of s \<le> DBUS_INT32_MAX"
proof -
  have "sint x \<le> DBUS_INT32_MAX" for x :: "32 word"
    using sint_lt [of x] by (simp add: DBUS_INT32_MAX_def)
  then show ?thesis
    by (simp add: key_id_of_def Let_def)
qed

definition fresh_result :: "DBusKey list \<Rightarrow> world \<Rightarrow> keyring_failure + int \<times> world \<Rightarrow> bool" where
  "fresh_result keys w y \<longleftrightarrow>
     (\<forall>ident w'. y = Inr (ident, w') \<longrightarrow>
        0 \<le> ident \<and> ident \<le> DBUS_INT32_MAX \<and> find_key_by_id keys ident = None \<and> wd_now w' = wd_now w)"

lemma fresh_key_id_result:
  assumes "fresh_key_id os keys w = Some y"
  shows "fresh_result keys w y"
  using assms
proof (rule fresh_key_id.raw_induct [rotated, where P = "\<lambda>os keys w y. fresh_result keys w y"])
  fix fresh os keys w y
  assume IH: "\<And>os keys w y. fresh os keys w = Some y \<Longrightarrow> fresh_result keys w y"
    and step: "(case dbus_generate_random_bytes os 4 w of
        (s, w') \<Rightarrow>
          (if key_id_of s < 0 then Some (Inl KeyringAborted)
           else if find_key_by_id keys (key_id_of s) \<noteq> None then fresh os keys w'
           else Some (Inr (key_id_of s, w')))) = Some y"
  show "fresh_result keys w y"
    using step IH [of os keys "w \<lparr> wd_random := Suc (wd_random w) \<rparr>" y] key_id_of_bound
    by (auto simp: dbus_generate_random_bytes_def fresh_result_def split: if_splits)
qed

text \<open>The search for an id ends as soon as one is drawn that is not in the file.\<close>

lemma fresh_key_id_returns:
  "find_key_by_id keys (key_id_of (os_random os (wd_random w + n) 4)) = None \<Longrightarrow> fresh_key_id os keys w \<noteq> None"
proof (induction n arbitrary: w)
  case 0
  then show ?case
    by (subst fresh_key_id.simps) (auto simp: dbus_generate_random_bytes_def)
next
  case (Suc n)
  then show ?case
    by (subst fresh_key_id.simps) (auto simp: dbus_generate_random_bytes_def)
qed

definition random_bytes_sized :: "system \<Rightarrow> bool" where
  "random_bytes_sized os \<longleftrightarrow> (\<forall>i n. length (os_random os i n) = n)"

lemma add_new_key_ok:
  assumes "add_new_key os keys w = Inr (keys', w')" "random_bytes_sized os" "0 \<le> wd_now w"
  shows "\<exists>k. keys' = keys @ [k] \<and> key_ok (wd_now w) k \<and> wd_now w' = wd_now w \<and> find_key_by_id keys (key_id k) = None"
proof -
  obtain ident w1 where f: "fresh_key_id os keys w = Some (Inr (ident, w1))"
    and k: "keys' = keys @ [\<lparr> key_id = ident, key_creation_time = wd_now w1, key_secret = os_random os (wd_random w1) KEY_LENGTH_BYTES \<rparr>]"
    and w': "wd_now w' = wd_now w1"
    using assms(1) by (auto simp: add_new_key_def dbus_generate_random_bytes_def split: option.splits sum.splits)
  have "length (os_random os (wd_random w1) KEY_LENGTH_BYTES) = KEY_LENGTH_BYTES"
    using assms(2) by (simp add: random_bytes_sized_def)
  then have "os_random os (wd_random w1) KEY_LENGTH_BYTES \<noteq> []"
    by (auto simp: KEY_LENGTH_BYTES_def)
  then show ?thesis
    using fresh_key_id_result [OF f] k w' assms(3) by (simp add: key_ok_def keyring_limits fresh_result_def)
qed

lemma key_lines_ascii:
  assumes "\<forall>k \<in> set keys. key_ok now k"
  shows "dbus_string_validate_ascii (concat (map key_line keys)) 0 (length (concat (map key_line keys)))"
proof -
  have "DBUS_ISASCII b" if "k \<in> set keys" "b \<in> set (key_line k)" for k b
    using that assms key_text_bytes [of now k b] by (auto simp: key_line_text) (simp add: DBUS_ISASCII_def)
  then show ?thesis
    by (auto simp: dbus_string_validate_ascii_def list_all_iff)
qed

lemma reload_adds:
  assumes "dbus_keyring_reload os kr True w = Inr (kr', w')" "random_bytes_sized os" "0 \<le> wd_now w"
  shows "(\<forall>k \<in> set (kr_keys kr'). key_ok (wd_now w) k) \<and> length (kr_keys kr') \<le> MAX_KEYS_IN_FILE
    \<and> wd_now w' = wd_now w \<and> wd_files w' (kr_filename kr) = Some (concat (map key_line (kr_keys kr')))
    \<and> kr_filename kr' = kr_filename kr"
proof -
  obtain contents keys keys' w1 where l: "load_keys (MAX_KEYS_IN_FILE - 1) (wd_now w) contents [] = Inr keys"
    and a: "add_new_key os keys w = Inr (keys', w1)"
    and r: "kr' = kr \<lparr> kr_keys := keys' \<rparr>"
      "w' = w1 \<lparr> wd_files := (wd_files w1) (kr_filename kr := Some (concat (map key_line keys'))) \<rparr>"
    using assms(1) by (auto simp: dbus_keyring_reload_def Let_def split: if_splits sum.splits)
  then show ?thesis
    using load_keys_ok [OF l] add_new_key_ok [OF a assms(2,3)] by (auto simp: MAX_KEYS_IN_FILE_def)
qed

lemma reload_reads:
  assumes "wd_files w (kr_filename kr) = Some (concat (map key_line keys))" "os_directory_is_private os (kr_directory kr)"
    and "\<forall>k \<in> set keys. key_ok (wd_now w) k" "wd_now w < 2 ^ 62" "length keys \<le> MAX_KEYS_IN_FILE"
  shows "dbus_keyring_reload os kr False w = Inr (kr \<lparr> kr_keys := keys \<rparr>, w)"
  using load_keys_concat [OF assms(3,4), of "[]" MAX_KEYS_IN_FILE] assms(1,2,5) key_lines_ascii [OF assms(3)]
  by (simp add: dbus_keyring_reload_def Let_def)



definition example_system :: "DBusCredentials \<Rightarrow> system" where
  "example_system c =
     \<lparr> os_getpwuid = Some, os_getpwnam = (\<lambda>n. None), os_geteuid = cr_unix_uid c, os_getpid = 1,
       os_random = (\<lambda>i n. replicate n (of_nat (i + 65))), os_directory_is_private = (\<lambda>d. True),
       os_keyring_directory = (\<lambda>c. Some (str ''/k'')), os_create_lock = (\<lambda>i. True), os_delete_lock = True,
       os_save = (\<lambda>f. True), build_version = str ''1.1'' \<rparr>"

definition example_user :: DBusCredentials where
  "example_user = dbus_credentials_new \<lparr> cr_unix_uid := 1000 \<rparr>"

definition example_keyring :: DBusKeyring where
  "example_keyring =
     \<lparr> kr_directory = str ''/k'', kr_filename = str ''/k/c'', kr_filename_lock = str ''/k/c.lock'', kr_keys = [],
       kr_credentials = example_user \<rparr>"

definition example_world :: world where
  "example_world = \<lparr> wd_memory = [], wd_files = (\<lambda>f. None), wd_now = 1000, wd_random = 0 \<rparr>"

text \<open>The hypotheses of \<open>keyring_shared\<close> hold for a fresh keyring file.\<close>

lemma example_reload:
  "\<exists>kr' w'. dbus_keyring_reload (example_system example_user) example_keyring True example_world = Inr (kr', w')"
proof -
  have key: "0 \<le> key_id_of (replicate 4 65)"
    by code_simp
  have "fresh_key_id (example_system example_user) [] example_world
      = Some (Inr (key_id_of (replicate 4 65), example_world \<lparr> wd_random := 1 \<rparr>))"
    using key by (subst fresh_key_id.simps) (simp add: dbus_generate_random_bytes_def example_system_def example_world_def)
  moreover have "load_keys n t [] [] = Inr []" for n t
    by (simp add: load_keys.simps dbus_string_pop_line_def dbus_string_find_eol_def)
  moreover have "dbus_keyring_lock (example_system example_user)"
    by (simp add: dbus_keyring_lock_def example_system_def MAX_LOCK_TIMEOUTS_def)
  ultimately show ?thesis
    by (simp add: dbus_keyring_reload_def add_new_key_def dbus_generate_random_bytes_def Let_def
        example_system_def example_world_def dbus_string_validate_ascii_def str_range_def)
qed


end
