(* ===== verification/Dbus_Sha.thy ===== *)
theory Dbus_Sha
  imports Dbus_String
begin

text \<open>
  SHA-1 (src/dbus/dbus-sha.c), which the cookie mechanism of the authentication
  protocol relies on.  The context is modelled as the struct is, with its data area
  \<open>data[16]\<close> as 64 bytes; the machine is little endian, so that \<open>swap_words\<close> is
  compiled in and a word of the data area is read with its low byte first.
  \<open>sha_append\<close> and \<open>sha_finish\<close> are proved to compute the hash function of FIPS 180-1,
  however the input is cut into pieces.
\<close>

section \<open>The transformation of one block\<close>

definition ROTL :: "nat \<Rightarrow> 32 word \<Rightarrow> 32 word" where
  "ROTL n x = push_bit n x OR drop_bit (32 - n) x"

definition f1 :: "32 word \<Rightarrow> 32 word \<Rightarrow> 32 word \<Rightarrow> 32 word" where "f1 x y z = z XOR (x AND (y XOR z))"
definition f2 :: "32 word \<Rightarrow> 32 word \<Rightarrow> 32 word \<Rightarrow> 32 word" where "f2 x y z = x XOR y XOR z"
definition f3 :: "32 word \<Rightarrow> 32 word \<Rightarrow> 32 word \<Rightarrow> 32 word" where "f3 x y z = (x AND y) OR (z AND (x OR y))"
definition f4 :: "32 word \<Rightarrow> 32 word \<Rightarrow> 32 word \<Rightarrow> 32 word" where "f4 x y z = x XOR y XOR z"

definition K1 :: "32 word" where "K1 = 0x5A827999"
definition K2 :: "32 word" where "K2 = 0x6ED9EBA1"
definition K3 :: "32 word" where "K3 = 0x8F1BBCDC"
definition K4 :: "32 word" where "K4 = 0xCA62C1D6"

text \<open>
  \<open>expand\<close> stores the next word of the schedule in the circular buffer and yields it;
  \<open>i - 14\<close> and the like are taken modulo 16.
\<close>

definition expand :: "32 word list \<Rightarrow> nat \<Rightarrow> 32 word list" where
  "expand W i =
     W[i mod 16 := ROTL 1 (W ! (i mod 16) XOR W ! ((i - 14) mod 16) XOR W ! ((i - 8) mod 16) XOR W ! ((i - 3) mod 16))]"

type_synonym sha_vars = "32 word \<times> 32 word \<times> 32 word \<times> 32 word \<times> 32 word"

text \<open>
  One \<open>subRound\<close>.  The calls of the code rotate the names of the five variables:
  the result is listed in the order in which the next call takes them.
\<close>

fun subRound :: "(32 word \<Rightarrow> 32 word \<Rightarrow> 32 word \<Rightarrow> 32 word) \<Rightarrow> 32 word \<Rightarrow> 32 word \<Rightarrow> sha_vars \<Rightarrow> sha_vars" where
  "subRound f k data (a, b, c, d, e) = (e + (ROTL 5 a + f b c d + k + data), a, ROTL 30 b, c, d)"

definition round_function :: "nat \<Rightarrow> 32 word \<Rightarrow> 32 word \<Rightarrow> 32 word \<Rightarrow> 32 word" where
  "round_function i = (if i < 20 then f1 else if i < 40 then f2 else if i < 60 then f3 else f4)"

definition round_constant :: "nat \<Rightarrow> 32 word" where
  "round_constant i = (if i < 20 then K1 else if i < 40 then K2 else if i < 60 then K3 else K4)"

text \<open>The 80 calls of \<open>subRound\<close>, written as a loop over their numbers.\<close>

fun sha_round :: "nat \<Rightarrow> sha_vars \<times> 32 word list \<Rightarrow> sha_vars \<times> 32 word list" where
  "sha_round i (vars, eData) =
     (let eData' = (if i < 16 then eData else expand eData i)
      in (subRound (round_function i) (round_constant i) (eData' ! (i mod 16)) vars, eData'))"

definition add_digest :: "32 word list \<Rightarrow> sha_vars \<Rightarrow> 32 word list" where
  "add_digest digest vars =
     (case vars of (a, b, c, d, e) \<Rightarrow>
        [digest ! 0 + a, digest ! 1 + b, digest ! 2 + c, digest ! 3 + d, digest ! 4 + e])"

definition SHATransform :: "32 word list \<Rightarrow> 32 word list \<Rightarrow> 32 word list" where
  "SHATransform digest data =
     (let vars = (digest ! 0, digest ! 1, digest ! 2, digest ! 3, digest ! 4);
          (vars', eData) = fold sha_round [0..<80] (vars, take 16 data)
      in add_digest digest vars')"

section \<open>Words in memory\<close>

definition DBUS_UINT32_SWAP_LE_BE :: "32 word \<Rightarrow> 32 word" where
  "DBUS_UINT32_SWAP_LE_BE val =
     (push_bit 24 (val AND 0x000000ff) OR push_bit 8 (val AND 0x0000ff00) OR
      drop_bit 8 (val AND 0x00ff0000) OR drop_bit 24 (val AND 0xff000000))"

definition word_bytes :: "32 word \<Rightarrow> byte list" where
  "word_bytes w = [ucast w, ucast (drop_bit 8 w), ucast (drop_bit 16 w), ucast (drop_bit 24 w)]"

fun words_in :: "byte list \<Rightarrow> 32 word list" where
  "words_in (a # b # c # d # bs) =
     (ucast a OR push_bit 8 (ucast b) OR push_bit 16 (ucast c) OR push_bit 24 (ucast d)) # words_in bs"
| "words_in bs = []"

text \<open>\<open>swap_words\<close> on the first \<open>n\<close> bytes of a memory area.\<close>

definition swap_words :: "byte list \<Rightarrow> nat \<Rightarrow> byte list" where
  "swap_words buffer n =
     concat (map (\<lambda>w. word_bytes (DBUS_UINT32_SWAP_LE_BE w)) (words_in (take n buffer))) @ drop n buffer"

text \<open>\<open>memmove\<close> and \<open>memset\<close> at an offset of the data area.\<close>

definition put_bytes :: "byte list \<Rightarrow> nat \<Rightarrow> byte list \<Rightarrow> byte list" where
  "put_bytes data off bs = take off data @ bs @ drop (off + length bs) data"

section \<open>The context\<close>

definition SHA_DATASIZE :: nat where "SHA_DATASIZE = 64"

record DBusSHAContext =
  sha_digest :: "32 word list"
  sha_count_lo :: "32 word"
  sha_count_hi :: "32 word"
  sha_data :: "byte list"

definition sha_init :: "DBusSHAContext \<Rightarrow> DBusSHAContext" where
  "sha_init context = context \<lparr>
     sha_digest := [0x67452301, 0xEFCDAB89, 0x98BADCFE, 0x10325476, 0xC3D2E1F0],
     sha_count_lo := 0, sha_count_hi := 0 \<rparr>"

text \<open>\<open>swap_words (context->data, SHA_DATASIZE); SHATransform (context->digest, context->data)\<close>\<close>

definition transform_data :: "DBusSHAContext \<Rightarrow> DBusSHAContext" where
  "transform_data context =
     (let data = swap_words (sha_data context) SHA_DATASIZE
      in context \<lparr> sha_digest := SHATransform (sha_digest context) (words_in data), sha_data := data \<rparr>)"

function sha_append_loop :: "DBusSHAContext \<Rightarrow> byte list \<Rightarrow> DBusSHAContext" where
  "sha_append_loop context buffer =
     (if SHA_DATASIZE \<le> length buffer
      then sha_append_loop
             (transform_data (context \<lparr> sha_data := put_bytes (sha_data context) 0 (take SHA_DATASIZE buffer) \<rparr>))
             (drop SHA_DATASIZE buffer)
      else context \<lparr> sha_data := put_bytes (sha_data context) 0 buffer \<rparr>)"
  by pat_completeness auto

termination sha_append_loop
  by (relation "measure (\<lambda>(context, buffer). length buffer)") (auto simp: SHA_DATASIZE_def)

definition update_count :: "DBusSHAContext \<Rightarrow> nat \<Rightarrow> DBusSHAContext" where
  "update_count context count =
     (let tmp = sha_count_lo context;
          lo = tmp + push_bit 3 (of_nat count);
          hi = (if lo < tmp then sha_count_hi context + 1 else sha_count_hi context)
      in context \<lparr> sha_count_lo := lo, sha_count_hi := hi + drop_bit 29 (of_nat count) \<rparr>)"

definition sha_append :: "DBusSHAContext \<Rightarrow> byte list \<Rightarrow> DBusSHAContext" where
  "sha_append context buffer =
     (let tmp = sha_count_lo context;
          context' = update_count context (length buffer);
          dataCount = unat (drop_bit 3 tmp AND 0x3F)
      in if dataCount \<noteq> 0 then
           (let room = SHA_DATASIZE - dataCount in
            if length buffer < room
            then context' \<lparr> sha_data := put_bytes (sha_data context') dataCount buffer \<rparr>
            else sha_append_loop
                   (transform_data (context' \<lparr> sha_data := put_bytes (sha_data context') dataCount (take room buffer) \<rparr>))
                   (drop room buffer))
         else sha_append_loop context' buffer)"

definition sha_finish :: "DBusSHAContext \<Rightarrow> byte list" where
  "sha_finish context =
     (let used = unat (drop_bit 3 (sha_count_lo context) AND 0x3F);
          c1 = context \<lparr> sha_data := put_bytes (sha_data context) used [0x80] \<rparr>;
          count = SHA_DATASIZE - 1 - used;
          c2 = (if count < 8
                then (let c = transform_data (c1 \<lparr> sha_data := put_bytes (sha_data c1) (used + 1) (replicate count 0) \<rparr>)
                      in c \<lparr> sha_data := put_bytes (sha_data c) 0 (replicate (SHA_DATASIZE - 8) 0) \<rparr>)
                else c1 \<lparr> sha_data := put_bytes (sha_data c1) (used + 1) (replicate (count - 8) 0) \<rparr>);
          data = put_bytes (put_bytes (sha_data c2) 56 (word_bytes (sha_count_hi c2))) 60 (word_bytes (sha_count_lo c2));
          swapped = swap_words data (SHA_DATASIZE - 8);
          digest = SHATransform (sha_digest c2) (words_in swapped)
      in concat (map (\<lambda>w. word_bytes (DBUS_UINT32_SWAP_LE_BE w)) digest))"

definition dbus_sha_init :: "DBusSHAContext \<Rightarrow> DBusSHAContext" where
  "dbus_sha_init context = sha_init context"

definition dbus_sha_update :: "DBusSHAContext \<Rightarrow> dbus_string \<Rightarrow> DBusSHAContext" where
  "dbus_sha_update context data = sha_append context data"

definition dbus_sha_final :: "DBusSHAContext \<Rightarrow> dbus_string \<Rightarrow> dbus_string" where
  "dbus_sha_final context results = results @ sha_finish context"

text \<open>
  \<open>_dbus_sha_compute\<close>; \<open>stack\<close> is the context before it is initialised, whose data
  area has arbitrary contents.
\<close>

definition dbus_sha_compute :: "DBusSHAContext \<Rightarrow> dbus_string \<Rightarrow> dbus_string \<Rightarrow> dbus_string" where
  "dbus_sha_compute stack data ascii_output =
     (let context = dbus_sha_update (dbus_sha_init stack) data;
          digest = dbus_sha_final context []
      in ascii_output @ dbus_string_hex_encode digest 0)"

section \<open>The hash function of the standard\<close>

text \<open>A message is padded to whole blocks of 64 bytes.\<close>

definition be_bytes :: "32 word \<Rightarrow> byte list" where
  "be_bytes w = [ucast (drop_bit 24 w), ucast (drop_bit 16 w), ucast (drop_bit 8 w), ucast w]"

fun be_words :: "byte list \<Rightarrow> 32 word list" where
  "be_words (a # b # c # d # bs) =
     (push_bit 24 (ucast a) OR push_bit 16 (ucast b) OR push_bit 8 (ucast c) OR ucast d) # be_words bs"
| "be_words bs = []"

definition sha1_length :: "nat \<Rightarrow> byte list" where
  "sha1_length n = be_bytes (of_nat (8 * n div 2 ^ 32)) @ be_bytes (of_nat (8 * n))"

definition sha1_padded :: "byte list \<Rightarrow> byte list" where
  "sha1_padded msg = msg @ [0x80] @ replicate ((119 - length msg mod 64) mod 64) 0 @ sha1_length (length msg)"

text \<open>The message schedule, the functions and the rounds as the standard writes them.\<close>

fun sha1_schedule :: "nat \<Rightarrow> 32 word list \<Rightarrow> 32 word list" where
  "sha1_schedule 0 W = W"
| "sha1_schedule (Suc n) W =
     (let t = length W
      in sha1_schedule n (W @ [ROTL 1 (W ! (t - 3) XOR W ! (t - 8) XOR W ! (t - 14) XOR W ! (t - 16))]))"

definition sha1_f :: "nat \<Rightarrow> 32 word \<Rightarrow> 32 word \<Rightarrow> 32 word \<Rightarrow> 32 word" where
  "sha1_f t b c d =
     (if t < 20 then (b AND c) OR (NOT b AND d)
      else if t < 40 then b XOR c XOR d
      else if t < 60 then (b AND c) OR (b AND d) OR (c AND d)
      else b XOR c XOR d)"

definition sha1_k :: "nat \<Rightarrow> 32 word" where
  "sha1_k t = (if t < 20 then 0x5A827999 else if t < 40 then 0x6ED9EBA1 else if t < 60 then 0x8F1BBCDC else 0xCA62C1D6)"

fun sha1_round :: "32 word list \<Rightarrow> nat \<Rightarrow> sha_vars \<Rightarrow> sha_vars" where
  "sha1_round W t (a, b, c, d, e) = (ROTL 5 a + sha1_f t b c d + e + W ! t + sha1_k t, a, ROTL 30 b, c, d)"

definition sha1_block :: "32 word list \<Rightarrow> 32 word list \<Rightarrow> 32 word list" where
  "sha1_block H M =
     add_digest H (fold (sha1_round (sha1_schedule 64 M)) [0..<80] (H ! 0, H ! 1, H ! 2, H ! 3, H ! 4))"

function sha1_blocks :: "32 word list \<Rightarrow> byte list \<Rightarrow> 32 word list" where
  "sha1_blocks H msg = (if length msg < 64 then H else sha1_blocks (sha1_block H (be_words (take 64 msg))) (drop 64 msg))"
  by pat_completeness auto

termination sha1_blocks
  by (relation "measure (\<lambda>(H, msg). length msg)") auto

definition sha1_initial :: "32 word list" where
  "sha1_initial = [0x67452301, 0xEFCDAB89, 0x98BADCFE, 0x10325476, 0xC3D2E1F0]"

definition sha1 :: "byte list \<Rightarrow> byte list" where
  "sha1 msg = concat (map be_bytes (sha1_blocks sha1_initial (sha1_padded msg)))"

section \<open>One block\<close>

lemma round_function_eq: "round_function t b c d = sha1_f t b c d"
proof -
  have "f1 b c d = (b AND c) OR (NOT b AND d)"
    by (rule bit_eqI) (auto simp: f1_def bit_simps)
  moreover have "f3 b c d = (b AND c) OR (b AND d) OR (c AND d)"
    by (rule bit_eqI) (auto simp: f3_def bit_simps)
  ultimately show ?thesis
    by (simp add: round_function_def sha1_f_def f2_def f4_def)
qed

lemma round_constant_eq: "round_constant t = sha1_k t"
  by (simp add: round_constant_def sha1_k_def K1_def K2_def K3_def K4_def)

lemma length_sha1_schedule [simp]: "length (sha1_schedule n W) = length W + n"
  by (induction n W rule: sha1_schedule.induct) (auto simp: Let_def)

lemma sha1_schedule_prefix: "t < length W \<Longrightarrow> sha1_schedule n W ! t = W ! t"
  by (induction n W rule: sha1_schedule.induct) (auto simp: Let_def nth_append)

lemma sha1_schedule_rec:
  "16 \<le> length W \<Longrightarrow> length W \<le> t \<Longrightarrow> t < length W + n \<Longrightarrow>
   sha1_schedule n W ! t =
     ROTL 1 (sha1_schedule n W ! (t - 3) XOR sha1_schedule n W ! (t - 8)
             XOR sha1_schedule n W ! (t - 14) XOR sha1_schedule n W ! (t - 16))"
proof (induction n W rule: sha1_schedule.induct)
  case (2 n W)
  let ?w = "ROTL 1 (W ! (length W - 3) XOR W ! (length W - 8) XOR W ! (length W - 14) XOR W ! (length W - 16))"
  show ?case
  proof (cases "t = length W")
    case True
    then show ?thesis
      using 2(2) by (simp add: Let_def sha1_schedule_prefix nth_append)
  next
    case False
    then show ?thesis
      using 2(1) [OF refl] 2(2-) by (simp add: Let_def)
  qed
qed simp

definition schedule_buffer :: "32 word list \<Rightarrow> nat \<Rightarrow> 32 word list \<Rightarrow> bool" where
  "schedule_buffer S i e \<longleftrightarrow> length e = 16 \<and> (\<forall>t. max i 16 \<le> t + 16 \<and> t < max i 16 \<longrightarrow> e ! (t mod 16) = S ! t)"

lemma expand_buffer:
  assumes "schedule_buffer S i e" "16 \<le> i"
    and "S ! i = ROTL 1 (S ! (i - 3) XOR S ! (i - 8) XOR S ! (i - 14) XOR S ! (i - 16))"
  shows "schedule_buffer S (Suc i) (expand e i)"
proof -
  have e: "length e = 16" "e ! (t mod 16) = S ! t" if "i \<le> t + 16" "t < i" for t
    using assms that by (auto simp: schedule_buffer_def max_def)
  have "(i - 16) mod 16 = i mod 16"
    using assms(2) by (simp add: le_mod_geq)
  then have "e ! (i mod 16) = S ! (i - 16)"
    using e(2) [of "i - 16"] assms(2) by simp
  then have new: "expand e i = e[i mod 16 := S ! i]"
    using e(2) [of "i - 14"] e(2) [of "i - 8"] e(2) [of "i - 3"] assms(2,3)
    by (simp add: expand_def xor.commute xor.left_commute xor.assoc)
  have "expand e i ! (t mod 16) = S ! t" if t: "Suc i \<le> t + 16" "t < Suc i" for t
  proof (cases "t = i")
    case False
    then have "t mod 16 \<noteq> i mod 16"
      using t by (auto simp: mod_eq_iff_dvd_symdiff_nat dest!: dvd_imp_le)
    then show ?thesis
      using new e(2) [of t] t False by simp
  qed (use new e(1) [of "i - 1"] assms(2) in simp)
  then show ?thesis
    using e(1) [of "i - 1"] assms(2) new by (simp add: schedule_buffer_def max_def)
qed

lemma rounds_eq:
  assumes "length W = 16" "i \<le> 80"
  shows "\<exists>e. fold sha_round [0..<i] (vars, W) = (fold (sha1_round (sha1_schedule 64 W)) [0..<i] vars, e)
           \<and> schedule_buffer (sha1_schedule 64 W) i e"
  using assms(2)
proof (induction i)
  case 0
  then show ?case
    using assms(1) by (auto simp: schedule_buffer_def sha1_schedule_prefix)
next
  case (Suc i)
  let ?S = "sha1_schedule 64 W"
  let ?v = "fold (sha1_round ?S) [0..<i] vars"
  obtain e where e: "fold sha_round [0..<i] (vars, W) = (?v, e)" "schedule_buffer ?S i e"
    using Suc by auto
  let ?e = "if i < 16 then e else expand e i"
  have buf: "schedule_buffer ?S (Suc i) ?e"
    using e(2) expand_buffer [OF e(2)] sha1_schedule_rec [of W i 64] assms(1) Suc.prems
    by (auto simp: schedule_buffer_def max_def)
  then have "?e ! (i mod 16) = ?S ! i"
    by (auto simp: schedule_buffer_def max_def)
  then have "sha_round i (?v, e) = (sha1_round ?S i ?v, ?e)"
    by (cases ?v) (simp add: Let_def round_function_eq round_constant_eq algebra_simps)
  then show ?case
    using e(1) buf by auto
qed

lemma SHATransform_eq: "length W = 16 \<Longrightarrow> SHATransform H W = sha1_block H W"
  using rounds_eq [of W 80 "(H ! 0, H ! 1, H ! 2, H ! 3, H ! 4)"]
  by (auto simp: SHATransform_def sha1_block_def Let_def simp del: upt_rec_numeral)

section \<open>Byte order\<close>

lemma eq32I:
  fixes x y :: "32 word"
  assumes "\<And>j. j < 8 \<Longrightarrow> bit x j = bit y j" "\<And>j. j < 8 \<Longrightarrow> bit x (8 + j) = bit y (8 + j)"
    "\<And>j. j < 8 \<Longrightarrow> bit x (16 + j) = bit y (16 + j)" "\<And>j. j < 8 \<Longrightarrow> bit x (24 + j) = bit y (24 + j)"
  shows "x = y"
proof (rule bit_eqI)
  fix n
  assume "possible_bit TYPE(32 word) n"
  then consider "n < 8" | "8 \<le> n" "n - 8 < 8" | "16 \<le> n" "n - 16 < 8" | "24 \<le> n" "n - 24 < 8"
    unfolding possible_bit_word by fastforce
  then show "bit x n = bit y n"
    using assms by cases fastforce+
qed

lemma bit_masks:
  "bit (0xff :: 32 word) n \<longleftrightarrow> n < 8" "bit (0xff00 :: 32 word) n \<longleftrightarrow> 8 \<le> n \<and> n < 16"
  "bit (0xff0000 :: 32 word) n \<longleftrightarrow> 16 \<le> n \<and> n < 24" "bit (0xff000000 :: 32 word) n \<longleftrightarrow> 24 \<le> n \<and> n < 32"
proof -
  have *: "bit (push_bit k (mask 8 :: 32 word)) n \<longleftrightarrow> k \<le> n \<and> n < k + 8" if "k + 8 \<le> 32" for k
    using that unfolding bit_push_bit_iff bit_mask_iff possible_bit_word by auto
  have "(0xff :: 32 word) = push_bit 0 (mask 8)" "(0xff00 :: 32 word) = push_bit 8 (mask 8)"
    "(0xff0000 :: 32 word) = push_bit 16 (mask 8)" "(0xff000000 :: 32 word) = push_bit 24 (mask 8)"
    by (simp_all add: mask_eq_exp_minus_1)
  then show "bit (0xff :: 32 word) n \<longleftrightarrow> n < 8" "bit (0xff00 :: 32 word) n \<longleftrightarrow> 8 \<le> n \<and> n < 16"
    "bit (0xff0000 :: 32 word) n \<longleftrightarrow> 16 \<le> n \<and> n < 24" "bit (0xff000000 :: 32 word) n \<longleftrightarrow> 24 \<le> n \<and> n < 32"
    using * [of 0] * [of 8] * [of 16] * [of 24] by simp_all
qed

lemma bit_swap:
  "bit (DBUS_UINT32_SWAP_LE_BE w) n \<longleftrightarrow>
     (if n < 8 then bit w (n + 24) else if n < 16 then bit w (n + 8)
      else if n < 24 then bit w (n - 8) else n < 32 \<and> bit w (n - 24))"
  unfolding DBUS_UINT32_SWAP_LE_BE_def bit_or_iff bit_push_bit_iff bit_drop_bit_eq o_def bit_and_iff bit_masks possible_bit_word
  by (auto simp: add.commute dest: bit_imp_le_length)

lemma words_in_bytes [simp]: "words_in (word_bytes w @ bs) = w # words_in bs"
  unfolding word_bytes_def by (auto intro!: eq32I simp: bit_simps)

lemma swap_le:
  "DBUS_UINT32_SWAP_LE_BE (ucast a OR push_bit 8 (ucast b) OR push_bit 16 (ucast c) OR push_bit 24 (ucast d))
   = push_bit 24 (ucast a) OR push_bit 16 (ucast b) OR push_bit 8 (ucast c) OR ucast (d :: byte)" for a b c :: byte
  by (rule eq32I) (auto simp: bit_swap bit_simps dest: bit_imp_le_length)

lemma word_bytes_swap: "word_bytes (DBUS_UINT32_SWAP_LE_BE w) = be_bytes w"
  unfolding word_bytes_def be_bytes_def
  by (auto intro!: bit_eqI simp: bit_simps bit_swap add.commute)

lemma be_words_be_bytes [simp]: "be_words (be_bytes w @ bs) = w # be_words bs"
  unfolding be_bytes_def by (auto intro!: eq32I simp: bit_simps)

lemma length_word_bytes [simp]: "length (word_bytes w) = 4" "length (be_bytes w) = 4"
  by (simp_all add: word_bytes_def be_bytes_def)

lemma length_be_words: "length (be_words bs) = length bs div 4"
  by (induction bs rule: be_words.induct) auto

lemma dvd_4 [simp]:
  "4 dvd Suc (Suc (Suc (Suc n))) \<longleftrightarrow> 4 dvd n" "\<not> 4 dvd Suc (Suc 0)" "\<not> 4 dvd Suc (Suc (Suc 0))"
  by presburger+

lemma swap_bytes_eq:
  "4 dvd length bs \<Longrightarrow>
   words_in (concat (map (\<lambda>w. word_bytes (DBUS_UINT32_SWAP_LE_BE w)) (words_in bs)) @ ts) = be_words bs @ words_in ts
   \<and> length (concat (map (\<lambda>w. word_bytes (DBUS_UINT32_SWAP_LE_BE w)) (words_in bs))) = length bs"
  by (induction bs rule: words_in.induct) (auto simp: swap_le)

lemma swap_words_eq:
  assumes "length bs = 64" "4 dvd n" "n \<le> 64"
  shows "words_in (swap_words bs n) = be_words (take n bs) @ words_in (drop n bs)" "length (swap_words bs n) = 64"
  using assms swap_bytes_eq [of "take n bs" "drop n bs"] by (simp_all add: swap_words_def min_def)

section \<open>The input in pieces\<close>

lemma length_put_bytes: "off + length bs \<le> length data \<Longrightarrow> length (put_bytes data off bs) = length data"
  by (simp add: put_bytes_def)

lemma put_bytes_take: "off \<le> length data \<Longrightarrow> take (off + length bs) (put_bytes data off bs) = take off data @ bs"
  by (simp add: put_bytes_def)

declare sha1_blocks.simps [simp del] sha_append_loop.simps [simp del]

lemma sha1_blocks_short: "length msg < 64 \<Longrightarrow> sha1_blocks H msg = H"
  by (simp add: sha1_blocks.simps)

lemma sha1_blocks_one: "length b = 64 \<Longrightarrow> sha1_blocks H (b @ msg) = sha1_blocks (sha1_block H (be_words b)) msg"
  by (subst sha1_blocks.simps) simp

lemma sha1_blocks_append: "64 dvd length xs \<Longrightarrow> sha1_blocks H (xs @ ys) = sha1_blocks (sha1_blocks H xs) ys"
proof (induction H xs rule: sha1_blocks.induct)
  case (1 H xs)
  show ?case
  proof (cases "length xs < 64")
    case True
    then have "xs = []"
      using 1(2) by (auto dest: dvd_imp_le)
    then show ?thesis
      by (simp add: sha1_blocks_short)
  next
    case False
    then have "64 dvd length (drop 64 xs)"
      using 1(2) by (simp add: dvd_diff_nat)
    moreover have "xs @ ys = take 64 xs @ drop 64 xs @ ys"
      by simp
    ultimately show ?thesis
      using 1(1) [OF False] False
      by (metis append_take_drop_id length_take min.absorb2 not_less sha1_blocks_one)
  qed
qed

lemma transform_data_block:
  assumes "length (sha_data c) = 64"
  shows "sha_digest (transform_data c) = sha1_block (sha_digest c) (be_words (sha_data c))"
    "length (sha_data (transform_data c)) = 64"
    "sha_count_lo (transform_data c) = sha_count_lo c" "sha_count_hi (transform_data c) = sha_count_hi c"
  using assms swap_words_eq [of "sha_data c" 64] SHATransform_eq [of "be_words (sha_data c)"]
  by (simp_all add: transform_data_def Let_def SHA_DATASIZE_def length_be_words)

text \<open>The bytes of \<open>msg\<close> behind its last whole block.\<close>

definition rest_of :: "byte list \<Rightarrow> byte list" where
  "rest_of msg = drop (64 * (length msg div 64)) msg"

lemma rest_of_short: "length msg < 64 \<Longrightarrow> rest_of msg = msg"
  by (simp add: rest_of_def)

lemma length_rest_of: "length (rest_of msg) = length msg mod 64"
  by (simp add: rest_of_def minus_mult_div_eq_mod)

lemma rest_of_append: "64 dvd length xs \<Longrightarrow> rest_of (xs @ ys) = rest_of ys"
  by (auto simp: rest_of_def elim!: dvdE)

lemma whole_blocks: obtains xs where "msg = xs @ rest_of msg" "64 dvd length xs"
  by (rule that [of "take (64 * (length msg div 64)) msg"]) (simp_all add: rest_of_def min.absorb2)

definition hashed :: "DBusSHAContext \<Rightarrow> 32 word list \<Rightarrow> byte list \<Rightarrow> bool" where
  "hashed c H msg \<longleftrightarrow>
     sha_digest c = sha1_blocks H msg \<and> length (sha_data c) = 64 \<and> take (length msg mod 64) (sha_data c) = rest_of msg"

lemma sha_append_loop_hashed:
  "length (sha_data c) = 64 \<Longrightarrow>
   hashed (sha_append_loop c buffer) (sha_digest c) buffer
   \<and> sha_count_lo (sha_append_loop c buffer) = sha_count_lo c \<and> sha_count_hi (sha_append_loop c buffer) = sha_count_hi c"
proof (induction c buffer rule: sha_append_loop.induct)
  case (1 c buffer)
  show ?case
  proof (cases "64 \<le> length buffer")
    case True
    define b where "b = take 64 buffer"
    define r where "r = drop 64 buffer"
    have b: "buffer = b @ r" "length b = 64"
      using True by (simp_all add: b_def r_def)
    let ?c = "transform_data (c \<lparr> sha_data := put_bytes (sha_data c) 0 b \<rparr>)"
    have data: "put_bytes (sha_data c) 0 b = b"
      using 1(2) b by (simp add: put_bytes_def)
    then have "sha_append_loop c buffer = sha_append_loop ?c r" "length (sha_data ?c) = 64"
      "sha_digest ?c = sha1_block (sha_digest c) (be_words b)"
      "sha_count_lo ?c = sha_count_lo c" "sha_count_hi ?c = sha_count_hi c"
      using True b transform_data_block [of "c \<lparr> sha_data := b \<rparr>"]
      by (simp_all add: sha_append_loop.simps [of c "b @ r"] SHA_DATASIZE_def)
    moreover have "length buffer mod 64 = length r mod 64" "rest_of buffer = rest_of r"
      using b by (simp_all add: rest_of_append)
    ultimately show ?thesis
      using 1(1) True b sha1_blocks_one [of b "sha_digest c" r]
      by (simp add: SHA_DATASIZE_def hashed_def flip: b_def r_def)
  next
    case False
    then show ?thesis
      using 1(2) by (simp add: sha_append_loop.simps [of c buffer] SHA_DATASIZE_def hashed_def
          put_bytes_def sha1_blocks_short rest_of_short)
  qed
qed

definition counted :: "DBusSHAContext \<Rightarrow> nat \<Rightarrow> bool" where
  "counted c n \<longleftrightarrow> unat (sha_count_lo c) = 8 * n mod 2 ^ 32 \<and> unat (sha_count_hi c) = 8 * n div 2 ^ 32 mod 2 ^ 32"

lemma carry_div:
  "(a + b) div m = a div m + b div m + (if a mod m + b mod m < m then 0 else 1)" if "0 < m" for a b m :: nat
proof -
  have "a mod m < m" "b mod m < m"
    using that by simp_all
  moreover from this have "a mod m + b mod m - m < m"
    by linarith
  ultimately have "(a mod m + b mod m) div m = (if a mod m + b mod m < m then 0 else 1)"
    using that by (cases "a mod m + b mod m < m") (simp_all add: div_if [of "a mod m + b mod m"])
  then show ?thesis
    using div_add1_eq [of a b m] by simp
qed

lemma unat_sum:
  fixes h k :: "32 word"
  assumes "unat h = a mod 2 ^ 32" "unat k = b"
  shows "unat (h + of_nat c + k) = (a + c + b) mod 2 ^ 32"
proof -
  have "h = of_nat a" "k = of_nat b"
    using assms by (simp_all add: word_unat_eq_iff unat_of_nat flip: assms(2))
  then have "h + of_nat c + k = of_nat (a + c + b)"
    by simp
  then show ?thesis
    by (simp only: unat_of_nat) simp
qed

lemma update_count_counted:
  assumes "counted c n" "count < 2 ^ 32"
  shows "counted (update_count c count) (n + count)"
proof -
  let ?M = "2 ^ 32 :: nat"
  let ?add = "push_bit 3 (of_nat count) :: 32 word"
  have "unat ?add = 8 * (count mod ?M) mod ?M"
    by (simp add: push_bit_eq_mult unat_word_ariths unat_of_nat mult.commute)
  then have add: "unat ?add = 8 * count mod ?M"
    by (simp only: mod_mult_right_eq)
  have lo: "unat (sha_count_lo c + ?add) = (8 * n + 8 * count) mod ?M"
    using assms(1) add by (simp add: counted_def unat_word_ariths mod_add_eq)
  have carry: "sha_count_lo c + ?add < sha_count_lo c \<longleftrightarrow> \<not> 8 * n mod ?M + 8 * count mod ?M < ?M"
  proof -
    define x y where "x = 8 * n mod ?M" and "y = 8 * count mod ?M"
    have "x < ?M" "y < ?M"
      by (simp_all add: x_def y_def)
    then have "(x + y) mod ?M < x \<longleftrightarrow> \<not> x + y < ?M"
      by (cases "x + y < ?M") (simp_all add: mod_if [of "x + y"])
    moreover have "(8 * n + 8 * count) mod ?M = (x + y) mod ?M"
      unfolding x_def y_def by (simp only: mod_add_eq)
    ultimately show ?thesis
      using assms(1) lo by (simp add: word_less_nat_alt counted_def x_def y_def)
  qed
  let ?k = "drop_bit 29 (of_nat count :: 32 word)" and ?c = "if 8 * n mod ?M + 8 * count mod ?M < ?M then 0 else 1"
  have k: "unat ?k = 8 * count div ?M"
    unfolding unat_drop_bit_eq using assms(2) by (simp add: drop_bit_eq_div unat_of_nat)
  have "(8 * n + 8 * count) div ?M = 8 * n div ?M + ?c + 8 * count div ?M"
    by (subst carry_div) simp_all
  moreover have "unat (sha_count_hi c + of_nat ?c + ?k) = (8 * n div ?M + ?c + 8 * count div ?M) mod ?M"
    using assms(1) k by (intro unat_sum) (simp_all add: counted_def)
  ultimately have hi: "unat (sha_count_hi c + of_nat ?c + ?k) = (8 * n + 8 * count) div ?M mod ?M"
    by simp
  have "sha_count_hi (update_count c count) = sha_count_hi c + of_nat ?c + ?k"
    using carry by (simp add: update_count_def Let_def)
  then show ?thesis
    using hi lo by (simp add: counted_def update_count_def Let_def distrib_left)
qed

lemma data_count: "counted c n \<Longrightarrow> unat (drop_bit 3 (sha_count_lo c) AND 0x3F) = n mod 64"
proof -
  assume "counted c n"
  then have "unat (drop_bit 3 (sha_count_lo c)) = n mod 2 ^ 29"
    unfolding unat_drop_bit_eq using mult_mod_right [of 8 n "2 ^ 29"] by (simp add: counted_def drop_bit_eq_div)
  then have "unat (take_bit 6 (drop_bit 3 (sha_count_lo c))) = n mod 2 ^ 29 mod 64"
    unfolding unsigned_take_bit_eq by (simp add: take_bit_eq_mod)
  then show ?thesis
    by (simp add: low_bits mod_mod_cancel)
qed

definition absorbed :: "DBusSHAContext \<Rightarrow> byte list \<Rightarrow> bool" where
  "absorbed c msg \<longleftrightarrow> hashed c sha1_initial msg \<and> counted c (length msg)"

lemma sha_init_absorbed: "length (sha_data c) = 64 \<Longrightarrow> absorbed (sha_init c) []"
  by (simp add: absorbed_def hashed_def counted_def sha_init_def sha1_initial_def sha1_blocks_short rest_of_def)

lemma hashed_extend:
  assumes "64 dvd length xs" "hashed c (sha1_blocks H xs) ys"
  shows "hashed c H (xs @ ys)"
  using assms by (auto simp: hashed_def sha1_blocks_append rest_of_append elim!: dvdE)

lemma update_count_fields [simp]:
  "sha_digest (update_count c n) = sha_digest c" "sha_data (update_count c n) = sha_data c"
  by (simp_all add: update_count_def Let_def)

lemma counted_cong:
  "sha_count_lo c = sha_count_lo d \<Longrightarrow> sha_count_hi c = sha_count_hi d \<Longrightarrow> counted c n = counted d n"
  by (simp add: counted_def)

lemma sha_append_absorbed:
  assumes "absorbed c msg" "length buffer < 2 ^ 32"
  shows "absorbed (sha_append c buffer) (msg @ buffer)"
proof -
  obtain xs where xs: "msg = xs @ rest_of msg" "64 dvd length xs"
    by (rule whole_blocks)
  define r where "r = rest_of msg"
  define c' where "c' = update_count c (length buffer)"
  have c: "sha_digest c = sha1_blocks sha1_initial xs" "length (sha_data c) = 64" "take (length r) (sha_data c) = r"
    "counted c (length msg)" "length r = length msg mod 64" "length r < 64"
    using assms(1) xs sha1_blocks_append [OF xs(2), of sha1_initial r]
    by (auto simp: absorbed_def hashed_def r_def length_rest_of sha1_blocks_short)
  have c': "counted c' (length (msg @ buffer))" "sha_digest c' = sha1_blocks sha1_initial xs"
    "length (sha_data c') = 64" "take (length r) (sha_data c') = r"
    using update_count_counted [OF c(4) assms(2)] c by (simp_all add: c'_def)
  have append: "sha_append c buffer =
      (if length r \<noteq> 0 then
         if length buffer < 64 - length r
         then c' \<lparr> sha_data := put_bytes (sha_data c') (length r) buffer \<rparr>
         else sha_append_loop
                (transform_data (c' \<lparr> sha_data := put_bytes (sha_data c') (length r) (take (64 - length r) buffer) \<rparr>))
                (drop (64 - length r) buffer)
       else sha_append_loop c' buffer)"
    using data_count [OF c(4)] c(5) by (simp add: sha_append_def Let_def SHA_DATASIZE_def c'_def)
  have goal: "hashed (sha_append c buffer) (sha1_blocks sha1_initial xs) (r @ buffer)
      \<and> sha_count_lo (sha_append c buffer) = sha_count_lo c' \<and> sha_count_hi (sha_append c buffer) = sha_count_hi c'"
  proof (cases "length r = 0 \<or> length buffer < 64 - length r")
    case True
    then show ?thesis
      using append c' c(6) sha_append_loop_hashed [of c' buffer]
      by (auto simp: hashed_def put_bytes_def sha1_blocks_short rest_of_short)
  next
    case False
    define b where "b = r @ take (64 - length r) buffer"
    define t where "t = drop (64 - length r) buffer"
    have b: "length b = 64" "r @ buffer = b @ t" "put_bytes (sha_data c') (length r) (take (64 - length r) buffer) = b"
      using False c'(3,4) c(6) by (simp_all add: b_def t_def put_bytes_def)
    let ?c = "transform_data (c' \<lparr> sha_data := b \<rparr>)"
    have "hashed (sha_append_loop ?c t) (sha1_block (sha1_blocks sha1_initial xs) (be_words b)) t"
      using transform_data_block [of "c' \<lparr> sha_data := b \<rparr>"] b sha_append_loop_hashed [of ?c t] c' by simp
    moreover have "sha_append c buffer = sha_append_loop ?c t"
      using append False b(3) by (simp add: t_def)
    ultimately show ?thesis
      using transform_data_block [of "c' \<lparr> sha_data := b \<rparr>"] sha_append_loop_hashed [of ?c t] b
        hashed_extend [of b _ "sha1_blocks sha1_initial xs" t] sha1_blocks_one [of b "sha1_blocks sha1_initial xs" "[]"]
      by (simp add: sha1_blocks_short)
  qed
  moreover have "msg @ buffer = xs @ r @ buffer"
    using xs(1) by (simp add: r_def)
  ultimately show ?thesis
    using hashed_extend [OF xs(2), of "sha_append c buffer" sha1_initial "r @ buffer"] c'(1)
      counted_cong [of "sha_append c buffer" c' "length (msg @ buffer)"]
    by (auto simp: absorbed_def)
qed

lemma be_words_append: "4 dvd length xs \<Longrightarrow> be_words (xs @ ys) = be_words xs @ be_words ys"
  by (induction xs rule: be_words.induct) auto

lemma counted_words:
  assumes "counted c n"
  shows "sha_count_hi c = of_nat (8 * n div 2 ^ 32)" "sha_count_lo c = of_nat (8 * n)"
  using assms by (simp_all only: counted_def word_unat_eq_iff unat_of_nat) (simp_all add: take_bit_eq_mod)

text \<open>The last block: 56 bytes and the number of bits.\<close>

lemma final_block:
  assumes "length p = 56" "take 56 data = p" "length data = 64" "counted c n"
  shows "SHATransform H (words_in (swap_words (put_bytes (put_bytes data 56 (word_bytes (sha_count_hi c))) 60
           (word_bytes (sha_count_lo c))) 56)) = sha1_block H (be_words (p @ sha1_length n))"
proof -
  let ?d = "p @ word_bytes (sha_count_hi c) @ word_bytes (sha_count_lo c)"
  have "put_bytes (put_bytes data 56 (word_bytes (sha_count_hi c))) 60 (word_bytes (sha_count_lo c)) = ?d"
    using assms(1-3) by (simp add: put_bytes_def)
  moreover have "words_in (swap_words ?d 56) = be_words p @ [sha_count_hi c, sha_count_lo c]"
    using swap_words_eq [of ?d 56] words_in_bytes [of "sha_count_lo c" "[]"] assms(1) by simp
  moreover have "be_words (p @ sha1_length n) = be_words p @ [sha_count_hi c, sha_count_lo c]"
    using be_words_be_bytes [of "sha_count_lo c" "[]"] assms(1) counted_words [OF assms(4)]
    by (simp add: be_words_append sha1_length_def)
  ultimately show ?thesis
    using assms(1) by (simp add: SHATransform_eq length_be_words)
qed

lemma length_sha1_length [simp]: "length (sha1_length n) = 8"
  by (simp add: sha1_length_def)

text \<open>The blocks of a padded message behind the whole blocks of the message.\<close>

lemma padded_blocks:
  assumes "msg = xs @ r" "64 dvd length xs" "length r = u" "u < 64" "H = sha1_blocks sha1_initial xs"
  shows "55 < u \<Longrightarrow> sha1_blocks sha1_initial (sha1_padded msg) =
           sha1_block (sha1_block H (be_words (r @ [0x80] @ replicate (63 - u) 0)))
             (be_words (replicate 56 0 @ sha1_length (length msg)))"
    and "u \<le> 55 \<Longrightarrow> sha1_blocks sha1_initial (sha1_padded msg) =
           sha1_block H (be_words ((r @ [0x80] @ replicate (55 - u) 0) @ sha1_length (length msg)))"
proof -
  have "length msg mod 64 = u"
    using assms(1-4) by (auto elim!: dvdE)
  then have padded: "sha1_blocks sha1_initial (sha1_padded msg) =
      sha1_blocks H (r @ [0x80] @ replicate ((119 - u) mod 64) 0 @ sha1_length (length msg))"
    using assms(1,2,5) by (simp add: sha1_padded_def sha1_blocks_append)
  {
    assume "55 < u"
    then have "(119 - u) mod 64 = (63 - u) + 56"
      using assms(4) by simp
    then have "replicate ((119 - u) mod 64) (0 :: byte) = replicate (63 - u) 0 @ replicate 56 0"
      by (metis replicate_add)
    then show "sha1_blocks sha1_initial (sha1_padded msg) =
           sha1_block (sha1_block H (be_words (r @ [0x80] @ replicate (63 - u) 0)))
             (be_words (replicate 56 0 @ sha1_length (length msg)))"
      using padded sha1_blocks_one [of "r @ [0x80] @ replicate (63 - u) 0" H] assms(3,4)
        sha1_blocks_one [of "replicate 56 0 @ sha1_length (length msg)" _ "[]"]
      by (simp add: sha1_blocks_short)
  next
    assume "u \<le> 55"
    then have "119 - u = 55 - u + 64"
      by simp
    then have "(119 - u) mod 64 = 55 - u"
      by (simp only: mod_add_self2) simp
    then show "sha1_blocks sha1_initial (sha1_padded msg) =
           sha1_block H (be_words ((r @ [0x80] @ replicate (55 - u) 0) @ sha1_length (length msg)))"
      using padded assms(3) \<open>u \<le> 55\<close>
        sha1_blocks_one [of "(r @ [0x80] @ replicate (55 - u) 0) @ sha1_length (length msg)" H "[]"]
      by (simp add: sha1_blocks_short)
  }
qed

lemma sha_finish_absorbed:
  assumes "absorbed c msg"
  shows "sha_finish c = sha1 msg"
proof -
  obtain xs where xs: "msg = xs @ rest_of msg" "64 dvd length xs"
    by (rule whole_blocks)
  define r where "r = rest_of msg"
  define H where "H = sha1_blocks sha1_initial xs"
  let ?u = "length r"
  have c: "sha_digest c = H" "length (sha_data c) = 64" "take ?u (sha_data c) = r"
    "counted c (length msg)" "?u = length msg mod 64" "?u < 64"
    using assms xs sha1_blocks_append [OF xs(2), of sha1_initial r]
    by (auto simp: absorbed_def hashed_def r_def length_rest_of sha1_blocks_short H_def)
  note padded = padded_blocks [OF xs(1) [folded r_def] xs(2) refl c(6) H_def]
  define c1 where "c1 = c \<lparr> sha_data := put_bytes (sha_data c) ?u [0x80] \<rparr>"
  have c1: "sha_digest c1 = H" "length (sha_data c1) = 64" "take (?u + 1) (sha_data c1) = r @ [0x80]" "counted c1 (length msg)"
    using c by (simp_all add: c1_def put_bytes_def counted_def)
  show ?thesis
  proof (cases "63 - ?u < 8")
    case True
    define b where "b = r @ [0x80] @ replicate (63 - ?u) 0"
    define c2 where "c2 = transform_data (c1 \<lparr> sha_data := b \<rparr>)"
    define d where "d = put_bytes (sha_data c2) 0 (replicate 56 0)"
    have b: "length b = 64" "put_bytes (sha_data c1) (?u + 1) (replicate (63 - ?u) 0) = b"
      using c(6) c1(2,3) by (simp_all add: b_def put_bytes_def)
    have c2: "sha_digest c2 = sha1_block H (be_words b)" "length (sha_data c2) = 64" "counted c2 (length msg)"
      using transform_data_block [of "c1 \<lparr> sha_data := b \<rparr>"] b(1) c1 by (simp_all add: c2_def counted_def)
    have "take 56 d = replicate 56 0" "length d = 64"
      using c2(2) by (simp_all add: d_def put_bytes_def)
    moreover have "sha_finish c = concat (map be_bytes (SHATransform (sha_digest c2) (words_in (swap_words
        (put_bytes (put_bytes d 56 (word_bytes (sha_count_hi c2))) 60 (word_bytes (sha_count_lo c2))) 56))))"
      using True data_count [OF c(4)] c(5) b(2)
      by (simp add: sha_finish_def Let_def SHA_DATASIZE_def word_bytes_swap c2_def d_def c1_def)
    ultimately show ?thesis
      using final_block [of "replicate 56 0" d c2 "length msg"] c2 True padded(1) by (simp add: sha1_def b_def)
  next
    case False
    define d where "d = put_bytes (sha_data c1) (?u + 1) (replicate (55 - ?u) 0)"
    have p: "length (r @ [0x80] @ replicate (55 - ?u) 0) = 56"
      using False by simp
    moreover have "d = (r @ [0x80] @ replicate (55 - ?u) 0) @ drop 56 (sha_data c1)"
      using False c1(3) by (simp add: d_def put_bytes_def)
    ultimately have "take 56 d = r @ [0x80] @ replicate (55 - ?u) 0" "length d = 64"
      using c1(2) by (metis append_eq_conv_conj, simp)
    note d = p this
    have "sha_finish c = concat (map be_bytes (SHATransform (sha_digest c1) (words_in (swap_words
        (put_bytes (put_bytes d 56 (word_bytes (sha_count_hi c1))) 60 (word_bytes (sha_count_lo c1))) 56))))"
      using False data_count [OF c(4)] c(5)
      by (simp add: sha_finish_def Let_def SHA_DATASIZE_def word_bytes_swap d_def c1_def)
    then show ?thesis
      using final_block [OF d c1(4)] c1(1) False padded(2) by (simp add: sha1_def)
  qed
qed

definition sha_pieces :: "DBusSHAContext \<Rightarrow> dbus_string list \<Rightarrow> DBusSHAContext" where
  "sha_pieces stack pieces = foldl dbus_sha_update (dbus_sha_init stack) pieces"

lemma sha_pieces_absorbed:
  assumes "length (sha_data stack) = 64" "\<forall>p \<in> set pieces. length p < 2 ^ 32"
  shows "absorbed (sha_pieces stack pieces) (concat pieces)"
  using assms(2)
proof (induction pieces rule: rev_induct)
  case Nil
  then show ?case
    using sha_init_absorbed [OF assms(1)] by (simp add: sha_pieces_def dbus_sha_init_def)
next
  case (snoc p pieces)
  then show ?case
    using sha_append_absorbed [of "sha_pieces stack pieces" "concat pieces" p]
    by (simp add: sha_pieces_def dbus_sha_update_def)
qed

text \<open>
  C37: A message fed to the hash context in any number of pieces, of less than \<open>2 ^ 32\<close>
  bytes each, yields the SHA-1 digest that FIPS 180-1 assigns to the concatenation
  of the pieces, whatever the context contained before it was initialised.
\<close>

theorem sha_final_is_sha1:
  assumes "length (sha_data stack) = 64" "\<forall>p \<in> set pieces. length p < 2 ^ 32"
  shows "dbus_sha_final (foldl dbus_sha_update (dbus_sha_init stack) pieces) results = results @ sha1 (concat pieces)"
  using sha_finish_absorbed [OF sha_pieces_absorbed [OF assms]]
  by (simp add: dbus_sha_final_def sha_pieces_def)

lemma dbus_sha_compute_eq:
  assumes "length (sha_data stack) = 64" "length data < 2 ^ 32"
  shows "dbus_sha_compute stack data out = out @ dbus_string_hex_encode (sha1 data) 0"
  using sha_finish_absorbed [OF sha_pieces_absorbed [OF assms(1), of "[data]"]] assms(2)
  by (simp add: dbus_sha_compute_def dbus_sha_final_def sha_pieces_def)

theorem sha_final_is_sha1_witness:
  "dbus_sha_final (foldl dbus_sha_update
     (dbus_sha_init \<lparr> sha_digest = [], sha_count_lo = 0, sha_count_hi = 0, sha_data = replicate 64 7 \<rparr>)
     [str ''a'', str ''bc'']) [] = sha1 (str ''abc'')"
  using sha_final_is_sha1 [of "\<lparr> sha_digest = [], sha_count_lo = 0, sha_count_hi = 0, sha_data = replicate 64 7 \<rparr>"
      "[str ''a'', str ''bc'']" "[]"]
  by (simp add: str_def)

end
