(* ===== verification/Dbus_Auth.thy ===== *)
theory Dbus_Auth
  imports Dbus_Keyring Dbus_Sha
begin

text \<open>
  The authentication conversation (src/dbus/dbus-auth.c): both sides of the SASL
  profile, with the mechanisms EXTERNAL, DBUS_COOKIE_SHA1 and ANONYMOUS.  A
  \<open>DBusAuth\<close> is the struct of the code; the fields of the two subclasses
  \<open>DBusAuthClient\<close> and \<open>DBusAuthServer\<close> are part of the one record.  Operations run on
  the conversation and the world; an allocation that fails, an assertion that does
  not hold (or a null pointer that is followed) and a loop that does not end are
  their failures.
\<close>

section \<open>Data\<close>

datatype (plugins only: code size) auth_side = auth_side_client | auth_side_server

datatype (plugins only: code size) DBusAuthCommand =
  DBUS_AUTH_COMMAND_AUTH
| DBUS_AUTH_COMMAND_CANCEL
| DBUS_AUTH_COMMAND_DATA
| DBUS_AUTH_COMMAND_BEGIN
| DBUS_AUTH_COMMAND_REJECTED
| DBUS_AUTH_COMMAND_OK
| DBUS_AUTH_COMMAND_ERROR
| DBUS_AUTH_COMMAND_UNKNOWN

datatype (plugins only: code size) auth_state =
  server_state_waiting_for_auth
| server_state_waiting_for_data
| server_state_waiting_for_begin
| client_state_need_send_auth
| client_state_waiting_for_data
| client_state_waiting_for_ok
| client_state_waiting_for_reject
| common_state_authenticated
| common_state_need_disconnect

datatype (plugins only: code size) DBusAuthMechanismHandler = EXTERNAL | DBUS_COOKIE_SHA1 | ANONYMOUS

fun mechanism_name :: "DBusAuthMechanismHandler \<Rightarrow> dbus_string" where
  "mechanism_name EXTERNAL = str ''EXTERNAL''"
| "mechanism_name DBUS_COOKIE_SHA1 = str ''DBUS_COOKIE_SHA1''"
| "mechanism_name ANONYMOUS = str ''ANONYMOUS''"

definition all_mechanisms :: "DBusAuthMechanismHandler list" where
  "all_mechanisms = [EXTERNAL, DBUS_COOKIE_SHA1, ANONYMOUS]"

record DBusAuth =
  au_side :: auth_side
  au_incoming :: dbus_string
  au_outgoing :: dbus_string
  au_state :: auth_state
  au_mech :: "DBusAuthMechanismHandler option"
  au_identity :: dbus_string
  au_credentials :: DBusCredentials
  au_authorized_identity :: DBusCredentials
  au_desired_identity :: DBusCredentials
  au_context :: dbus_string
  au_keyring :: "DBusKeyring option"
  au_cookie_id :: int
  au_challenge :: dbus_string
  au_allowed_mechs :: "dbus_string list option"
  au_needed_memory :: bool
  au_already_got_mechanisms :: bool
  au_already_asked_for_initial_response :: bool
  au_buffer_outstanding :: bool
  au_mechs_to_try :: "DBusAuthMechanismHandler list"
  au_guid_from_server :: dbus_string
  au_failures :: nat
  au_max_failures :: nat
  au_guid :: dbus_string

section \<open>Operations\<close>

datatype (plugins only: code size) auth_failure = AuthNoMemory | AuthAborted | AuthDiverges

type_synonym 'a auth = "DBusAuth \<times> world \<Rightarrow> (auth_failure + 'a) \<times> DBusAuth \<times> world"

definition returnA :: "'a \<Rightarrow> 'a auth" where
  "returnA x s = (Inr x, s)"

definition failA :: "auth_failure \<Rightarrow> 'a auth" where
  "failA e s = (Inl e, s)"

definition bindA :: "'a auth \<Rightarrow> ('a \<Rightarrow> 'b auth) \<Rightarrow> 'b auth" where
  "bindA m f s = (case m s of (Inl e, s') \<Rightarrow> (Inl e, s') | (Inr x, s') \<Rightarrow> f x s')"

definition thenA :: "'a auth \<Rightarrow> 'b auth \<Rightarrow> 'b auth" where
  "thenA m n = bindA m (\<lambda>_. n)"

definition getsA :: "(DBusAuth \<Rightarrow> 'a) \<Rightarrow> 'a auth" where
  "getsA f s = (Inr (f (fst s)), s)"

definition modifyA :: "(DBusAuth \<Rightarrow> DBusAuth) \<Rightarrow> unit auth" where
  "modifyA f s = (Inr (), f (fst s), snd s)"

definition assertA :: "bool \<Rightarrow> unit auth" where
  "assertA b = (if b then returnA () else failA AuthAborted)"

text \<open>An allocation, and the outcome of one whose failure the caller handles.\<close>

definition memoryA :: "bool auth" where
  "memoryA s =
     (case wd_memory (snd s) of
        [] \<Rightarrow> (Inr True, s)
      | ok # rest \<Rightarrow> (Inr ok, fst s, (snd s) \<lparr> wd_memory := rest \<rparr>))"

definition allocA :: "unit auth" where
  "allocA = bindA memoryA (\<lambda>ok. if ok then returnA () else failA AuthNoMemory)"

text \<open>A position that a function of the string library asserts something about.\<close>

definition positionA :: "nat option \<Rightarrow> nat auth" where
  "positionA p = (case p of None \<Rightarrow> failA AuthAborted | Some i \<Rightarrow> returnA i)"

definition randomA :: "system \<Rightarrow> nat \<Rightarrow> byte list auth" where
  "randomA os n s = (case dbus_generate_random_bytes os n (snd s) of (bytes, w) \<Rightarrow> (Inr bytes, fst s, w))"

definition goto_state :: "auth_state \<Rightarrow> unit auth" where
  "goto_state state = modifyA (\<lambda>a. a \<lparr> au_state := state \<rparr>)"

definition append_outgoing :: "dbus_string \<Rightarrow> unit auth" where
  "append_outgoing s = modifyA (\<lambda>a. a \<lparr> au_outgoing := au_outgoing a @ s \<rparr>)"

definition crlf :: dbus_string where "crlf = [13, 10]"

section \<open>Shutting down a mechanism\<close>

text \<open>The shutdown functions of the mechanisms; only that of the cookie mechanism does anything.\<close>

fun shutdown_func :: "DBusAuthMechanismHandler \<Rightarrow> DBusAuth \<Rightarrow> DBusAuth" where
  "shutdown_func EXTERNAL a = a"
| "shutdown_func DBUS_COOKIE_SHA1 a = a \<lparr> au_cookie_id := - 1, au_challenge := [] \<rparr>"
| "shutdown_func ANONYMOUS a = a"

definition shutdown_mech :: "DBusAuth \<Rightarrow> DBusAuth" where
  "shutdown_mech a =
     (let a1 = a \<lparr> au_already_asked_for_initial_response := False, au_identity := [],
                   au_authorized_identity := dbus_credentials_clear (au_authorized_identity a),
                   au_desired_identity := dbus_credentials_clear (au_desired_identity a) \<rparr>
      in case au_mech a1 of
           None \<Rightarrow> a1
         | Some m \<Rightarrow> (shutdown_func m a1) \<lparr> au_mech := None \<rparr>)"

section \<open>Sending\<close>

text \<open>\<open>send_data\<close> with \<open>NULL\<close> is \<open>send_data []\<close>; on failure the output is as before.\<close>

definition send_data :: "dbus_string \<Rightarrow> unit auth" where
  "send_data data =
     (if data = [] then thenA allocA (append_outgoing (str ''DATA'' @ crlf))
      else thenA allocA (thenA allocA (thenA allocA
             (append_outgoing (str ''DATA '' @ dbus_string_hex_encode data 0 @ crlf)))))"

definition rejected_command :: dbus_string where
  "rejected_command = str ''REJECTED'' @ concat (map (\<lambda>m. str '' '' @ mechanism_name m) all_mechanisms) @ crlf"

definition send_rejected :: "unit auth" where
  "send_rejected =
     thenA allocA (thenA allocA (thenA allocA
    (thenA (append_outgoing rejected_command)
    (thenA (modifyA shutdown_mech)
    (bindA (getsA au_side) (\<lambda>side.
     thenA (assertA (side = auth_side_server))
    (thenA (modifyA (\<lambda>a. a \<lparr> au_failures := au_failures a + 1 \<rparr>))
    (bindA (getsA (\<lambda>a. au_max_failures a \<le> au_failures a)) (\<lambda>too_many.
     if too_many then goto_state common_state_need_disconnect
     else goto_state server_state_waiting_for_auth)))))))))"

definition send_error :: "string \<Rightarrow> unit auth" where
  "send_error message =
     thenA allocA (append_outgoing (str ''ERROR '' @ [34] @ str message @ [34] @ crlf))"

definition send_ok :: "unit auth" where
  "send_ok =
     thenA allocA (thenA allocA (thenA allocA
    (bindA (getsA au_guid) (\<lambda>guid.
     thenA (append_outgoing (str ''OK '' @ guid @ crlf))
           (goto_state server_state_waiting_for_begin)))))"

definition send_begin :: "dbus_string \<Rightarrow> unit auth" where
  "send_begin args_from_ok =
     bindA (getsA au_guid_from_server) (\<lambda>g.
     thenA (assertA (length g = 0))
    (thenA allocA
    (let (decoded, end_of_hex) = dbus_string_hex_decode args_from_ok 0 in
     if end_of_hex \<noteq> length args_from_ok \<or> end_of_hex = 0
     then goto_state common_state_need_disconnect
     else thenA allocA (thenA allocA
         (thenA (modifyA (\<lambda>a. a \<lparr> au_guid_from_server := args_from_ok \<rparr>))
         (thenA (append_outgoing (str ''BEGIN'' @ crlf))
                (goto_state common_state_authenticated)))))))"

definition send_cancel :: "unit auth" where
  "send_cancel =
     thenA allocA (thenA (append_outgoing (str ''CANCEL'' @ crlf)) (goto_state client_state_waiting_for_reject))"

section \<open>The cookie mechanism\<close>

definition N_CHALLENGE_BYTES :: nat where "N_CHALLENGE_BYTES = 16"

text \<open>
  The hash context on the stack before \<open>_dbus_sha_init\<close>; by \<open>dbus_sha_compute_eq\<close> its
  contents do not matter.
\<close>

definition sha_stack :: DBusSHAContext where
  "sha_stack = \<lparr> sha_digest = [], sha_count_lo = 0, sha_count_hi = 0, sha_data = replicate 64 0 \<rparr>"

definition hash_input :: "dbus_string \<Rightarrow> dbus_string \<Rightarrow> dbus_string \<Rightarrow> dbus_string" where
  "hash_input server_challenge client_challenge cookie =
     server_challenge @ str '':'' @ client_challenge @ str '':'' @ cookie"

definition sha1_compute_hash :: "int \<Rightarrow> dbus_string \<Rightarrow> dbus_string \<Rightarrow> dbus_string auth" where
  "sha1_compute_hash cookie_id server_challenge client_challenge =
     bindA (getsA au_keyring) (\<lambda>keyring.
     case keyring of
       None \<Rightarrow> failA AuthAborted
     | Some kr \<Rightarrow>
         thenA allocA (thenA allocA
        (let cookie = dbus_keyring_get_hex_key kr cookie_id in
         if length cookie = 0 then returnA []
         else thenA allocA (thenA allocA (thenA allocA
                (returnA (dbus_sha_compute sha_stack (hash_input server_challenge client_challenge cookie) [])))))))"

text \<open>Adding the user that a client names to \<open>desired_identity\<close>; the result tells whether there is one.\<close>

definition add_desired_user :: "system \<Rightarrow> dbus_string \<Rightarrow> bool auth" where
  "add_desired_user os name =
     bindA (getsA au_desired_identity) (\<lambda>desired.
     let (ok, desired') = dbus_credentials_add_from_user (os_getpwuid os) (os_getpwnam os) desired name
     in thenA (modifyA (\<lambda>a. a \<lparr> au_desired_identity := desired' \<rparr>)) (returnA ok))"

text \<open>Loading a keyring; \<open>False\<close> is an error other than a lack of memory.\<close>

definition load_keyring :: "system \<Rightarrow> DBusCredentials option \<Rightarrow> dbus_string \<Rightarrow> bool \<Rightarrow> bool auth" where
  "load_keyring os credentials context memory s =
     (case dbus_keyring_new_for_credentials os credentials context memory (snd s) of
        Inr kr \<Rightarrow> (Inr True, (fst s) \<lparr> au_keyring := Some kr \<rparr>, snd s)
      | Inl KeyringNoMemory \<Rightarrow> (Inl AuthNoMemory, s)
      | Inl KeyringError \<Rightarrow> (Inr False, s)
      | Inl KeyringAborted \<Rightarrow> (Inl AuthAborted, s)
      | Inl KeyringDiverges \<Rightarrow> (Inl AuthDiverges, s))"

definition open_keyring :: "system \<Rightarrow> DBusCredentials option \<Rightarrow> dbus_string \<Rightarrow> bool auth" where
  "open_keyring os credentials context =
     bindA (getsA au_keyring) (\<lambda>keyring.
     if keyring \<noteq> None then returnA True
     else bindA memoryA (load_keyring os credentials context))"

text \<open>\<open>auth->cookie_id = _dbus_keyring_get_best_key (auth->keyring, &error)\<close>; \<open>False\<close> is an error.\<close>

definition pick_cookie :: "system \<Rightarrow> bool auth" where
  "pick_cookie os s =
     (case au_keyring (fst s) of
        None \<Rightarrow> (Inl AuthAborted, s)
      | Some kr \<Rightarrow>
          (case dbus_keyring_get_best_key os kr (snd s) of
             Inr (ident, kr', w) \<Rightarrow> (Inr True, (fst s) \<lparr> au_cookie_id := ident, au_keyring := Some kr' \<rparr>, w)
           | Inl KeyringNoMemory \<Rightarrow> (Inr False, (fst s) \<lparr> au_cookie_id := - 1 \<rparr>, snd s)
           | Inl KeyringError \<Rightarrow> (Inr False, (fst s) \<lparr> au_cookie_id := - 1 \<rparr>, snd s)
           | Inl KeyringAborted \<Rightarrow> (Inl AuthAborted, s)
           | Inl KeyringDiverges \<Rightarrow> (Inl AuthDiverges, s)))"

definition send_challenge :: "system \<Rightarrow> unit auth" where
  "send_challenge os =
     bindA (getsA au_context) (\<lambda>context.
     bindA (getsA au_cookie_id) (\<lambda>cookie_id.
     thenA allocA (thenA allocA (thenA allocA (thenA allocA (thenA allocA
    (bindA (randomA os N_CHALLENGE_BYTES) (\<lambda>tmp.
     thenA (modifyA (\<lambda>a. a \<lparr> au_challenge := [] \<rparr>))
    (thenA allocA
    (let challenge = dbus_string_hex_encode tmp 0 in
     thenA (modifyA (\<lambda>a. a \<lparr> au_challenge := challenge \<rparr>))
    (thenA allocA
    (thenA (send_data (dbus_string_append_int (context @ [32]) cookie_id @ [32] @ challenge))
           (goto_state server_state_waiting_for_data)))))))))))))"

text \<open>
  The identity sent with the first response of EXTERNAL or DBUS_COOKIE_SHA1: a second
  one is refused (\<open>False\<close>).
\<close>

definition take_identity :: "dbus_string \<Rightarrow> bool auth" where
  "take_identity data =
     (if length data > 0 then
        bindA (getsA au_identity) (\<lambda>identity.
        if length identity > 0 then returnA False
        else thenA allocA (thenA (modifyA (\<lambda>a. a \<lparr> au_identity := data \<rparr>)) (returnA True)))
      else returnA True)"

text \<open>The cached keyring is dropped if it is another user's.\<close>

definition drop_other_keyring :: "DBusAuth \<Rightarrow> DBusAuth" where
  "drop_other_keyring a =
     (case au_keyring a of
        None \<Rightarrow> a
      | Some kr \<Rightarrow> if dbus_keyring_is_for_credentials kr (au_desired_identity a) then a else a \<lparr> au_keyring := None \<rparr>)"

definition challenge_client :: "system \<Rightarrow> unit auth" where
  "challenge_client os =
     thenA (modifyA drop_other_keyring)
    (bindA (getsA au_desired_identity) (\<lambda>desired.
     bindA (getsA au_context) (\<lambda>context.
     bindA (open_keyring os (Some desired) context) (\<lambda>opened.
     if \<not> opened then send_rejected
     else bindA (pick_cookie os) (\<lambda>picked.
     if \<not> picked then send_rejected
     else send_challenge os)))))"

definition sha1_handle_first_client_response :: "system \<Rightarrow> dbus_string \<Rightarrow> unit auth" where
  "sha1_handle_first_client_response os data =
     thenA (modifyA (\<lambda>a. a \<lparr> au_challenge := [] \<rparr>))
    (bindA (take_identity data) (\<lambda>fresh.
     if \<not> fresh then send_rejected
     else bindA (add_desired_user os data) (\<lambda>known.
     if \<not> known then send_rejected
     else thenA allocA (thenA allocA (challenge_client os)))))"

text \<open>Adding credentials to \<open>authorized_identity\<close>, with the allocations this makes.\<close>

definition authorize :: "DBusCredentials \<Rightarrow> unit auth" where
  "authorize other =
     bindA memoryA (\<lambda>m1. bindA memoryA (\<lambda>m2.
     bindA (getsA au_authorized_identity) (\<lambda>authorized.
     let (ok, authorized') = dbus_credentials_add_credentials m1 m2 authorized other
     in thenA (modifyA (\<lambda>a. a \<lparr> au_authorized_identity := authorized' \<rparr>))
              (if ok then returnA () else failA AuthNoMemory))))"

definition authorize_one :: "DBusCredentialType \<Rightarrow> unit auth" where
  "authorize_one which =
     bindA memoryA (\<lambda>m.
     bindA (getsA au_authorized_identity) (\<lambda>authorized.
     bindA (getsA au_credentials) (\<lambda>credentials.
     let (ok, authorized') = dbus_credentials_add_credential m authorized which credentials
     in thenA (modifyA (\<lambda>a. a \<lparr> au_authorized_identity := authorized' \<rparr>))
              (if ok then returnA () else failA AuthNoMemory))))"

definition check_hash :: "dbus_string \<Rightarrow> dbus_string \<Rightarrow> unit auth" where
  "check_hash client_challenge client_hash =
     bindA (getsA au_cookie_id) (\<lambda>cookie_id.
     bindA (getsA au_challenge) (\<lambda>challenge.
     bindA (sha1_compute_hash cookie_id challenge client_challenge) (\<lambda>correct_hash.
     if length correct_hash = 0 then send_rejected
     else if client_hash \<noteq> correct_hash then send_rejected
     else bindA (getsA au_desired_identity) (\<lambda>desired.
          thenA (authorize desired)
         (thenA (authorize_one DBUS_CREDENTIAL_UNIX_PROCESS_ID)
                send_ok)))))"

definition sha1_handle_second_client_response :: "dbus_string \<Rightarrow> unit auth" where
  "sha1_handle_second_client_response data =
     (let (found, i) = dbus_string_find_blank data 0 in
      if \<not> found then send_rejected
      else
        thenA allocA (thenA allocA (thenA allocA
       (bindA (positionA (dbus_string_skip_blank data i)) (\<lambda>j.
        thenA allocA
       (if length (take i data) = 0 \<or> length (drop j data) = 0 then send_rejected
        else thenA allocA (check_hash (take i data) (drop j data))))))))"

definition handle_server_data_cookie_sha1_mech :: "system \<Rightarrow> dbus_string \<Rightarrow> unit auth" where
  "handle_server_data_cookie_sha1_mech os data =
     bindA (getsA au_cookie_id) (\<lambda>cookie_id.
     if cookie_id < 0 then sha1_handle_first_client_response os data
     else sha1_handle_second_client_response data)"

text \<open>\<open>_dbus_append_user_from_current_process\<close>, hex-encoded into the response.\<close>

definition handle_client_initial_response_cookie_sha1_mech :: "system \<Rightarrow> dbus_string auth" where
  "handle_client_initial_response_cookie_sha1_mech os =
     thenA allocA (thenA allocA (thenA allocA
       (returnA (dbus_string_hex_encode (dbus_string_append_uint [] (unat (os_geteuid os))) 0))))"

text \<open>The three parts of the server's challenge, separated by blanks.\<close>

definition split_challenge :: "dbus_string \<Rightarrow> (dbus_string \<times> dbus_string \<times> dbus_string) option auth" where
  "split_challenge data =
     (let (found, i) = dbus_string_find_blank data 0 in
      if \<not> found then returnA None
      else
        thenA allocA (thenA allocA
       (bindA (positionA (dbus_string_skip_blank data i)) (\<lambda>i'.
        let (found', j) = dbus_string_find_blank data i' in
        if \<not> found' then returnA None
        else
          thenA allocA (thenA allocA (thenA allocA
         (bindA (positionA (dbus_string_skip_blank data j)) (\<lambda>k.
          thenA allocA
            (returnA (Some (take i data, str_range data i' (j - i'), drop k data)))))))))))"

definition handle_client_data_cookie_sha1_mech :: "system \<Rightarrow> dbus_string \<Rightarrow> unit auth" where
  "handle_client_data_cookie_sha1_mech os data =
     bindA (split_challenge data) (\<lambda>parts.
     case parts of
       None \<Rightarrow> send_error ''Server did not send context/ID/challenge properly''
     | Some (context, cookie_id_str, server_challenge) \<Rightarrow>
         (if \<not> dbus_keyring_validate_context context then send_error ''Server sent invalid cookie context''
          else case dbus_string_parse_int cookie_id_str 0 of
            None \<Rightarrow> send_error ''Could not parse cookie ID as an integer''
          | Some (val, _) \<Rightarrow>
              (if length server_challenge = 0 then send_error ''Empty server challenge string''
               else
                 bindA (open_keyring os None context) (\<lambda>opened.
                 if \<not> opened then send_error ''Could not load cookie file''
                 else
                   thenA allocA (thenA allocA
                  (bindA (randomA os N_CHALLENGE_BYTES) (\<lambda>tmp.
                   thenA allocA (thenA allocA (thenA allocA
                  (let client_challenge = dbus_string_hex_encode tmp 0 in
                   bindA (sha1_compute_hash (signed_take_bit 31 val) server_challenge client_challenge) (\<lambda>correct_hash.
                   if length correct_hash = 0 then send_error (''Don'' @ [CHR 0x27] @ ''t have the requested cookie ID'')
                   else thenA allocA (thenA allocA (thenA allocA
                          (send_data (client_challenge @ [32] @ correct_hash)))))))))))))))"

section \<open>The mechanisms EXTERNAL and ANONYMOUS\<close>

definition desire_credentials :: "unit auth" where
  "desire_credentials =
     bindA memoryA (\<lambda>m1. bindA memoryA (\<lambda>m2.
     bindA (getsA au_desired_identity) (\<lambda>desired.
     bindA (getsA au_credentials) (\<lambda>credentials.
     let (ok, desired') = dbus_credentials_add_credentials m1 m2 desired credentials
     in thenA (modifyA (\<lambda>a. a \<lparr> au_desired_identity := desired' \<rparr>))
              (if ok then returnA () else failA AuthNoMemory)))))"

text \<open>The end of \<open>handle_server_data_external_mech\<close>: is the desired identity that of the socket?\<close>

definition external_check :: "unit auth" where
  "external_check =
     bindA (getsA au_desired_identity) (\<lambda>desired.
     bindA (getsA au_credentials) (\<lambda>credentials.
     if dbus_credentials_are_anonymous desired then send_rejected
     else if dbus_credentials_are_superset credentials desired
     then thenA (authorize desired)
         (thenA (authorize_one DBUS_CREDENTIAL_UNIX_PROCESS_ID)
         (thenA (authorize_one DBUS_CREDENTIAL_ADT_AUDIT_DATA_ID)
                send_ok))
     else send_rejected))"

text \<open>
  The part before it: the client is asked for an identity if it has not given one; an
  empty answer means the identity of the socket.
\<close>

definition external_identity :: "system \<Rightarrow> unit auth" where
  "external_identity os =
     bindA (getsA au_identity) (\<lambda>identity.
     bindA (getsA au_already_asked_for_initial_response) (\<lambda>asked.
     if length identity = 0 \<and> \<not> asked
     then thenA (send_data [])
         (thenA (modifyA (\<lambda>a. a \<lparr> au_already_asked_for_initial_response := True \<rparr>))
                (goto_state server_state_waiting_for_data))
     else thenA (modifyA (\<lambda>a. a \<lparr> au_desired_identity := dbus_credentials_clear (au_desired_identity a) \<rparr>))
         (if length identity = 0
          then thenA desire_credentials external_check
          else bindA (add_desired_user os identity) (\<lambda>known.
               if \<not> known then send_rejected else external_check))))"

definition handle_server_data_external_mech :: "system \<Rightarrow> dbus_string \<Rightarrow> unit auth" where
  "handle_server_data_external_mech os data =
     bindA (getsA au_credentials) (\<lambda>credentials.
     if dbus_credentials_are_anonymous credentials then send_rejected
     else bindA (take_identity data) (\<lambda>fresh.
     if \<not> fresh then send_rejected
     else external_identity os))"

definition handle_client_initial_response_external_mech :: "system \<Rightarrow> dbus_string auth" where
  "handle_client_initial_response_external_mech os =
     thenA allocA (thenA allocA (thenA allocA
       (returnA (dbus_string_hex_encode (dbus_string_append_uint [] (unat (os_geteuid os))) 0))))"

definition handle_client_data_external_mech :: "dbus_string \<Rightarrow> unit auth" where
  "handle_client_data_external_mech data = returnA ()"

definition handle_server_data_anonymous_mech :: "dbus_string \<Rightarrow> unit auth" where
  "handle_server_data_anonymous_mech data =
     (if length data > 0 \<and> \<not> dbus_string_validate_utf8 data 0 (length data) then send_rejected
      else thenA (modifyA (\<lambda>a. a \<lparr> au_desired_identity := dbus_credentials_clear (au_desired_identity a) \<rparr>))
          (thenA (authorize_one DBUS_CREDENTIAL_UNIX_PROCESS_ID)
                 send_ok))"

definition handle_client_initial_response_anonymous_mech :: "system \<Rightarrow> dbus_string auth" where
  "handle_client_initial_response_anonymous_mech os =
     thenA allocA (thenA allocA (thenA allocA
       (returnA (dbus_string_hex_encode (str ''libdbus '' @ build_version os) 0))))"

definition handle_client_data_anonymous_mech :: "dbus_string \<Rightarrow> unit auth" where
  "handle_client_data_anonymous_mech data = returnA ()"

section \<open>The table of mechanisms\<close>

fun server_data_func :: "system \<Rightarrow> DBusAuthMechanismHandler \<Rightarrow> dbus_string \<Rightarrow> unit auth" where
  "server_data_func os EXTERNAL = handle_server_data_external_mech os"
| "server_data_func os DBUS_COOKIE_SHA1 = handle_server_data_cookie_sha1_mech os"
| "server_data_func os ANONYMOUS = handle_server_data_anonymous_mech"

fun client_initial_response_func :: "system \<Rightarrow> DBusAuthMechanismHandler \<Rightarrow> dbus_string auth" where
  "client_initial_response_func os EXTERNAL = handle_client_initial_response_external_mech os"
| "client_initial_response_func os DBUS_COOKIE_SHA1 = handle_client_initial_response_cookie_sha1_mech os"
| "client_initial_response_func os ANONYMOUS = handle_client_initial_response_anonymous_mech os"

fun client_data_func :: "system \<Rightarrow> DBusAuthMechanismHandler \<Rightarrow> dbus_string \<Rightarrow> unit auth" where
  "client_data_func os EXTERNAL = handle_client_data_external_mech"
| "client_data_func os DBUS_COOKIE_SHA1 = handle_client_data_cookie_sha1_mech os"
| "client_data_func os ANONYMOUS = handle_client_data_anonymous_mech"

definition find_mech :: "dbus_string \<Rightarrow> dbus_string list option \<Rightarrow> DBusAuthMechanismHandler option" where
  "find_mech name allowed_mechs =
     (if (case allowed_mechs of None \<Rightarrow> False | Some ms \<Rightarrow> name \<notin> set ms) then None
      else find (\<lambda>m. mechanism_name m = name) all_mechanisms)"

definition send_auth :: "system \<Rightarrow> DBusAuthMechanismHandler \<Rightarrow> unit auth" where
  "send_auth os mech =
     thenA allocA (thenA allocA (thenA allocA (thenA allocA
    (bindA (client_initial_response_func os mech) (\<lambda>response.
     thenA allocA (thenA allocA
    (thenA (append_outgoing (str ''AUTH '' @ mechanism_name mech @ str '' '' @ response @ crlf))
    (thenA (modifyA shutdown_mech)
    (thenA (modifyA (\<lambda>a. a \<lparr> au_mech := Some mech \<rparr>))
           (goto_state client_state_waiting_for_data))))))))))"

definition process_data :: "dbus_string \<Rightarrow> (dbus_string \<Rightarrow> unit auth) \<Rightarrow> unit auth" where
  "process_data args data_func =
     thenA allocA (thenA allocA
    (let (decoded, end_pos) = dbus_string_hex_decode args 0 in
     if length args \<noteq> end_pos then send_error ''Invalid hex encoding''
     else data_func decoded))"

section \<open>The server's states\<close>

text \<open>The part of \<open>handle_auth\<close> between the two string buffers and the label \<open>failed\<close>.\<close>

definition try_mechanism :: "system \<Rightarrow> dbus_string \<Rightarrow> unit auth" where
  "try_mechanism os args =
     (let i = snd (dbus_string_find_blank args 0) in
      thenA allocA
     (bindA (positionA (dbus_string_skip_blank args i)) (\<lambda>j.
      thenA allocA
     (bindA (getsA au_allowed_mechs) (\<lambda>allowed_mechs.
      let mech = find_mech (take i args) allowed_mechs in
      thenA (modifyA (\<lambda>a. a \<lparr> au_mech := mech \<rparr>))
     (case mech of
        Some m \<Rightarrow> process_data (drop j args) (server_data_func os m)
      | None \<Rightarrow> send_rejected))))))"

definition handle_auth :: "system \<Rightarrow> dbus_string \<Rightarrow> unit auth" where
  "handle_auth os args =
     (if length args = 0 then send_rejected
      else thenA allocA (thenA allocA
       (\<lambda>s. case try_mechanism os args s of
              (Inl AuthNoMemory, a, w) \<Rightarrow> (Inl AuthNoMemory, a \<lparr> au_mech := None \<rparr>, w)
            | r \<Rightarrow> r)))"

fun handle_server_state_waiting_for_auth :: "system \<Rightarrow> DBusAuthCommand \<Rightarrow> dbus_string \<Rightarrow> unit auth" where
  "handle_server_state_waiting_for_auth os DBUS_AUTH_COMMAND_AUTH args = handle_auth os args"
| "handle_server_state_waiting_for_auth os DBUS_AUTH_COMMAND_CANCEL args = send_error ''Not currently in an auth conversation''"
| "handle_server_state_waiting_for_auth os DBUS_AUTH_COMMAND_DATA args = send_error ''Not currently in an auth conversation''"
| "handle_server_state_waiting_for_auth os DBUS_AUTH_COMMAND_BEGIN args = goto_state common_state_need_disconnect"
| "handle_server_state_waiting_for_auth os DBUS_AUTH_COMMAND_ERROR args = send_rejected"
| "handle_server_state_waiting_for_auth os _ args = send_error ''Unknown command''"

text \<open>The data function of the current mechanism; following a null pointer ends the process.\<close>

definition current_data_func ::
  "(DBusAuthMechanismHandler \<Rightarrow> dbus_string \<Rightarrow> unit auth) \<Rightarrow> dbus_string \<Rightarrow> unit auth" where
  "current_data_func func args =
     bindA (getsA au_mech) (\<lambda>mech.
     case mech of
       None \<Rightarrow> failA AuthAborted
     | Some m \<Rightarrow> process_data args (func m))"

fun handle_server_state_waiting_for_data :: "system \<Rightarrow> DBusAuthCommand \<Rightarrow> dbus_string \<Rightarrow> unit auth" where
  "handle_server_state_waiting_for_data os DBUS_AUTH_COMMAND_AUTH args = send_error ''Sent AUTH while another AUTH in progress''"
| "handle_server_state_waiting_for_data os DBUS_AUTH_COMMAND_CANCEL args = send_rejected"
| "handle_server_state_waiting_for_data os DBUS_AUTH_COMMAND_ERROR args = send_rejected"
| "handle_server_state_waiting_for_data os DBUS_AUTH_COMMAND_DATA args = current_data_func (server_data_func os) args"
| "handle_server_state_waiting_for_data os DBUS_AUTH_COMMAND_BEGIN args = goto_state common_state_need_disconnect"
| "handle_server_state_waiting_for_data os _ args = send_error ''Unknown command''"

fun handle_server_state_waiting_for_begin :: "DBusAuthCommand \<Rightarrow> dbus_string \<Rightarrow> unit auth" where
  "handle_server_state_waiting_for_begin DBUS_AUTH_COMMAND_AUTH args = send_error ''Sent AUTH while expecting BEGIN''"
| "handle_server_state_waiting_for_begin DBUS_AUTH_COMMAND_DATA args = send_error ''Sent DATA while expecting BEGIN''"
| "handle_server_state_waiting_for_begin DBUS_AUTH_COMMAND_BEGIN args = goto_state common_state_authenticated"
| "handle_server_state_waiting_for_begin DBUS_AUTH_COMMAND_CANCEL args = send_rejected"
| "handle_server_state_waiting_for_begin DBUS_AUTH_COMMAND_ERROR args = send_rejected"
| "handle_server_state_waiting_for_begin _ args = send_error ''Unknown command''"

section \<open>The client's states\<close>

text \<open>\<open>get_word\<close>: the word at or behind \<open>start\<close>, and the position behind it.\<close>

definition get_word :: "dbus_string \<Rightarrow> nat \<Rightarrow> (dbus_string \<times> nat) auth" where
  "get_word s start =
     bindA (positionA (dbus_string_skip_blank s start)) (\<lambda>start'.
     let i = snd (dbus_string_find_blank s start') in
     if start' < i then thenA allocA (returnA (str_range s start' (i - start'), i))
     else returnA ([], start'))"

text \<open>
  The loop of \<open>record_mechanisms\<close>; each round moves \<open>next\<close> forward, so that \<open>len\<close> rounds
  are enough.
\<close>

fun record_loop :: "nat \<Rightarrow> dbus_string \<Rightarrow> nat \<Rightarrow> unit auth" where
  "record_loop 0 args next = (if next < length args then failA AuthDiverges else returnA ())"
| "record_loop (Suc n) args next =
     (if next < length args then
        thenA allocA
       (bindA (get_word args next) (\<lambda>(word, next').
        bindA (getsA au_allowed_mechs) (\<lambda>allowed_mechs.
        case find_mech word allowed_mechs of
          None \<Rightarrow> record_loop n args next'
        | Some mech \<Rightarrow>
            (if mech \<noteq> hd all_mechanisms
             then thenA allocA
                 (thenA (modifyA (\<lambda>a. a \<lparr> au_mechs_to_try := au_mechs_to_try a @ [mech] \<rparr>))
                        (record_loop n args next'))
             else record_loop n args next'))))
      else returnA ())"

definition record_mechanisms :: "dbus_string \<Rightarrow> unit auth" where
  "record_mechanisms args =
     bindA (getsA au_already_got_mechanisms) (\<lambda>got.
     if got then returnA ()
     else (\<lambda>s. case record_loop (length args) args 0 s of
                  (Inl AuthNoMemory, a, w) \<Rightarrow> (Inl AuthNoMemory, a \<lparr> au_mechs_to_try := [] \<rparr>, w)
                | (Inl e, a, w) \<Rightarrow> (Inl e, a, w)
                | (Inr u, a, w) \<Rightarrow> (Inr (), a \<lparr> au_already_got_mechanisms := True \<rparr>, w)))"

definition process_rejected :: "system \<Rightarrow> dbus_string \<Rightarrow> unit auth" where
  "process_rejected os args =
     bindA (getsA au_already_got_mechanisms) (\<lambda>got.
     thenA (if got then returnA () else record_mechanisms args)
    (bindA (getsA au_mechs_to_try) (\<lambda>mechs.
     case mechs of
       [] \<Rightarrow> goto_state common_state_need_disconnect
     | mech # rest \<Rightarrow>
         thenA (send_auth os mech) (modifyA (\<lambda>a. a \<lparr> au_mechs_to_try := rest \<rparr>)))))"

fun client_data_switch :: "system \<Rightarrow> DBusAuthCommand \<Rightarrow> dbus_string \<Rightarrow> unit auth" where
  "client_data_switch os DBUS_AUTH_COMMAND_DATA args = current_data_func (client_data_func os) args"
| "client_data_switch os DBUS_AUTH_COMMAND_REJECTED args = process_rejected os args"
| "client_data_switch os DBUS_AUTH_COMMAND_OK args = send_begin args"
| "client_data_switch os DBUS_AUTH_COMMAND_ERROR args = send_cancel"
| "client_data_switch os _ args = send_error ''Unknown command''"

definition handle_client_state_waiting_for_data :: "system \<Rightarrow> DBusAuthCommand \<Rightarrow> dbus_string \<Rightarrow> unit auth" where
  "handle_client_state_waiting_for_data os command args =
     bindA (getsA au_mech) (\<lambda>mech. thenA (assertA (mech \<noteq> None)) (client_data_switch os command args))"

fun handle_client_state_waiting_for_ok :: "system \<Rightarrow> DBusAuthCommand \<Rightarrow> dbus_string \<Rightarrow> unit auth" where
  "handle_client_state_waiting_for_ok os DBUS_AUTH_COMMAND_REJECTED args = process_rejected os args"
| "handle_client_state_waiting_for_ok os DBUS_AUTH_COMMAND_OK args = send_begin args"
| "handle_client_state_waiting_for_ok os DBUS_AUTH_COMMAND_DATA args = send_cancel"
| "handle_client_state_waiting_for_ok os DBUS_AUTH_COMMAND_ERROR args = send_cancel"
| "handle_client_state_waiting_for_ok os _ args = send_error ''Unknown command''"

fun handle_client_state_waiting_for_reject :: "system \<Rightarrow> DBusAuthCommand \<Rightarrow> dbus_string \<Rightarrow> unit auth" where
  "handle_client_state_waiting_for_reject os DBUS_AUTH_COMMAND_REJECTED args = process_rejected os args"
| "handle_client_state_waiting_for_reject os _ args = goto_state common_state_need_disconnect"

section \<open>The conversation\<close>

definition auth_command_names :: "(dbus_string \<times> DBusAuthCommand) list" where
  "auth_command_names =
     [(str ''AUTH'', DBUS_AUTH_COMMAND_AUTH), (str ''CANCEL'', DBUS_AUTH_COMMAND_CANCEL),
      (str ''DATA'', DBUS_AUTH_COMMAND_DATA), (str ''BEGIN'', DBUS_AUTH_COMMAND_BEGIN),
      (str ''REJECTED'', DBUS_AUTH_COMMAND_REJECTED), (str ''OK'', DBUS_AUTH_COMMAND_OK),
      (str ''ERROR'', DBUS_AUTH_COMMAND_ERROR)]"

definition lookup_command_from_name :: "dbus_string \<Rightarrow> DBusAuthCommand" where
  "lookup_command_from_name command =
     (case map_of auth_command_names command of Some c \<Rightarrow> c | None \<Rightarrow> DBUS_AUTH_COMMAND_UNKNOWN)"

text \<open>The handler of a state; \<open>None\<close> for the end states and before the first AUTH.\<close>

fun state_handler :: "system \<Rightarrow> auth_state \<Rightarrow> (DBusAuthCommand \<Rightarrow> dbus_string \<Rightarrow> unit auth) option" where
  "state_handler os server_state_waiting_for_auth = Some (handle_server_state_waiting_for_auth os)"
| "state_handler os server_state_waiting_for_data = Some (handle_server_state_waiting_for_data os)"
| "state_handler os server_state_waiting_for_begin = Some handle_server_state_waiting_for_begin"
| "state_handler os client_state_waiting_for_data = Some (handle_client_state_waiting_for_data os)"
| "state_handler os client_state_waiting_for_ok = Some (handle_client_state_waiting_for_ok os)"
| "state_handler os client_state_waiting_for_reject = Some (handle_client_state_waiting_for_reject os)"
| "state_handler os _ = None"

fun in_end_state :: "auth_state \<Rightarrow> bool" where
  "in_end_state client_state_need_send_auth = True"
| "in_end_state common_state_authenticated = True"
| "in_end_state common_state_need_disconnect = True"
| "in_end_state _ = False"

text \<open>The body of \<open>process_command\<close> for a line, up to the label \<open>next_command\<close>.\<close>

definition dispatch_line :: "system \<Rightarrow> dbus_string \<Rightarrow> unit auth" where
  "dispatch_line os line =
     (if \<not> dbus_string_validate_ascii line 0 (length line) then send_error ''Command contained non-ASCII''
      else
        (let i = snd (dbus_string_find_blank line 0) in
         bindA (positionA (dbus_string_skip_blank line i)) (\<lambda>j.
         thenA allocA
        (bindA (getsA au_state) (\<lambda>state.
         case state_handler os state of
           None \<Rightarrow> failA AuthAborted
         | Some handler \<Rightarrow> handler (lookup_command_from_name (take i line)) (drop j line))))))"

definition process_command :: "system \<Rightarrow> bool auth" where
  "process_command os s =
     (case dbus_string_find (au_incoming (fst s)) 0 crlf of
        None \<Rightarrow> (Inr False, s)
      | Some eol \<Rightarrow>
          (case thenA allocA (thenA allocA (thenA allocA (dispatch_line os (take eol (au_incoming (fst s)))))) s of
             (Inl AuthNoMemory, a, w) \<Rightarrow> (Inr False, a \<lparr> au_needed_memory := True \<rparr>, w)
           | (Inl e, a, w) \<Rightarrow> (Inl e, a, w)
           | (Inr u, a, w) \<Rightarrow>
               (Inr True, a \<lparr> au_incoming := drop (eol + 2) (au_incoming a), au_needed_memory := False \<rparr>, w)))"

definition MAX_BUFFER :: nat where "MAX_BUFFER = 16 * 1024"

text \<open>
  The loop of \<open>_dbus_auth_do_work\<close>.  Every command that is processed leaves the input
  shorter (\<open>process_command_shortens\<close>), so that as many rounds as there are bytes are enough.
\<close>

fun do_work_loop :: "system \<Rightarrow> nat \<Rightarrow> unit auth" where
  "do_work_loop os n s =
     (if in_end_state (au_state (fst s)) then (Inr (), s)
      else if MAX_BUFFER < length (au_incoming (fst s)) \<or> MAX_BUFFER < length (au_outgoing (fst s))
      then goto_state common_state_need_disconnect s
      else case process_command os s of
             (Inl e, s') \<Rightarrow> (Inl e, s')
           | (Inr again, s') \<Rightarrow>
               (if again then (case n of 0 \<Rightarrow> (Inl AuthDiverges, s') | Suc n' \<Rightarrow> do_work_loop os n' s')
                else (Inr (), s')))"

declare do_work_loop.simps [simp del]

datatype (plugins only: code size) DBusAuthState =
  DBUS_AUTH_STATE_WAITING_FOR_INPUT
| DBUS_AUTH_STATE_WAITING_FOR_MEMORY
| DBUS_AUTH_STATE_HAVE_BYTES_TO_SEND
| DBUS_AUTH_STATE_NEED_DISCONNECT
| DBUS_AUTH_STATE_AUTHENTICATED

definition work_result :: "DBusAuth \<Rightarrow> DBusAuthState" where
  "work_result a =
     (if au_needed_memory a then DBUS_AUTH_STATE_WAITING_FOR_MEMORY
      else if length (au_outgoing a) > 0 then DBUS_AUTH_STATE_HAVE_BYTES_TO_SEND
      else if au_state a = common_state_need_disconnect then DBUS_AUTH_STATE_NEED_DISCONNECT
      else if au_state a = common_state_authenticated then DBUS_AUTH_STATE_AUTHENTICATED
      else DBUS_AUTH_STATE_WAITING_FOR_INPUT)"

definition dbus_auth_do_work :: "system \<Rightarrow> DBusAuthState auth" where
  "dbus_auth_do_work os =
     thenA (modifyA (\<lambda>a. a \<lparr> au_needed_memory := False \<rparr>))
    (bindA (getsA (\<lambda>a. length (au_incoming a))) (\<lambda>n.
     thenA (do_work_loop os n) (getsA work_result)))"

section \<open>Creating and using a conversation\<close>

definition dbus_auth_new :: "auth_side \<Rightarrow> auth_state \<Rightarrow> DBusAuth" where
  "dbus_auth_new side state =
     \<lparr> au_side = side, au_incoming = [], au_outgoing = [], au_state = state, au_mech = None, au_identity = [],
       au_credentials = dbus_credentials_new, au_authorized_identity = dbus_credentials_new,
       au_desired_identity = dbus_credentials_new, au_context = str ''org_freedesktop_general'', au_keyring = None,
       au_cookie_id = - 1, au_challenge = [], au_allowed_mechs = None, au_needed_memory = False,
       au_already_got_mechanisms = False, au_already_asked_for_initial_response = False, au_buffer_outstanding = False,
       au_mechs_to_try = [], au_guid_from_server = [], au_failures = 0, au_max_failures = 0, au_guid = [] \<rparr>"

text \<open>The constructors; with the C functions, a failure to allocate yields \<open>NULL\<close> and no conversation.\<close>

definition dbus_auth_server_new :: "dbus_string \<Rightarrow> DBusAuth" where
  "dbus_auth_server_new guid =
     (dbus_auth_new auth_side_server server_state_waiting_for_auth)
       \<lparr> au_guid := guid, au_failures := 0, au_max_failures := 6 \<rparr>"

definition dbus_auth_client_new :: "system \<Rightarrow> world \<Rightarrow> DBusAuth option \<times> world" where
  "dbus_auth_client_new os w =
     (case send_auth os (hd all_mechanisms) (dbus_auth_new auth_side_client client_state_need_send_auth, w) of
        (Inr u, a, w') \<Rightarrow> (Some a, w')
      | (Inl e, a, w') \<Rightarrow> (None, w'))"

definition dbus_auth_set_mechanisms :: "dbus_string list option \<Rightarrow> unit auth" where
  "dbus_auth_set_mechanisms mechanisms =
     thenA (if mechanisms = None then returnA () else allocA)
           (modifyA (\<lambda>a. a \<lparr> au_allowed_mechs := mechanisms \<rparr>))"

definition dbus_auth_get_bytes_to_send :: "DBusAuth \<Rightarrow> dbus_string option" where
  "dbus_auth_get_bytes_to_send a = (if length (au_outgoing a) = 0 then None else Some (au_outgoing a))"

definition dbus_auth_bytes_sent :: "nat \<Rightarrow> DBusAuth \<Rightarrow> DBusAuth" where
  "dbus_auth_bytes_sent n a = a \<lparr> au_outgoing := drop n (au_outgoing a) \<rparr>"

text \<open>
  Bytes are read into the buffer between \<open>_dbus_auth_get_buffer\<close> and
  \<open>_dbus_auth_return_buffer\<close>.
\<close>

definition dbus_auth_get_buffer :: "dbus_string auth" where
  "dbus_auth_get_buffer =
     bindA (getsA au_buffer_outstanding) (\<lambda>out.
     thenA (assertA (\<not> out))
    (thenA (modifyA (\<lambda>a. a \<lparr> au_buffer_outstanding := True \<rparr>)) (getsA au_incoming)))"

definition dbus_auth_return_buffer :: "dbus_string \<Rightarrow> unit auth" where
  "dbus_auth_return_buffer buffer =
     bindA (getsA au_buffer_outstanding) (\<lambda>out.
     thenA (assertA out)
           (modifyA (\<lambda>a. a \<lparr> au_incoming := buffer, au_buffer_outstanding := False \<rparr>)))"

definition dbus_auth_get_unused_bytes :: "DBusAuth \<Rightarrow> dbus_string option" where
  "dbus_auth_get_unused_bytes a = (if \<not> in_end_state (au_state a) then None else Some (au_incoming a))"

definition dbus_auth_delete_unused_bytes :: "DBusAuth \<Rightarrow> DBusAuth" where
  "dbus_auth_delete_unused_bytes a = (if \<not> in_end_state (au_state a) then a else a \<lparr> au_incoming := [] \<rparr>)"

text \<open>No mechanism of the table has functions to encode or decode the message stream.\<close>

fun encode_func :: "DBusAuthMechanismHandler \<Rightarrow> (dbus_string \<Rightarrow> dbus_string) option" where
  "encode_func EXTERNAL = None"
| "encode_func DBUS_COOKIE_SHA1 = None"
| "encode_func ANONYMOUS = None"

fun decode_func :: "DBusAuthMechanismHandler \<Rightarrow> (dbus_string \<Rightarrow> dbus_string) option" where
  "decode_func EXTERNAL = None"
| "decode_func DBUS_COOKIE_SHA1 = None"
| "decode_func ANONYMOUS = None"

definition dbus_auth_needs_encoding :: "DBusAuth \<Rightarrow> bool" where
  "dbus_auth_needs_encoding a =
     (if au_state a \<noteq> common_state_authenticated then False
      else case au_mech a of None \<Rightarrow> False | Some m \<Rightarrow> encode_func m \<noteq> None)"

definition dbus_auth_encode_data :: "bool \<Rightarrow> DBusAuth \<Rightarrow> dbus_string \<Rightarrow> dbus_string \<Rightarrow> dbus_string option" where
  "dbus_auth_encode_data memory a plaintext encoded =
     (if au_state a \<noteq> common_state_authenticated then None
      else if dbus_auth_needs_encoding a then Some (encoded @ the (encode_func (the (au_mech a))) plaintext)
      else if memory then Some (encoded @ plaintext) else None)"

definition dbus_auth_needs_decoding :: "DBusAuth \<Rightarrow> bool" where
  "dbus_auth_needs_decoding a =
     (if au_state a \<noteq> common_state_authenticated then False
      else case au_mech a of None \<Rightarrow> False | Some m \<Rightarrow> decode_func m \<noteq> None)"

definition dbus_auth_decode_data :: "bool \<Rightarrow> DBusAuth \<Rightarrow> dbus_string \<Rightarrow> dbus_string \<Rightarrow> dbus_string option" where
  "dbus_auth_decode_data memory a encoded plaintext =
     (if au_state a \<noteq> common_state_authenticated then None
      else if dbus_auth_needs_decoding a then Some (plaintext @ the (decode_func (the (au_mech a))) encoded)
      else if memory then Some (plaintext @ encoded) else None)"

definition dbus_auth_set_credentials :: "DBusCredentials \<Rightarrow> unit auth" where
  "dbus_auth_set_credentials credentials =
     bindA memoryA (\<lambda>m1. bindA memoryA (\<lambda>m2.
     bindA (getsA au_credentials) (\<lambda>c.
     let (ok, c') = dbus_credentials_add_credentials m1 m2 (dbus_credentials_clear c) credentials
     in thenA (modifyA (\<lambda>a. a \<lparr> au_credentials := c' \<rparr>))
              (if ok then returnA () else failA AuthNoMemory))))"

definition dbus_auth_get_identity :: "DBusCredentials auth" where
  "dbus_auth_get_identity =
     bindA (getsA au_state) (\<lambda>state.
     bindA (getsA au_authorized_identity) (\<lambda>authorized.
     if state = common_state_authenticated then returnA authorized
     else thenA (assertA (dbus_credentials_are_empty authorized)) (returnA authorized)))"

definition dbus_auth_get_guid_from_server :: "DBusAuth \<Rightarrow> dbus_string option" where
  "dbus_auth_get_guid_from_server a =
     (if au_state a = common_state_authenticated then Some (au_guid_from_server a) else None)"

text \<open>\<open>_dbus_auth_set_context\<close> replaces as many bytes of the old context as the new one has.\<close>

definition dbus_auth_set_context :: "dbus_string \<Rightarrow> unit auth" where
  "dbus_auth_set_context context =
     bindA (getsA au_context) (\<lambda>old.
     thenA (assertA (length context \<le> length old))
    (thenA allocA
           (modifyA (\<lambda>a. a \<lparr> au_context := context @ drop (length context) old \<rparr>))))"

end
