(* ===== verification/Dbus_Auth_Steps.thy ===== *)
theory Dbus_Auth_Steps
  imports Dbus_Auth
begin

text \<open>
  What each operation of the server side of an authentication conversation can do, for
  the invariant of \<open>Dbus_Auth_Safety\<close>.  Operations are followed with \<open>runs\<close>, which
  forgets the world; the outcome of a mechanism is that it \<open>rejects\<close> the client, or that
  the conversation \<open>goes_to\<close> one of a set of states, with what may then have changed.
\<close>

section \<open>Runs of operations\<close>

definition runs :: "'a auth \<Rightarrow> DBusAuth \<Rightarrow> auth_failure + 'a \<Rightarrow> DBusAuth \<Rightarrow> bool" where
  "runs m a r a' \<longleftrightarrow> (\<exists>w w'. m (a, w) = (r, a', w'))"

lemma runsI: "m (a, w) = (r, a', w') \<Longrightarrow> runs m a r a'"
  by (auto simp: runs_def)

lemma runs_returnA [simp]: "runs (returnA x) a r a' \<longleftrightarrow> r = Inr x \<and> a' = a"
  by (auto simp: runs_def returnA_def)

lemma runs_failA [simp]: "runs (failA e) a r a' \<longleftrightarrow> r = Inl e \<and> a' = a"
  by (auto simp: runs_def failA_def)

lemma runs_getsA [simp]: "runs (getsA f) a r a' \<longleftrightarrow> r = Inr (f a) \<and> a' = a"
  by (auto simp: runs_def getsA_def)

lemma runs_modifyA [simp]: "runs (modifyA f) a r a' \<longleftrightarrow> r = Inr () \<and> a' = f a"
  by (auto simp: runs_def modifyA_def)

lemma runs_goto_state [simp]: "runs (goto_state st) a r a' \<longleftrightarrow> r = Inr () \<and> a' = a \<lparr> au_state := st \<rparr>"
  by (simp add: goto_state_def)

lemma runs_append_outgoing [simp]:
  "runs (append_outgoing s) a r a' \<longleftrightarrow> r = Inr () \<and> a' = a \<lparr> au_outgoing := au_outgoing a @ s \<rparr>"
  by (simp add: append_outgoing_def)

lemma runs_assertA [simp]:
  "runs (assertA b) a r a' \<longleftrightarrow> a' = a \<and> (if b then r = Inr () else r = Inl AuthAborted)"
  by (auto simp: assertA_def)

lemma runs_memoryA: "runs memoryA a r a' \<Longrightarrow> a' = a \<and> (\<exists>ok. r = Inr ok)"
  unfolding runs_def by (elim exE) (auto simp: memoryA_def split: list.splits)

lemma runs_positionA [simp]:
  "runs (positionA p) a r a' \<longleftrightarrow> a' = a \<and> (case p of None \<Rightarrow> r = Inl AuthAborted | Some i \<Rightarrow> r = Inr i)"
  by (auto simp: positionA_def split: option.splits)

lemma runs_randomA: "runs (randomA os n) a r a' \<Longrightarrow> a' = a \<and> (\<exists>bytes. r = Inr bytes)"
  unfolding runs_def by (elim exE) (auto simp: randomA_def split: prod.splits)

lemma runs_bindE:
  assumes "runs (bindA m f) a r a'"
  obtains (fails) e where "runs m a (Inl e) a'" "r = Inl e"
    | (goes_on) x a1 where "runs m a (Inr x) a1" "runs (f x) a1 r a'"
proof -
  obtain w w' where "bindA m f (a, w) = (r, a', w')"
    using assms by (auto simp: runs_def)
  moreover obtain x a1 w1 where m: "m (a, w) = (x, a1, w1)"
    by (cases "m (a, w)") auto
  ultimately consider e where "x = Inl e" "r = Inl e" "a' = a1" | y where "x = Inr y" "f y (a1, w1) = (r, a', w')"
    by (cases x) (auto simp: bindA_def)
  then show ?thesis
  proof cases
    case 1
    then show ?thesis
      using fails runsI [of m a w x a1 w1] m by simp
  next
    case 2
    then show ?thesis
      using goes_on [of y a1] runsI [of m a w x a1 w1] runsI [of "f y" a1 w1 r a' w'] m by simp
  qed
qed

lemma runs_thenE:
  assumes "runs (thenA m n) a r a'"
  obtains (fails) e where "runs m a (Inl e) a'" "r = Inl e"
    | (goes_on) x a1 where "runs m a (Inr x) a1" "runs n a1 r a'"
  using assms by (auto simp: thenA_def elim: runs_bindE)

lemma runs_bind_getsA [simp]: "runs (bindA (getsA f) k) a r a' \<longleftrightarrow> runs (k (f a)) a r a'"
  by (simp add: runs_def bindA_def getsA_def)

lemma runs_then_modifyA [simp]: "runs (thenA (modifyA f) n) a r a' \<longleftrightarrow> runs n (f a) r a'"
  by (simp add: runs_def thenA_def bindA_def modifyA_def)

lemma runs_then_goto [simp]: "runs (thenA (goto_state st) n) a r a' \<longleftrightarrow> runs n (a \<lparr> au_state := st \<rparr>) r a'"
  by (simp add: goto_state_def)

lemma runs_then_append [simp]:
  "runs (thenA (append_outgoing s) n) a r a' \<longleftrightarrow> runs n (a \<lparr> au_outgoing := au_outgoing a @ s \<rparr>) r a'"
  by (simp add: append_outgoing_def)

lemma runs_then_assertA [simp]:
  "runs (thenA (assertA b) n) a r a' \<longleftrightarrow> (if b then runs n a r a' else r = Inl AuthAborted \<and> a' = a)"
  by (auto simp: runs_def assertA_def thenA_def bindA_def returnA_def failA_def)

lemma runs_allocE:
  assumes "runs (thenA allocA n) a r a'"
  obtains (no_memory) "r = Inl AuthNoMemory" "a' = a" | (goes_on) "runs n a r a'"
  using assms
  by (auto simp: allocA_def elim!: runs_thenE runs_bindE dest!: runs_memoryA split: if_splits)

lemma runs_bind_memoryE:
  assumes "runs (bindA memoryA f) a r a'"
  obtains ok where "runs (f ok) a r a'"
  using assms by (auto elim!: runs_bindE dest!: runs_memoryA)

lemma runs_bind_positionE:
  assumes "runs (bindA (positionA p) f) a r a'"
  obtains (aborts) "p = None" "r = Inl AuthAborted" "a' = a" | (goes_on) i where "p = Some i" "runs (f i) a r a'"
  using assms by (auto elim!: runs_bindE split: option.splits)

lemma runs_bind_randomE:
  assumes "runs (bindA (randomA os n) f) a r a'"
  obtains bytes where "runs (f bytes) a r a'"
  using assms by (auto elim!: runs_bindE dest!: runs_randomA)

lemmas runs_elims = runs_allocE runs_bind_memoryE runs_bind_positionE runs_bind_randomE

section \<open>Sending\<close>

definition server_ok :: "DBusAuth \<Rightarrow> bool" where
  "server_ok a \<longleftrightarrow> au_side a = auth_side_server"

text \<open>The conversation after a client is rejected.\<close>

definition rejected :: "DBusAuth \<Rightarrow> DBusAuth" where
  "rejected a =
     (let b = shutdown_mech (a \<lparr> au_outgoing := au_outgoing a @ rejected_command \<rparr>)
      in b \<lparr> au_failures := au_failures a + 1,
             au_state := (if au_max_failures a \<le> au_failures a + 1 then common_state_need_disconnect
                          else server_state_waiting_for_auth) \<rparr>)"

lemma shutdown_mech_fields [simp]:
  "au_side (shutdown_mech a) = au_side a" "au_failures (shutdown_mech a) = au_failures a"
  "au_max_failures (shutdown_mech a) = au_max_failures a" "au_mech (shutdown_mech a) = None"
  "au_credentials (shutdown_mech a) = au_credentials a" "au_allowed_mechs (shutdown_mech a) = au_allowed_mechs a"
  "au_incoming (shutdown_mech a) = au_incoming a" "au_keyring (shutdown_mech a) = au_keyring a"
  "au_authorized_identity (shutdown_mech a) = dbus_credentials_new"
  "au_desired_identity (shutdown_mech a) = dbus_credentials_new"
  "au_cookie_id (shutdown_mech a) = (if au_mech a = Some DBUS_COOKIE_SHA1 then - 1 else au_cookie_id a)"
  "au_outgoing (shutdown_mech a) = au_outgoing a" "au_guid (shutdown_mech a) = au_guid a"
  "au_identity (shutdown_mech a) = []" "au_context (shutdown_mech a) = au_context a"
  by (cases "au_mech a"; cases "the (au_mech a)"; simp add: shutdown_mech_def Let_def)+

lemma runs_send_rejected:
  assumes "runs send_rejected a r a'" "server_ok a"
  shows "r = Inl AuthNoMemory \<and> a' = a \<or> r = Inr () \<and> a' = rejected a"
  using assms unfolding send_rejected_def
  by (auto simp: server_ok_def rejected_def Let_def elim!: runs_elims split: if_splits)

lemma runs_send_error:
  "runs (send_error m) a r a' \<Longrightarrow>
   r = Inl AuthNoMemory \<and> a' = a \<or> r = Inr () \<and> (\<exists>s. a' = a \<lparr> au_outgoing := au_outgoing a @ s \<rparr>)"
  unfolding send_error_def by (auto elim!: runs_elims)

lemma runs_send_data:
  "runs (send_data d) a r a' \<Longrightarrow>
   r = Inl AuthNoMemory \<and> a' = a \<or> r = Inr () \<and> (\<exists>s. a' = a \<lparr> au_outgoing := au_outgoing a @ s \<rparr>)"
  unfolding send_data_def by (auto elim!: runs_elims split: if_splits)

lemma runs_send_ok:
  "runs send_ok a r a' \<Longrightarrow>
   r = Inl AuthNoMemory \<and> a' = a \<or>
   r = Inr () \<and> (\<exists>s. a' = a \<lparr> au_outgoing := au_outgoing a @ s, au_state := server_state_waiting_for_begin \<rparr>)"
  unfolding send_ok_def by (auto elim!: runs_elims)

section \<open>What the mechanisms do\<close>

definition auth_uid :: "DBusAuth \<Rightarrow> dbus_uid" where
  "auth_uid a = cr_unix_uid (au_authorized_identity a)"

definition socket_uid :: "DBusAuth \<Rightarrow> dbus_uid" where
  "socket_uid a = cr_unix_uid (au_credentials a)"

text \<open>The fields that no handler of the server changes.\<close>

definition fixed :: "DBusAuth \<Rightarrow> DBusAuth \<Rightarrow> bool" where
  "fixed a a' \<longleftrightarrow>
     au_side a' = au_side a \<and> au_incoming a' = au_incoming a \<and> au_credentials a' = au_credentials a \<and>
     au_allowed_mechs a' = au_allowed_mechs a \<and> au_max_failures a' = au_max_failures a"

text \<open>The keyring in use belongs to the user that the client wants to be.\<close>

definition keyring_for :: "DBusAuth \<Rightarrow> bool" where
  "keyring_for a \<longleftrightarrow>
     (\<exists>kr. au_keyring a = Some kr \<and> cr_unix_uid (au_desired_identity a) \<in> {DBUS_UID_UNSET, cr_unix_uid (kr_credentials kr)})"

text \<open>
  \<open>data\<close> proves the knowledge of the cookie that \<open>a\<close> has challenged its client with:
  its second part is the hash of the server's challenge, the first part and the cookie.
\<close>

definition proves_cookie :: "DBusAuth \<Rightarrow> dbus_string \<Rightarrow> bool" where
  "proves_cookie a data \<longleftrightarrow>
     (\<exists>kr i j. au_keyring a = Some kr \<and> dbus_keyring_get_hex_key kr (au_cookie_id a) \<noteq> [] \<and>
        dbus_string_find_blank data 0 = (True, i) \<and> dbus_string_skip_blank data i = Some j \<and>
        drop j data = dbus_sha_compute sha_stack
          (hash_input (au_challenge a) (take i data) (dbus_keyring_get_hex_key kr (au_cookie_id a))) [])"

definition keyring_uid :: "DBusAuth \<Rightarrow> dbus_uid" where
  "keyring_uid a = cr_unix_uid (kr_credentials (the (au_keyring a)))"

lemma fixed_refl [simp]: "fixed a a"
  by (simp add: fixed_def)

lemma fixed_trans: "fixed a b \<Longrightarrow> fixed b c \<Longrightarrow> fixed a c"
  by (simp add: fixed_def)

lemma rejected_fields [simp]:
  "fixed a (rejected a)" "au_mech (rejected a) = None" "auth_uid (rejected a) = DBUS_UID_UNSET"
  "au_failures (rejected a) = au_failures a + 1"
  "au_cookie_id (rejected a) = (if au_mech a = Some DBUS_COOKIE_SHA1 then - 1 else au_cookie_id a)"
  "au_keyring (rejected a) = au_keyring a" "au_desired_identity (rejected a) = dbus_credentials_new"
  "au_state (rejected a) = (if au_max_failures a \<le> au_failures a + 1 then common_state_need_disconnect
     else server_state_waiting_for_auth)"
  by (simp_all add: rejected_def fixed_def Let_def auth_uid_def dbus_credentials_new_def)

lemma runs_authorize:
  "runs (authorize c) a r a' \<Longrightarrow>
   (r = Inr () \<or> r = Inl AuthNoMemory) \<and>
   (\<exists>i. a' = a \<lparr> au_authorized_identity := i \<rparr> \<and> cr_unix_uid i \<in> {auth_uid a, cr_unix_uid c})"
  unfolding authorize_def
  by (auto simp: auth_uid_def elim!: runs_elims split: prod.splits if_splits dest!: add_credentials_fields(1))

lemma add_other_credential:
  "dbus_credentials_add_credential m c which other = (ok, c') \<Longrightarrow> which \<noteq> DBUS_CREDENTIAL_UNIX_USER_ID \<Longrightarrow>
   cr_unix_uid c' = cr_unix_uid c"
  by (auto simp: dbus_credentials_add_credential_def dbus_credentials_add_unix_pid_def
      dbus_credentials_add_windows_sid_def dbus_credentials_add_adt_audit_data_def split: if_splits)

lemma runs_authorize_one:
  "runs (authorize_one which) a r a' \<Longrightarrow> which \<noteq> DBUS_CREDENTIAL_UNIX_USER_ID \<Longrightarrow>
   (r = Inr () \<or> r = Inl AuthNoMemory) \<and> (\<exists>i. a' = a \<lparr> au_authorized_identity := i \<rparr> \<and> cr_unix_uid i = auth_uid a)"
  unfolding authorize_one_def
  by (auto simp: auth_uid_def elim!: runs_elims split: prod.splits if_splits dest!: add_other_credential)

lemma runs_desire_credentials:
  "runs desire_credentials a r a' \<Longrightarrow> (r = Inr () \<or> r = Inl AuthNoMemory) \<and> (\<exists>i. a' = a \<lparr> au_desired_identity := i \<rparr>)"
  unfolding desire_credentials_def by (auto elim!: runs_elims split: prod.splits if_splits)

lemma runs_take_identity:
  "runs (take_identity data) a r a' \<Longrightarrow>
   a' = a \<and> (r = Inl AuthNoMemory \<or> (\<exists>b. r = Inr b)) \<or> r = Inr True \<and> (\<exists>i. a' = a \<lparr> au_identity := i \<rparr>)"
  unfolding take_identity_def by (auto elim!: runs_elims split: if_splits)

lemma runs_add_desired_user:
  "runs (add_desired_user os name) a r a' \<Longrightarrow> \<exists>i b. a' = a \<lparr> au_desired_identity := i \<rparr> \<and> r = Inr b"
  unfolding add_desired_user_def by (auto split: prod.splits)

lemma reload_credentials:
  "dbus_keyring_reload os kr n w = Inr (kr', w') \<Longrightarrow> kr_credentials kr' = kr_credentials kr"
  by (auto simp: dbus_keyring_reload_def Let_def split: if_splits sum.splits)

lemma keyring_new_user:
  assumes "dbus_keyring_new_for_credentials os (Some c) ctx m w = Inr kr"
  shows "cr_unix_uid c \<in> {DBUS_UID_UNSET, cr_unix_uid (kr_credentials kr)}"
  using assms
  by (auto simp: dbus_keyring_new_for_credentials_def Let_def dbus_credentials_are_anonymous_def
      split: if_splits option.splits sum.splits keyring_failure.splits dest!: reload_credentials)

lemma best_key_credentials:
  "dbus_keyring_get_best_key os kr w = Inr (ident, kr', w') \<Longrightarrow> kr_credentials kr' = kr_credentials kr"
  by (auto simp: dbus_keyring_get_best_key_def split: option.splits sum.splits dest!: reload_credentials)

lemma runs_open_keyring:
  assumes "runs (open_keyring os (Some c) ctx) a r a'"
  shows "a' = a \<and> (r = Inr True \<longrightarrow> au_keyring a \<noteq> None) \<or>
     r = Inr True \<and> (\<exists>kr. a' = a \<lparr> au_keyring := Some kr \<rparr> \<and> cr_unix_uid c \<in> {DBUS_UID_UNSET, cr_unix_uid (kr_credentials kr)})"
proof (cases "au_keyring a")
  case None
  then obtain ok where "runs (load_keyring os (Some c) ctx ok) a r a'"
    using assms unfolding open_keyring_def by (auto elim: runs_elims)
  then obtain w w' where "load_keyring os (Some c) ctx ok (a, w) = (r, a', w')"
    by (auto simp: runs_def)
  then show ?thesis
    using keyring_new_user [of os c ctx ok w] by (auto simp: load_keyring_def split: sum.splits keyring_failure.splits)
qed (use assms in \<open>simp add: open_keyring_def\<close>)

lemma runs_pick_cookie:
  assumes "runs (pick_cookie os) a r a'" "au_keyring a = Some kr"
  shows "(\<exists>kr' ident. r = Inr True \<and> a' = a \<lparr> au_cookie_id := ident, au_keyring := Some kr' \<rparr>
       \<and> kr_credentials kr' = kr_credentials kr)
    \<or> r = Inr False \<and> a' = a \<lparr> au_cookie_id := - 1 \<rparr> \<or> (\<exists>e. r = Inl e \<and> a' = a)"
proof -
  obtain w w' where "pick_cookie os (a, w) = (r, a', w')"
    using assms(1) by (auto simp: runs_def)
  then show ?thesis
    using assms(2) by (auto simp: pick_cookie_def dest!: best_key_credentials split: sum.splits keyring_failure.splits)
qed

text \<open>A handler goes on to a state, or fails and leaves the state.\<close>

definition goes_to :: "auth_state set \<Rightarrow> DBusAuth \<Rightarrow> auth_failure + unit \<Rightarrow> DBusAuth \<Rightarrow> bool" where
  "goes_to sts a r a' \<longleftrightarrow>
     fixed a a' \<and> au_mech a' = au_mech a \<and> au_failures a' = au_failures a \<and>
     (case r of Inl e \<Rightarrow> au_state a' = au_state a | Inr u \<Rightarrow> au_state a' \<in> sts)"

definition rejects :: "DBusAuth \<Rightarrow> auth_failure + unit \<Rightarrow> DBusAuth \<Rightarrow> bool" where
  "rejects a r a' \<longleftrightarrow>
     r = Inr () \<and>
     (\<exists>b. a' = rejected b \<and> fixed a b \<and> au_mech b = au_mech a \<and> au_failures b = au_failures a \<and>
        (au_mech a = Some DBUS_COOKIE_SHA1 \<or> au_cookie_id b = au_cookie_id a \<and> au_keyring b = au_keyring a))"

lemma rejectsI:
  assumes "runs send_rejected b r a'" "server_ok a" "fixed a b" "au_mech b = au_mech a" "au_failures b = au_failures a"
    and "au_mech a = Some DBUS_COOKIE_SHA1 \<or> au_cookie_id b = au_cookie_id a \<and> au_keyring b = au_keyring a"
  obtains (no_memory) "r = Inl AuthNoMemory" "a' = b" | (rejects) "rejects a r a'"
  using assms runs_send_rejected [of b r a'] by (auto simp: server_ok_def fixed_def rejects_def)

definition same_cookie :: "DBusAuth \<Rightarrow> DBusAuth \<Rightarrow> bool" where
  "same_cookie a a' \<longleftrightarrow> au_cookie_id a' = au_cookie_id a \<and> au_keyring a' = au_keyring a"

lemma runs_external_check:
  assumes "runs external_check a r a'" "server_ok a"
  shows "rejects a r a' \<or>
    goes_to {server_state_waiting_for_begin} a r a' \<and> same_cookie a a' \<and>
    auth_uid a' \<in> {DBUS_UID_UNSET, auth_uid a, socket_uid a}"
proof -
  consider (reject) "runs send_rejected a r a'"
    | (accept) "dbus_credentials_are_superset (au_credentials a) (au_desired_identity a)"
      "runs (thenA (authorize (au_desired_identity a)) (thenA (authorize_one DBUS_CREDENTIAL_UNIX_PROCESS_ID)
         (thenA (authorize_one DBUS_CREDENTIAL_ADT_AUDIT_DATA_ID) send_ok))) a r a'"
    using assms(1) unfolding external_check_def by (auto split: if_splits)
  then show ?thesis
  proof cases
    case reject
    then show ?thesis
      using assms(2) by (elim rejectsI) (auto simp: goes_to_def same_cookie_def)
  next
    case accept
    have "cr_unix_uid (au_desired_identity a) \<in> {DBUS_UID_UNSET, socket_uid a}"
      using superset_user [OF accept(1)] by (simp add: socket_uid_def)
    then show ?thesis
      using accept(2)
      by (auto elim!: runs_thenE dest!: runs_authorize runs_authorize_one runs_send_ok
          simp: goes_to_def same_cookie_def fixed_def auth_uid_def)
  qed
qed

text \<open>Changes on the way: the identity a client gives, the desired identity, the output.\<close>

definition similar :: "DBusAuth \<Rightarrow> DBusAuth \<Rightarrow> bool" where
  "similar a b \<longleftrightarrow>
     fixed a b \<and> au_mech b = au_mech a \<and> au_failures b = au_failures a \<and> same_cookie a b \<and>
     au_state b = au_state a \<and> au_authorized_identity b = au_authorized_identity a"

lemma similar_refl [simp]: "similar a a"
  by (simp add: similar_def same_cookie_def)

lemma similar_update [simp]:
  "similar a (b \<lparr> au_identity := i \<rparr>) = similar a b" "similar a (b \<lparr> au_desired_identity := d \<rparr>) = similar a b"
  "similar a (b \<lparr> au_outgoing := s \<rparr>) = similar a b" "similar a (b \<lparr> au_challenge := c \<rparr>) = similar a b"
  "similar a (b \<lparr> au_already_asked_for_initial_response := x \<rparr>) = similar a b"
  by (simp_all add: similar_def fixed_def same_cookie_def)

lemma similar_server: "similar a b \<Longrightarrow> server_ok a \<Longrightarrow> server_ok b"
  by (simp add: similar_def fixed_def server_ok_def)

lemma rejects_similar: "similar a b \<Longrightarrow> rejects b r a' \<Longrightarrow> rejects a r a'"
  unfolding similar_def rejects_def same_cookie_def by (auto dest: fixed_trans)

lemma goes_to_similar: "similar a b \<Longrightarrow> goes_to sts b r a' \<Longrightarrow> goes_to sts a r a'"
  unfolding similar_def goes_to_def by (auto dest: fixed_trans split: sum.splits)

lemma runs_rejected_similar:
  assumes "runs send_rejected b r a'" "similar a b" "server_ok a"
  shows "rejects a r a' \<or> r = Inl AuthNoMemory \<and> a' = b"
  using assms by (elim rejectsI) (auto simp: similar_def same_cookie_def)

definition external_outcome :: "DBusAuth \<Rightarrow> auth_failure + unit \<Rightarrow> DBusAuth \<Rightarrow> bool" where
  "external_outcome a r a' \<longleftrightarrow>
     rejects a r a' \<or>
     goes_to {server_state_waiting_for_data, server_state_waiting_for_begin} a r a' \<and> same_cookie a a' \<and>
     auth_uid a' \<in> {DBUS_UID_UNSET, auth_uid a, socket_uid a}"

lemma external_outcome_failed: "similar a a' \<Longrightarrow> external_outcome a (Inl e) a'"
  by (simp add: external_outcome_def goes_to_def similar_def auth_uid_def)

lemma external_outcome_rejected:
  "runs send_rejected b r a' \<Longrightarrow> similar a b \<Longrightarrow> server_ok a \<Longrightarrow> external_outcome a r a'"
  using runs_rejected_similar [of b r a' a] external_outcome_failed [of a b] by (auto simp: external_outcome_def)

lemma goes_to_mono: "goes_to sts a r a' \<Longrightarrow> sts \<subseteq> sts' \<Longrightarrow> goes_to sts' a r a'"
  by (auto simp: goes_to_def split: sum.splits)

lemma similar_uids: "similar a b \<Longrightarrow> auth_uid b = auth_uid a \<and> socket_uid b = socket_uid a"
  by (simp add: similar_def auth_uid_def socket_uid_def fixed_def)

lemma similar_cookie: "similar a b \<Longrightarrow> same_cookie b a' = same_cookie a a'"
  by (simp add: similar_def same_cookie_def)

lemma external_outcome_checked:
  assumes "runs external_check b r a'" "similar a b" "server_ok a"
  shows "external_outcome a r a'"
  using runs_external_check [OF assms(1) similar_server [OF assms(2,3)]]
proof
  assume "rejects b r a'"
  then show ?thesis
    using rejects_similar [OF assms(2)] by (simp add: external_outcome_def)
next
  assume *: "goes_to {server_state_waiting_for_begin} b r a' \<and> same_cookie b a' \<and>
    auth_uid a' \<in> {DBUS_UID_UNSET, auth_uid b, socket_uid b}"
  then have "goes_to {server_state_waiting_for_data, server_state_waiting_for_begin} b r a'"
    by (blast intro: goes_to_mono)
  then show ?thesis
    using * goes_to_similar [OF assms(2)] similar_uids [OF assms(2)] similar_cookie [OF assms(2)]
    unfolding external_outcome_def by simp
qed

lemma runs_external_identity:
  assumes "runs (external_identity os) b r a'" "similar a b" "server_ok a"
  shows "external_outcome a r a'"
proof -
  let ?b = "b \<lparr> au_desired_identity := dbus_credentials_new \<rparr>"
  consider (ask) "runs (thenA (send_data [])
         (thenA (modifyA (\<lambda>a. a \<lparr> au_already_asked_for_initial_response := True \<rparr>))
                (goto_state server_state_waiting_for_data))) b r a'"
    | (socket) "runs (thenA desire_credentials external_check) ?b r a'"
    | (user) name where "runs (bindA (add_desired_user os name) (\<lambda>known. if \<not> known then send_rejected else external_check)) ?b r a'"
    using assms(1) unfolding external_identity_def by (auto split: if_splits)
  then show ?thesis
  proof cases
    case ask
    then show ?thesis
      using assms(2) external_outcome_failed [OF assms(2)]
      by (elim runs_thenE)
        (auto dest!: runs_send_data simp: external_outcome_def goes_to_def similar_def same_cookie_def fixed_def auth_uid_def)
  next
    case socket
    then show ?thesis
      using assms(2,3)
      by (elim runs_thenE) (auto dest!: runs_desire_credentials external_outcome_checked [of _ _ _ a]
          intro: external_outcome_failed)
  next
    case user
    then show ?thesis
      using assms(2,3)
      by (elim runs_bindE) (auto dest!: runs_add_desired_user external_outcome_rejected [of _ _ _ a]
          external_outcome_checked [of _ _ _ a] split: if_splits)
  qed
qed

lemma runs_external:
  assumes "runs (handle_server_data_external_mech os data) a r a'" "server_ok a"
  shows "external_outcome a r a'"
proof (cases "dbus_credentials_are_anonymous (au_credentials a)")
  case True
  then show ?thesis
    using assms unfolding handle_server_data_external_mech_def by (auto intro: external_outcome_rejected)
next
  case False
  then have "runs (bindA (take_identity data) (\<lambda>fresh. if \<not> fresh then send_rejected else external_identity os)) a r a'"
    using assms(1) unfolding handle_server_data_external_mech_def by simp
  then show ?thesis
    using assms(2)
    by (elim runs_bindE) (auto dest!: runs_take_identity external_outcome_rejected [of _ _ _ a]
        runs_external_identity [of _ _ _ _ a] intro: external_outcome_failed split: if_splits)
qed

lemma runs_anonymous:
  assumes "runs (handle_server_data_anonymous_mech data) a r a'" "server_ok a"
  shows "rejects a r a' \<or> goes_to {server_state_waiting_for_begin} a r a' \<and> same_cookie a a' \<and> auth_uid a' = auth_uid a"
proof -
  consider (reject) "runs send_rejected a r a'"
    | (accept) "runs (thenA (authorize_one DBUS_CREDENTIAL_UNIX_PROCESS_ID) send_ok)
         (a \<lparr> au_desired_identity := dbus_credentials_new \<rparr>) r a'"
    using assms(1) unfolding handle_server_data_anonymous_mech_def by (auto split: if_splits)
  then show ?thesis
  proof cases
    case reject
    then show ?thesis
      using runs_rejected_similar [of a r a' a] assms(2) by (auto simp: goes_to_def same_cookie_def)
  next
    case accept
    then show ?thesis
      by (elim runs_thenE) (auto dest!: runs_authorize_one runs_send_ok
          simp: goes_to_def same_cookie_def fixed_def auth_uid_def)
  qed
qed

definition challenge_outcome :: "DBusAuth \<Rightarrow> auth_failure + unit \<Rightarrow> DBusAuth \<Rightarrow> bool" where
  "challenge_outcome a r a' \<longleftrightarrow>
     rejects a r a' \<or>
     goes_to {server_state_waiting_for_data} a r a' \<and> auth_uid a' = auth_uid a \<and> (0 \<le> au_cookie_id a' \<longrightarrow> keyring_for a')"

text \<open>On the way to the challenge the keyring and the cookie may change.\<close>

definition preparing :: "DBusAuth \<Rightarrow> DBusAuth \<Rightarrow> bool" where
  "preparing a b \<longleftrightarrow>
     fixed a b \<and> au_mech b = au_mech a \<and> au_mech a = Some DBUS_COOKIE_SHA1 \<and> au_failures b = au_failures a \<and>
     au_state b = au_state a \<and> auth_uid b = auth_uid a \<and> (0 \<le> au_cookie_id b \<longrightarrow> keyring_for b)"

lemma challenge_outcome_failed: "preparing a b \<Longrightarrow> challenge_outcome a (Inl e) b"
  by (simp add: preparing_def challenge_outcome_def goes_to_def)

lemma challenge_outcome_rejected:
  assumes "runs send_rejected b r a'" "preparing a b" "server_ok a"
  shows "challenge_outcome a r a'"
  using assms(1) assms(3)
proof (rule rejectsI [where a = a])
  assume "r = Inl AuthNoMemory" "a' = b"
  then show ?thesis
    using challenge_outcome_failed [OF assms(2)] by simp
qed (use assms(2) in \<open>simp_all add: preparing_def challenge_outcome_def\<close>)

lemma runs_then_send_dataE:
  assumes "runs (thenA (send_data d) n) a r a'"
  obtains (no_memory) "r = Inl AuthNoMemory" "a' = a" | (sent) s where "runs n (a \<lparr> au_outgoing := au_outgoing a @ s \<rparr>) r a'"
  using assms by (elim runs_thenE) (auto dest!: runs_send_data)

lemma preparing_update [simp]:
  "preparing a (b \<lparr> au_challenge := c \<rparr>) = preparing a b" "preparing a (b \<lparr> au_outgoing := s \<rparr>) = preparing a b"
  "preparing a (b \<lparr> au_identity := i \<rparr>) = preparing a b"
  by (simp_all add: preparing_def fixed_def auth_uid_def keyring_for_def)

lemma challenge_outcome_sent:
  "preparing a b \<Longrightarrow> challenge_outcome a (Inr ()) (b \<lparr> au_state := server_state_waiting_for_data \<rparr>)"
  by (simp add: preparing_def challenge_outcome_def goes_to_def fixed_def auth_uid_def keyring_for_def)

lemma runs_send_challenge:
  assumes "runs (send_challenge os) b r a'" "preparing a b"
  shows "challenge_outcome a r a'"
  using assms unfolding send_challenge_def Let_def runs_bind_getsA
  by (auto simp: challenge_outcome_failed challenge_outcome_sent elim!: runs_elims runs_then_send_dataE)

lemma runs_pick_challenge:
  assumes "runs (bindA (pick_cookie os) (\<lambda>picked. if \<not> picked then send_rejected else send_challenge os)) b r a'"
    and "preparing a b" "keyring_for b" "server_ok a"
  shows "challenge_outcome a r a'"
proof -
  obtain kr where kr: "au_keyring b = Some kr"
    "cr_unix_uid (au_desired_identity b) \<in> {DBUS_UID_UNSET, cr_unix_uid (kr_credentials kr)}"
    using assms(3) by (auto simp: keyring_for_def)
  from assms(1) show ?thesis
  proof (cases rule: runs_bindE)
    case (fails e)
    then have "a' = b"
      using runs_pick_cookie [OF fails(1) kr(1)] by auto
    then show ?thesis
      using challenge_outcome_failed [OF assms(2)] fails(2) by simp
  next
    case (goes_on picked b1)
    have "preparing a b1"
      using runs_pick_cookie [OF goes_on(1) kr(1)] kr(2) assms(2)
      by (auto simp: preparing_def fixed_def auth_uid_def keyring_for_def)
    then show ?thesis
      using goes_on(2) runs_send_challenge challenge_outcome_rejected assms(4) by (auto split: if_splits)
  qed
qed

lemma runs_challenge_client:
  assumes "runs (challenge_client os) b r a'" "preparing a b" "au_cookie_id b < 0" "server_ok a"
  shows "challenge_outcome a r a'"
proof -
  define c where "c = drop_other_keyring b"
  have c: "preparing a c" "au_cookie_id c < 0" "au_desired_identity c = au_desired_identity b"
    and kr: "au_keyring c \<noteq> None \<Longrightarrow> keyring_for c"
    using assms(2,3)
    by (auto simp: c_def drop_other_keyring_def preparing_def fixed_def auth_uid_def keyring_for_def
        dbus_keyring_is_for_credentials_def dbus_credentials_same_user_def split: option.splits)
  from assms(1) have "runs (bindA (open_keyring os (Some (au_desired_identity c)) (au_context c))
      (\<lambda>opened. if \<not> opened then send_rejected
        else bindA (pick_cookie os) (\<lambda>picked. if \<not> picked then send_rejected else send_challenge os))) c r a'"
    unfolding challenge_client_def c_def by simp
  then show ?thesis
  proof (cases rule: runs_bindE)
    case (fails e)
    then show ?thesis
      using runs_open_keyring [OF fails(1)] challenge_outcome_failed [OF c(1)] by auto
  next
    case (goes_on opened d)
    have d: "preparing a d" "opened \<Longrightarrow> keyring_for d"
      using runs_open_keyring [OF goes_on(1)] c kr by (auto simp: preparing_def fixed_def auth_uid_def keyring_for_def)
    show ?thesis
    proof (cases opened)
      case True
      then show ?thesis
        using goes_on(2) runs_pick_challenge [OF _ d(1) d(2) assms(4)] by simp
    next
      case False
      then show ?thesis
        using goes_on(2) challenge_outcome_rejected [OF _ d(1) assms(4)] by simp
    qed
  qed
qed


lemma runs_first_response:
  assumes "runs (sha1_handle_first_client_response os data) a r a'" "server_ok a"
    and "au_mech a = Some DBUS_COOKIE_SHA1" "au_cookie_id a < 0"
  shows "challenge_outcome a r a'"
proof -
  define b where "b = a \<lparr> au_challenge := [] \<rparr>"
  have b: "preparing a b" "au_cookie_id b < 0"
    using assms(3,4) by (simp_all add: b_def) (simp add: preparing_def)
  from assms(1) have "runs (bindA (take_identity data) (\<lambda>fresh. if \<not> fresh then send_rejected
      else bindA (add_desired_user os data) (\<lambda>known. if \<not> known then send_rejected
      else thenA allocA (thenA allocA (challenge_client os))))) b r a'"
    unfolding sha1_handle_first_client_response_def b_def by simp
  then show ?thesis
  proof (cases rule: runs_bindE)
    case (fails e)
    then show ?thesis
      using runs_take_identity [OF fails(1)] challenge_outcome_failed [OF b(1)] by auto
  next
    case (goes_on fresh c)
    have c: "preparing a c" "au_cookie_id c < 0"
      using runs_take_identity [OF goes_on(1)] b by auto
    show ?thesis
    proof (cases fresh)
      case True
      with goes_on(2) have "runs (bindA (add_desired_user os data) (\<lambda>known. if \<not> known then send_rejected
          else thenA allocA (thenA allocA (challenge_client os)))) c r a'"
        by simp
      then obtain known d where added: "runs (add_desired_user os data) c (Inr known) d"
        and run: "runs (if \<not> known then send_rejected else thenA allocA (thenA allocA (challenge_client os))) d r a'"
        by (elim runs_bindE) (auto dest!: runs_add_desired_user)
      have d: "preparing a d" "au_cookie_id d < 0"
        using runs_add_desired_user [OF added] c by (auto simp: preparing_def fixed_def auth_uid_def)
      show ?thesis
        using run challenge_outcome_rejected [OF _ d(1) assms(2)] runs_challenge_client [OF _ d assms(2)]
          challenge_outcome_failed [OF d(1)]
        by (auto split: if_splits elim!: runs_elims)
    next
      case False
      then show ?thesis
        using goes_on(2) challenge_outcome_rejected [OF _ c(1) assms(2)] by simp
    qed
  qed
qed

lemma runs_compute_hash:
  assumes "runs (sha1_compute_hash i sc cc) a r a'"
  shows "a' = a \<and> (\<forall>h. r = Inr h \<and> h \<noteq> [] \<longrightarrow>
    (\<exists>kr. au_keyring a = Some kr \<and> dbus_keyring_get_hex_key kr i \<noteq> [] \<and>
       h = dbus_sha_compute sha_stack (hash_input sc cc (dbus_keyring_get_hex_key kr i)) []))"
  using assms unfolding sha1_compute_hash_def
  by (auto simp: Let_def elim!: runs_elims split: option.splits if_splits)

definition response_outcome :: "dbus_string \<Rightarrow> DBusAuth \<Rightarrow> auth_failure + unit \<Rightarrow> DBusAuth \<Rightarrow> bool" where
  "response_outcome data a r a' \<longleftrightarrow>
     rejects a r a' \<or>
     goes_to {server_state_waiting_for_begin} a r a' \<and> same_cookie a a' \<and> au_desired_identity a' = au_desired_identity a \<and>
     ((\<exists>e. r = Inl e) \<and> auth_uid a' = auth_uid a \<or>
      proves_cookie a data \<and> auth_uid a' \<in> {auth_uid a, cr_unix_uid (au_desired_identity a)})"

lemma response_outcome_failed [simp]: "response_outcome data a (Inl e) a"
  by (simp add: response_outcome_def goes_to_def same_cookie_def)

lemma response_outcome_rejected: "runs send_rejected a r a' \<Longrightarrow> server_ok a \<Longrightarrow> response_outcome data a r a'"
  using runs_rejected_similar [of a r a' a] response_outcome_failed [of data a] by (auto simp: response_outcome_def)

lemma runs_check_hash:
  assumes "runs (check_hash (take i data) (drop j data)) a r a'" "server_ok a"
    and "dbus_string_find_blank data 0 = (True, i)" "dbus_string_skip_blank data i = Some j"
  shows "response_outcome data a r a'"
proof -
  let ?compute = "sha1_compute_hash (au_cookie_id a) (au_challenge a) (take i data)"
  let ?check = "\<lambda>h. if length h = 0 then send_rejected else if drop j data \<noteq> h then send_rejected
         else thenA (authorize (au_desired_identity a)) (thenA (authorize_one DBUS_CREDENTIAL_UNIX_PROCESS_ID) send_ok)"
  have "runs (bindA ?compute (\<lambda>h. if length h = 0 then send_rejected else if drop j data \<noteq> h then send_rejected
      else bindA (getsA au_desired_identity) (\<lambda>desired.
        thenA (authorize desired) (thenA (authorize_one DBUS_CREDENTIAL_UNIX_PROCESS_ID) send_ok)))) a r a'"
    using assms(1) unfolding check_hash_def by simp
  then consider (failed) e where "r = Inl e" "a' = a" | (hash) h where "runs ?compute a (Inr h) a" "runs (?check h) a r a'"
  proof (cases rule: runs_bindE)
    case (goes_on h b)
    moreover from this have "b = a"
      using runs_compute_hash by blast
    ultimately show ?thesis
      using hash [of h] by (auto split: if_splits)
  qed (use failed runs_compute_hash in blast)
  then show ?thesis
  proof cases
    case hash
    show ?thesis
    proof (cases "h = [] \<or> drop j data \<noteq> h")
      case True
      then show ?thesis
        using hash(2) response_outcome_rejected [OF _ assms(2)] by (auto split: if_splits)
    next
      case False
      then have "proves_cookie a data"
        using runs_compute_hash [OF hash(1)] assms(3,4) by (auto simp: proves_cookie_def)
      moreover have "runs (thenA (authorize (au_desired_identity a)) (thenA (authorize_one DBUS_CREDENTIAL_UNIX_PROCESS_ID) send_ok)) a r a'"
        using hash(2) False by simp
      ultimately show ?thesis
        by (elim runs_thenE)
          (auto dest!: runs_authorize runs_authorize_one runs_send_ok
            simp: response_outcome_def goes_to_def same_cookie_def fixed_def auth_uid_def)
    qed
  qed simp
qed

lemma runs_second_response:
  assumes "runs (sha1_handle_second_client_response data) a r a'" "server_ok a"
  shows "response_outcome data a r a'"
  using assms unfolding sha1_handle_second_client_response_def
  by (auto simp: Let_def split: prod.splits if_splits elim!: runs_elims
      dest: response_outcome_rejected runs_check_hash)

end
