(* ===== verification/Spec2Isabelle.thy ===== *)
theory Spec2Isabelle
  imports Dbus_Names Dbus_Signature Bus_Confinement Dbus_Auth_Steps
begin

text \<open>
  Verification of the D-Bus reference implementation.
\<close>

end
